theory Spec2Isabelle
  imports Main "HOL-Library.Sublist" "HOL-Library.AList"
begin

section \<open>Values of the program\<close>

text \<open>
  Publisher.ts throws \<^verbatim>\<open>new Error(msg)\<close> itself; a read of a property of
  \<^verbatim>\<open>undefined\<close> is a TypeError of the runtime, a recursion deeper than the call
  stack a RangeError; every awaited call of a collaborator (remote client, adaptor,
  renderer, converter) may reject with a value of its own.
\<close>

datatype error = Error string | TypeError string | RangeError string | Thrown string

text \<open>
  An attribute value of a document node: a string, or any other JSON scalar, carried
  as the text JavaScript's string coercion gives it.
\<close>

datatype jval = JStr string | JOther string

type_synonym attrs = "(string \<times> jval) list"

datatype mark = Mark (mark_type: string) (mark_attrs: "attrs option")

text \<open>
  ADFEntity of @atlaskit/adf-utils: \<^verbatim>\<open>{type, attrs?, content?, marks?, text?}\<close>.
  An absent property is \<open>None\<close>; an object keeps its properties in insertion order.
\<close>

datatype adf = Node (node_type: string) (node_attrs: "attrs option")
  (node_content: "adf list option") (node_marks: "mark list option")
  (node_text: "string option")

text \<open>MarkdownFile (declared in adaptors/types): the code reads two of its fields.\<close>

record MarkdownFile =
  md_folderName :: string
  md_absoluteFilePath :: string
  md_fileName :: string
  md_contents :: string
  md_pageTitle :: string
  md_frontmatter :: "(string \<times> jval) list"

record AdfFile =
  file_folderName :: string
  file_absoluteFilePath :: string
  file_fileName :: string
  file_contents :: adf
  file_pageTitle :: string
  file_frontmatter :: "(string \<times> jval) list"
  file_tags :: "string list"
  file_pageId :: "string option"
  file_dontChangeParentPageId :: bool
  file_spaceKey :: "string option"

datatype TreeNode = TreeNode (name: string) (children: "TreeNode list")
  (tree_file: "AdfFile option")

text \<open>
  The functions of Node's \<^verbatim>\<open>path\<close> module that the tree builder calls. They are
  platform code, taken as parameters: \<^verbatim>\<open>path.sep\<close>, \<^verbatim>\<open>path.relative\<close>,
  \<^verbatim>\<open>path.join\<close> and \<^verbatim>\<open>path.parse(p).name\<close>.
\<close>

record path_module =
  path_sep :: char
  path_relative :: "string \<Rightarrow> string \<Rightarrow> string"
  path_join :: "string \<Rightarrow> string \<Rightarrow> string"
  path_parse_name :: "string \<Rightarrow> string"

section \<open>Strings\<close>

text \<open>\<^verbatim>\<open>s.split(sep)\<close> for a one-character separator: never the empty array.\<close>

fun split_sep :: "char \<Rightarrow> string \<Rightarrow> string list" where
  "split_sep c [] = [[]]"
| "split_sep c (x # xs) =
     (if x = c then [] # split_sep c xs
      else (case split_sep c xs of
              [] \<Rightarrow> [[x]]
            | y # ys \<Rightarrow> (x # y) # ys))"

text \<open>\<^verbatim>\<open>parts.join(sep)\<close>; the empty array joins to the empty string.\<close>

fun join_sep :: "char \<Rightarrow> string list \<Rightarrow> string" where
  "join_sep c [] = []"
| "join_sep c [x] = x"
| "join_sep c (x # y # ys) = x @ c # join_sep c (y # ys)"

text \<open>\<^verbatim>\<open>xs[i]\<close>: \<^verbatim>\<open>undefined\<close> (here \<open>None\<close>) out of range.\<close>

definition at_index :: "'a list \<Rightarrow> nat \<Rightarrow> 'a option" where
  "at_index xs i = (if i < length xs then Some (xs ! i) else None)"

lemma split_sep_not_Nil: "split_sep c s \<noteq> []"
  by (induction s) (auto split: list.splits)

lemma join_split_sep: "join_sep c (split_sep c s) = s"
proof (induction s)
  case Nil
  then show ?case by simp
next
  case (Cons x xs)
  show ?case
  proof (cases "split_sep c xs")
    case Nil
    then show ?thesis using split_sep_not_Nil by blast
  next
    case (Cons y ys)
    with Cons.IH show ?thesis by (cases ys) auto
  qed
qed

section \<open>Tree Builder\<close>

subsection \<open>findCommonPath\<close>

text \<open>
  The inner \<^verbatim>\<open>for\<close> loop of findCommonPath, from index \<open>i\<close>: at the first index
  where \<^verbatim>\<open>pathParts[i] !== commonPathParts[i]\<close> the array is cut by
  \<^verbatim>\<open>splice(i)\<close> and the loop breaks.
\<close>

function common_loop :: "string list \<Rightarrow> string list \<Rightarrow> nat \<Rightarrow> string list" where
  "common_loop commonPathParts pathParts i =
     (if i < length commonPathParts then
        (if at_index pathParts i \<noteq> Some (commonPathParts ! i)
         then take i commonPathParts
         else common_loop commonPathParts pathParts (Suc i))
      else commonPathParts)"
  by pat_completeness auto
termination
  by (relation "measure (\<lambda>(c, p, i). length c - i)") auto

declare common_loop.simps [simp del]

text \<open>The array \<^verbatim>\<open>commonPathParts\<close> after \<^verbatim>\<open>rest.forEach\<close>.\<close>

definition commonPathParts :: "char \<Rightarrow> string \<Rightarrow> string list \<Rightarrow> string list" where
  "commonPathParts sep firstPath rest =
     foldl (\<lambda>common filePath. common_loop common (split_sep sep filePath) 0)
       (split_sep sep firstPath) rest"

text \<open>
  findCommonPath. On the empty array \<^verbatim>\<open>firstPath\<close> is \<^verbatim>\<open>undefined\<close> and
  \<^verbatim>\<open>firstPath.split\<close> throws.
\<close>

fun findCommonPath :: "char \<Rightarrow> string list \<Rightarrow> error + string" where
  "findCommonPath sep [] =
     Inl (TypeError ''Cannot read properties of undefined (reading 'split')'')"
| "findCommonPath sep (firstPath # rest) =
     Inr (join_sep sep (commonPathParts sep firstPath rest))"

text \<open>
  The parent directory of a path, as the specification speaks of it: the path without
  its last component. Not a function of the source.
\<close>

definition spec_parent_directory :: "char \<Rightarrow> string \<Rightarrow> string" where
  "spec_parent_directory sep p = join_sep sep (butlast (split_sep sep p))"


subsection \<open>addFileToTree\<close>

definition createTreeNode :: "string \<Rightarrow> TreeNode" where
  "createTreeNode n = TreeNode n [] None"

text \<open>
  A child found by \<^verbatim>\<open>children.find\<close> is changed in place by the recursive call:
  the first child that satisfies the test is the one replaced.
\<close>

fun replace_first :: "('a \<Rightarrow> bool) \<Rightarrow> 'a \<Rightarrow> 'a list \<Rightarrow> 'a list" where
  "replace_first P y [] = []"
| "replace_first P y (x # xs) = (if P x then y # xs else x # replace_first P y xs)"

definition not_unique_message :: "string \<Rightarrow> string" where
  "not_unique_message fname =
     ''File name '' @ [CHR 0x22] @ fname @ [CHR 0x22] @ '' is not unique across all folders.''"

lemma split_sep_rest_shorter:
  "split_sep c s = x # rest \<Longrightarrow> rest \<noteq> [] \<Longrightarrow> length (join_sep c rest) < length s"
proof -
  assume a: "split_sep c s = x # rest" and b: "rest \<noteq> []"
  have "join_sep c (x # rest) = s"
    using a join_split_sep [of c s] by simp
  with b show ?thesis by (cases rest) auto
qed

text \<open>
  addFileToTree. The set \<^verbatim>\<open>fileNames\<close> is the one object shared by every call; it
  is passed in and returned. \<^verbatim>\<open>convert\<close> is \<^verbatim>\<open>mdToADFConverter.convertMDtoADF\<close>
  (module mdToADF), a parameter. The split of a string is never empty
  (\<open>split_sep_not_Nil\<close>), so the first case below is never taken.
\<close>

function addFileToTree ::
  "char \<Rightarrow> (MarkdownFile \<Rightarrow> error + AdfFile) \<Rightarrow> TreeNode \<Rightarrow> MarkdownFile \<Rightarrow> string \<Rightarrow>
   string set \<Rightarrow> error + TreeNode \<times> string set" where
  "addFileToTree sep convert treeNode mdfile relativePath fileNames =
     (case split_sep sep relativePath of
        [] \<Rightarrow> Inl (TypeError [])
      | folderName # remainingPath \<Rightarrow>
          if length remainingPath = 0 then
            (if md_fileName mdfile \<in> fileNames
             then Inl (Error (not_unique_message (md_fileName mdfile)))
             else (case convert mdfile of
                     Inl e \<Rightarrow> Inl e
                   | Inr adfFile \<Rightarrow>
                       Inr (TreeNode (name treeNode)
                              (children treeNode @ [TreeNode folderName [] (Some adfFile)])
                              (tree_file treeNode),
                            insert (md_fileName mdfile) fileNames)))
          else
            (case find (\<lambda>node. name node = folderName) (children treeNode) of
               Some childNode \<Rightarrow>
                 (case addFileToTree sep convert childNode mdfile
                         (join_sep sep remainingPath) fileNames of
                    Inl e \<Rightarrow> Inl e
                  | Inr (childNode', fileNames') \<Rightarrow>
                      Inr (TreeNode (name treeNode)
                             (replace_first (\<lambda>node. name node = folderName) childNode'
                                (children treeNode))
                             (tree_file treeNode),
                           fileNames'))
             | None \<Rightarrow>
                 (case addFileToTree sep convert (createTreeNode folderName) mdfile
                         (join_sep sep remainingPath) fileNames of
                    Inl e \<Rightarrow> Inl e
                  | Inr (childNode', fileNames') \<Rightarrow>
                      Inr (TreeNode (name treeNode) (children treeNode @ [childNode'])
                             (tree_file treeNode),
                           fileNames'))))"
  by pat_completeness auto
termination
  by (relation "measure (\<lambda>(sep, convert, treeNode, mdfile, relativePath, fileNames).
        length relativePath)")
     (auto simp: split_sep_rest_shorter)

declare addFileToTree.simps [simp del]

subsection \<open>createFolderStructure\<close>

text \<open>The \<^verbatim>\<open>markdownFiles.forEach\<close> loop: the first throw ends it.\<close>

fun addFiles ::
  "path_module \<Rightarrow> (MarkdownFile \<Rightarrow> error + AdfFile) \<Rightarrow> string \<Rightarrow> MarkdownFile list \<Rightarrow>
   TreeNode \<times> string set \<Rightarrow> error + TreeNode \<times> string set" where
  "addFiles pm convert commonPath [] acc = Inr acc"
| "addFiles pm convert commonPath (mdfile # rest) (rootNode, fileNames) =
     (case addFileToTree (path_sep pm) convert rootNode mdfile
             (path_relative pm commonPath (md_absoluteFilePath mdfile)) fileNames of
        Inl e \<Rightarrow> Inl e
      | Inr acc' \<Rightarrow> addFiles pm convert commonPath rest acc')"

text \<open>\<^verbatim>\<open>children.filter((child) => child !== indexFile)\<close>: the found child leaves.\<close>

fun remove_first :: "('a \<Rightarrow> bool) \<Rightarrow> 'a list \<Rightarrow> 'a list" where
  "remove_first P [] = []"
| "remove_first P (x # xs) = (if P x then xs else x # remove_first P xs)"

text \<open>
  The body of processNode before it visits the children; \<^verbatim>\<open>folderFile\<close> is the
  constant imported from FolderFile.json.
\<close>

definition assignIndexFile :: "path_module \<Rightarrow> adf \<Rightarrow> string \<Rightarrow> TreeNode \<Rightarrow> TreeNode" where
  "assignIndexFile pm folderFile commonPath node =
     (case tree_file node of
        Some f \<Rightarrow> node
      | None \<Rightarrow>
          (case find (\<lambda>child. path_parse_name pm (name child) = name node) (children node) of
             Some indexFile \<Rightarrow>
               TreeNode (name node)
                 (remove_first (\<lambda>child. path_parse_name pm (name child) = name node)
                    (children node))
                 (tree_file indexFile)
           | None \<Rightarrow>
               TreeNode (name node) (children node)
                 (Some \<lparr> file_folderName = name node,
                         file_absoluteFilePath = path_join pm commonPath (name node),
                         file_fileName = name node @ ''.md'',
                         file_contents = folderFile,
                         file_pageTitle = name node,
                         file_frontmatter = [],
                         file_tags = [],
                         file_pageId = None,
                         file_dontChangeParentPageId = False,
                         file_spaceKey = None \<rparr>)))"

lemma set_remove_first: "set (remove_first P xs) \<subseteq> set xs"
  by (induction xs) auto

lemma children_assignIndexFile:
  "set (children (assignIndexFile pm ff cp node)) \<subseteq> set (children node)"
  using set_remove_first [of _ "children node"]
  by (auto simp: assignIndexFile_def split: option.splits)

lemma size_child: "x \<in> set xs \<Longrightarrow> size x < Suc (size_list size xs)"
  by (induction xs) auto

function processNode :: "path_module \<Rightarrow> adf \<Rightarrow> string \<Rightarrow> TreeNode \<Rightarrow> TreeNode" where
  "processNode pm folderFile commonPath node =
     (let node' = assignIndexFile pm folderFile commonPath node
      in TreeNode (name node')
           (map (processNode pm folderFile commonPath) (children node'))
           (tree_file node'))"
  by pat_completeness auto
termination
proof (relation "measure (\<lambda>(pm, ff, cp, node). size node)")
  show "wf (measure (\<lambda>(pm, ff, cp, node). size node))" by simp
next
  fix pm :: path_module and folderFile commonPath node x xa
  assume "x = assignIndexFile pm folderFile commonPath node" and "xa \<in> set (children x)"
  then have "xa \<in> set (children node)"
    using children_assignIndexFile by blast
  then have "size xa < size node"
    by (cases node) (auto dest: size_child)
  then show "((pm, folderFile, commonPath, xa), (pm, folderFile, commonPath, node))
      \<in> measure (\<lambda>(pm, ff, cp, node). size node)" by simp
qed

declare processNode.simps [simp del]

definition createFolderStructure ::
  "path_module \<Rightarrow> (MarkdownFile \<Rightarrow> error + AdfFile) \<Rightarrow> adf \<Rightarrow> MarkdownFile list \<Rightarrow>
   error + TreeNode" where
  "createFolderStructure pm convert folderFile markdownFiles =
     (case findCommonPath (path_sep pm) (map md_absoluteFilePath markdownFiles) of
        Inl e \<Rightarrow> Inl e
      | Inr commonPath \<Rightarrow>
          (case addFiles pm convert commonPath markdownFiles
                  (createTreeNode commonPath, {}) of
             Inl e \<Rightarrow> Inl e
           | Inr (rootNode, fileNames) \<Rightarrow>
               Inr (processNode pm folderFile commonPath rootNode)))"


section \<open>Collaborators and their calls\<close>

subsection \<open>What the remote client, the adaptor and the renderer take and answer\<close>

text \<open>
  The declarations of ConfluenceClient, LoaderAdaptor and MermaidRenderer are in
  modules outside Publisher.ts; the records below hold the properties Publisher.ts
  reads or writes. A property read with \<^verbatim>\<open>?.\<close> is an option.
\<close>

record content_page =
  page_id :: string
  page_space :: "string option"
  page_version :: "int option"
  page_body :: "string option"
  page_ancestors :: "string list option"

record content_array =
  ca_size :: int
  ca_results :: "content_page list"

record create_request =
  cr_spaceKey :: string
  cr_ancestors :: "string list"
  cr_title :: string
  cr_body :: string

record update_request =
  up_id :: string
  up_ancestors :: "string list option"
  up_version :: int
  up_title :: string
  up_body :: string

record remote_label =
  lbl_label :: string
  lbl_name :: string

record label_array =
  la_size :: int
  la_results :: "remote_label list"

record new_label =
  nl_prefix :: string
  nl_name :: string

record attachment =
  att_title :: string
  att_comment :: string
  att_fileId :: string
  att_collectionName :: string

record attachment_upload =
  au_file :: string
  au_filename :: string
  au_minorEdit :: bool
  au_comment :: string
  au_contentType :: "string option"

record attachment_result =
  ar_fileId :: string
  ar_containerId :: string

record binary_file =
  bin_contents :: string
  bin_filePath :: string
  bin_filename :: string

record ChartData =
  chart_name :: string
  chart_data :: string

text \<open>Every call Publisher.ts awaits on a collaborator, with its arguments.\<close>

datatype call =
    GetContentById string
  | GetContent string string
  | CreateContent create_request
  | UpdateContent update_request
  | GetLabelsForContent string
  | RemoveLabelFromContent string string
  | AddLabelsToContent string "new_label list"
  | GetAttachments string
  | CreateOrUpdateAttachments string attachment_upload
  | UpdateMarkdownPageId string string
  | ReadBinary "string option" string
  | CaptureMermaidCharts "ChartData list"
  | GetMarkdownFilesToUpload

text \<open>
  The collaborators are parameters. Each answers from the calls made so far (the log
  before the call) and the arguments: with a value, or by rejecting (\<open>Inl\<close>).
\<close>

record env =
  getContentById :: "call list \<Rightarrow> string \<Rightarrow> error + content_page"
  getContent :: "call list \<Rightarrow> string \<Rightarrow> string \<Rightarrow> error + content_array"
  createContent :: "call list \<Rightarrow> create_request \<Rightarrow> error + content_page"
  updateContent :: "call list \<Rightarrow> update_request \<Rightarrow> error + unit"
  getLabelsForContent :: "call list \<Rightarrow> string \<Rightarrow> error + label_array"
  removeLabelFromContent :: "call list \<Rightarrow> string \<Rightarrow> string \<Rightarrow> error + unit"
  addLabelsToContent :: "call list \<Rightarrow> string \<Rightarrow> new_label list \<Rightarrow> error + unit"
  getAttachments :: "call list \<Rightarrow> string \<Rightarrow> error + attachment list"
  createOrUpdateAttachments ::
    "call list \<Rightarrow> string \<Rightarrow> attachment_upload \<Rightarrow> error + attachment_result list"
  updateMarkdownPageId :: "call list \<Rightarrow> string \<Rightarrow> string \<Rightarrow> error + unit"
  readBinary :: "call list \<Rightarrow> string option \<Rightarrow> string \<Rightarrow> error + binary_file option"
  captureMermaidCharts :: "call list \<Rightarrow> ChartData list \<Rightarrow> error + (string \<times> string) list"
  getMarkdownFilesToUpload :: "call list \<Rightarrow> error + MarkdownFile list"

subsection \<open>Awaited code\<close>

text \<open>
  An async function of Publisher.ts takes the log of calls made so far and returns its
  value or the error it throws, with the log as it then stands. A call is logged
  whether it is answered or rejected.
\<close>

type_synonym 'a io = "call list \<Rightarrow> (error + 'a) \<times> call list"

definition return :: "'a \<Rightarrow> 'a io" where
  "return x = (\<lambda>log. (Inr x, log))"

definition throw :: "error \<Rightarrow> 'a io" where
  "throw e = (\<lambda>log. (Inl e, log))"

definition bind :: "'a io \<Rightarrow> ('a \<Rightarrow> 'b io) \<Rightarrow> 'b io" where
  "bind m f = (\<lambda>log. case m log of
                        (Inl e, log') \<Rightarrow> (Inl e, log')
                      | (Inr x, log') \<Rightarrow> f x log')"

definition perform :: "call \<Rightarrow> (call list \<Rightarrow> error + 'a) \<Rightarrow> 'a io" where
  "perform c answer = (\<lambda>log. (answer log, log @ [c]))"

text \<open>A pure computation that may throw, inside awaited code.\<close>

definition lift :: "error + 'a \<Rightarrow> 'a io" where
  "lift r = (\<lambda>log. (r, log))"

text \<open>JavaScript truthiness of an optional string: absent and empty are falsy.\<close>

definition truthy :: "string option \<Rightarrow> bool" where
  "truthy v = (case v of None \<Rightarrow> False | Some s \<Rightarrow> s \<noteq> [])"

text \<open>An optional string inside a template literal.\<close>

definition template :: "string option \<Rightarrow> string" where
  "template v = (case v of None \<Rightarrow> ''undefined'' | Some s \<Rightarrow> s)"

section \<open>Remote Page Reconciler\<close>

record page_details =
  pd_id :: string
  pd_title :: string
  pd_version :: int
  pd_existingAdf :: "string option"
  pd_spaceKey :: string

definition outside_tree_message :: "string \<Rightarrow> string" where
  "outside_tree_message title =
     title @ '' is trying to overwrite a page outside the page tree from the selected top page''"

text \<open>
  \<^verbatim>\<open>currentPage.ancestors?.some((ancestor) => ancestor.id == topPageId)\<close>:
  \<^verbatim>\<open>undefined\<close>, so falsy, when the page carries no ancestors.
\<close>

definition ancestors_include :: "content_page \<Rightarrow> string \<Rightarrow> bool" where
  "ancestors_include currentPage topPageId =
     (case page_ancestors currentPage of
        None \<Rightarrow> False
      | Some ancestors \<Rightarrow> list_ex (\<lambda>ancestor. ancestor = topPageId) ancestors)"

definition version_or_1 :: "content_page \<Rightarrow> int" where
  "version_or_1 p = (case page_version p of None \<Rightarrow> 1 | Some n \<Rightarrow> n)"

text \<open>
  ensurePageExists. \<^verbatim>\<open>blankPageAdf\<close> is the field of the Publisher, the serialised
  placeholder document. \<^verbatim>\<open>contentByTitle.results[0]\<close> of an empty array is
  \<^verbatim>\<open>undefined\<close>, and reading its ancestors throws.
\<close>

definition ensurePageExists ::
  "env \<Rightarrow> string \<Rightarrow> AdfFile \<Rightarrow> string \<Rightarrow> string \<Rightarrow> string \<Rightarrow> page_details io" where
  "ensurePageExists client blankPageAdf file spaceKey parentPageId topPageId =
     (case (if truthy (file_pageId file) then file_pageId file else None) of
        Some storedId \<Rightarrow>
          bind (perform (GetContentById storedId) (\<lambda>log. getContentById client log storedId))
            (\<lambda>contentById.
               if \<not> truthy (page_space contentById)
               then throw (Error ''Missing Space Key'')
               else return \<lparr> pd_id = page_id contentById,
                             pd_title = file_pageTitle file,
                             pd_version = version_or_1 contentById,
                             pd_existingAdf = page_body contentById,
                             pd_spaceKey = template (page_space contentById) \<rparr>)
      | None \<Rightarrow>
          bind (perform (GetContent spaceKey (file_pageTitle file))
                  (\<lambda>log. getContent client log spaceKey (file_pageTitle file)))
            (\<lambda>contentByTitle.
               if ca_size contentByTitle > 0 then
                 (case ca_results contentByTitle of
                    [] \<Rightarrow>
                      throw (TypeError
                        ''Cannot read properties of undefined (reading 'ancestors')'')
                  | currentPage # others \<Rightarrow>
                      if \<not> ancestors_include currentPage topPageId
                      then throw (Error (outside_tree_message (file_pageTitle file)))
                      else
                        bind (perform
                                (UpdateMarkdownPageId (file_absoluteFilePath file)
                                   (page_id currentPage))
                                (\<lambda>log. updateMarkdownPageId client log
                                   (file_absoluteFilePath file) (page_id currentPage)))
                          (\<lambda>u. return \<lparr> pd_id = page_id currentPage,
                                         pd_title = file_pageTitle file,
                                         pd_version = version_or_1 currentPage,
                                         pd_existingAdf = page_body currentPage,
                                         pd_spaceKey = spaceKey \<rparr>))
               else
                 bind (perform
                         (CreateContent \<lparr> cr_spaceKey = spaceKey,
                                          cr_ancestors = [parentPageId],
                                          cr_title = file_pageTitle file,
                                          cr_body = blankPageAdf \<rparr>)
                         (\<lambda>log. createContent client log
                            \<lparr> cr_spaceKey = spaceKey,
                              cr_ancestors = [parentPageId],
                              cr_title = file_pageTitle file,
                              cr_body = blankPageAdf \<rparr>))
                   (\<lambda>pageDetails.
                      bind (perform
                              (UpdateMarkdownPageId (file_absoluteFilePath file)
                                 (page_id pageDetails))
                              (\<lambda>log. updateMarkdownPageId client log
                                 (file_absoluteFilePath file) (page_id pageDetails)))
                        (\<lambda>u. return \<lparr> pd_id = page_id pageDetails,
                                       pd_title = file_pageTitle file,
                                       pd_version = version_or_1 pageDetails,
                                       pd_existingAdf = page_body pageDetails,
                                       pd_spaceKey = spaceKey \<rparr>))))"

text \<open>
  A call that writes: it changes a remote page, its labels or attachments, or the
  stored page identifier of a source document.
\<close>

fun is_write :: "call \<Rightarrow> bool" where
  "is_write (CreateContent r) = True"
| "is_write (UpdateContent r) = True"
| "is_write (RemoveLabelFromContent i n) = True"
| "is_write (AddLabelsToContent i ls) = True"
| "is_write (CreateOrUpdateAttachments i a) = True"
| "is_write (UpdateMarkdownPageId p i) = True"
| "is_write c = False"

section \<open>Document trees\<close>

subsection \<open>traverse and filter of @atlaskit/adf-utils\<close>

text \<open>
  The library's \<^verbatim>\<open>traverse(adf, visitors)\<close>. A visitor is called on a node of its
  type (the visitor named \<^verbatim>\<open>any\<close> on every other node) and returns \<^verbatim>\<open>false\<close>, a
  node, or nothing. On \<^verbatim>\<open>false\<close> the node is left out of its parent's content; a
  returned node takes the place of the visited one; on \<^verbatim>\<open>undefined\<close> the node stays
  as it is (\<^verbatim>\<open>newNode = processedNode || adfNode\<close>). The content of the node that
  stands after the visit is then traversed in turn. The recursion follows what the
  visitors return, so its depth is bounded by the call stack only: \<open>depth\<close> is the
  number of nested calls the stack still holds, and a deeper recursion throws.
\<close>

datatype visit_result = VUndefined | VFalse | VNode adf

type_synonym visitor = "adf \<Rightarrow> error + visit_result"

type_synonym visitors = "(string \<times> visitor) list"

definition visitor_for :: "visitors \<Rightarrow> string \<Rightarrow> visitor option" where
  "visitor_for vs t = (case map_of vs t of Some v \<Rightarrow> Some v | None \<Rightarrow> map_of vs ''any'')"

definition stack_overflow :: error where
  "stack_overflow = RangeError ''Maximum call stack size exceeded''"

fun traverseNode :: "nat \<Rightarrow> visitors \<Rightarrow> adf \<Rightarrow> error + adf option"
  and traverseContent :: "nat \<Rightarrow> visitors \<Rightarrow> adf list \<Rightarrow> error + adf list" where
  "traverseNode 0 vs adfNode = Inl stack_overflow"
| "traverseNode (Suc depth) vs adfNode =
     (case (case visitor_for vs (node_type adfNode) of
              None \<Rightarrow> Inr VUndefined
            | Some v \<Rightarrow> v adfNode) of
        Inl e \<Rightarrow> Inl e
      | Inr VFalse \<Rightarrow> Inr None
      | Inr processedNode \<Rightarrow>
          (let newNode = (case processedNode of VNode m \<Rightarrow> m | _ \<Rightarrow> adfNode)
           in case node_content newNode of
                None \<Rightarrow> Inr (Some newNode)
              | Some cs \<Rightarrow>
                  (case traverseContent depth vs cs of
                     Inl e \<Rightarrow> Inl e
                   | Inr cs' \<Rightarrow>
                       Inr (Some (Node (node_type newNode) (node_attrs newNode) (Some cs')
                                    (node_marks newNode) (node_text newNode))))))"
| "traverseContent depth vs [] = Inr []"
| "traverseContent depth vs (c # cs) =
     (case traverseNode depth vs c of
        Inl e \<Rightarrow> Inl e
      | Inr r \<Rightarrow>
          (case traverseContent depth vs cs of
             Inl e \<Rightarrow> Inl e
           | Inr rs \<Rightarrow> Inr (case r of None \<Rightarrow> rs | Some c' \<Rightarrow> c' # rs)))"

definition traverse :: "nat \<Rightarrow> adf \<Rightarrow> visitors \<Rightarrow> error + adf option" where
  "traverse depth adf vs = traverseNode depth vs adf"

text \<open>
  The library's \<^verbatim>\<open>filter(adf, callback)\<close>: a traversal whose \<^verbatim>\<open>any\<close> visitor
  collects, parents before children, the nodes the callback accepts, and returns
  nothing.
\<close>

fun filterNode :: "nat \<Rightarrow> (adf \<Rightarrow> bool) \<Rightarrow> adf \<Rightarrow> error + adf list"
  and filterContent :: "nat \<Rightarrow> (adf \<Rightarrow> bool) \<Rightarrow> adf list \<Rightarrow> error + adf list" where
  "filterNode 0 callback adfNode = Inl stack_overflow"
| "filterNode (Suc depth) callback adfNode =
     (case node_content adfNode of
        None \<Rightarrow> Inr (if callback adfNode then [adfNode] else [])
      | Some cs \<Rightarrow>
          (case filterContent depth callback cs of
             Inl e \<Rightarrow> Inl e
           | Inr found \<Rightarrow> Inr ((if callback adfNode then [adfNode] else []) @ found)))"
| "filterContent depth callback [] = Inr []"
| "filterContent depth callback (c # cs) =
     (case filterNode depth callback c of
        Inl e \<Rightarrow> Inl e
      | Inr found \<Rightarrow>
          (case filterContent depth callback cs of
             Inl e \<Rightarrow> Inl e
           | Inr others \<Rightarrow> Inr (found @ others)))"

text \<open>The equations of the two traversals at a depth written as a numeral.\<close>

lemmas traverseNode_numeral =
  traverseNode.simps(2) [of "pred_numeral k" for k, folded numeral_eq_Suc]

lemmas filterNode_numeral =
  filterNode.simps(2) [of "pred_numeral k" for k, folded numeral_eq_Suc]

definition filter_adf :: "nat \<Rightarrow> adf \<Rightarrow> (adf \<Rightarrow> bool) \<Rightarrow> error + adf list" where
  "filter_adf depth adf callback = filterNode depth callback adf"

text \<open>
  The nesting depth of a document, and the visitors that keep a traversal within it:
  they never throw, never return \<^verbatim>\<open>false\<close>, and never return a node nested deeper
  than the one they were given.
\<close>

fun adf_height :: "adf \<Rightarrow> nat" where
  "adf_height (Node t a c m x) =
     (case c of None \<Rightarrow> 1 | Some cs \<Rightarrow> Suc (foldr max (map adf_height cs) 0))"

definition tame :: "visitors \<Rightarrow> bool" where
  "tame vs \<longleftrightarrow>
     (\<forall>t v n. visitor_for vs t = Some v \<longrightarrow>
        (\<exists>r. v n = Inr r \<and> r \<noteq> VFalse
           \<and> (\<forall>m. r = VNode m \<longrightarrow> adf_height m \<le> adf_height n)))"

text \<open>
  Places in a document: the node reached from a node by a path of child indices.
\<close>

fun node_at :: "adf \<Rightarrow> nat list \<Rightarrow> adf option" where
  "node_at n [] = Some n"
| "node_at n (i # p) =
     (case node_content n of
        None \<Rightarrow> None
      | Some cs \<Rightarrow> if i < length cs then node_at (cs ! i) p else None)"

text \<open>
  The node that stands after the visit of a node (\<^verbatim>\<open>newNode\<close> of the traversal), when
  the visitor returns a node or nothing.
\<close>

definition after_visit :: "visitors \<Rightarrow> adf \<Rightarrow> adf" where
  "after_visit vs n =
     (case visitor_for vs (node_type n) of
        None \<Rightarrow> n
      | Some v \<Rightarrow> (case v n of Inr (VNode m) \<Rightarrow> m | other \<Rightarrow> n))"

text \<open>
  Along a path, every node above its end keeps its content when it is visited: the
  traversal then goes on into the same children.
\<close>

fun content_kept_above :: "visitors \<Rightarrow> adf \<Rightarrow> nat list \<Rightarrow> bool" where
  "content_kept_above vs n [] = True"
| "content_kept_above vs n (i # p) =
     (node_content (after_visit vs n) = node_content n
      \<and> (case node_content n of
            None \<Rightarrow> False
          | Some cs \<Rightarrow> i < length cs \<and> content_kept_above vs (cs ! i) p))"

text \<open>Visitors none of which returns \<^verbatim>\<open>false\<close>.\<close>

definition never_false :: "visitors \<Rightarrow> bool" where
  "never_false vs \<longleftrightarrow> (\<forall>t v n. visitor_for vs t = Some v \<longrightarrow> v n \<noteq> Inr VFalse)"

subsection \<open>Attributes\<close>

text \<open>\<^verbatim>\<open>node?.attrs?.[k]\<close>.\<close>

definition attr :: "adf \<Rightarrow> string \<Rightarrow> jval option" where
  "attr n k = (case node_attrs n of None \<Rightarrow> None | Some a \<Rightarrow> map_of a k)"

text \<open>A value used as a property key: \<^verbatim>\<open>undefined\<close> names the key "undefined".\<close>

fun to_key :: "jval option \<Rightarrow> string" where
  "to_key None = ''undefined''"
| "to_key (Some (JStr s)) = s"
| "to_key (Some (JOther s)) = s"

text \<open>\<^verbatim>\<open>node?.content?.at(0)?.text\<close>.\<close>

definition first_text :: "adf \<Rightarrow> string option" where
  "first_text n =
     (case node_content n of
        None \<Rightarrow> None
      | Some [] \<Rightarrow> None
      | Some (c # cs) \<Rightarrow> node_text c)"

text \<open>
  What the platform and the libraries compute, taken as parameters: SparkMD5's digest
  of a text and of a buffer, \<^verbatim>\<open>JSON.stringify\<close> of the rewritten document
  (\<open>None\<close> is \<^verbatim>\<open>false\<close>), \<^verbatim>\<open>stringifyObject\<close> of a caught value, \<^verbatim>\<open>new URL(href)\<close>
  (\<open>None\<close> when it throws) with the two parts of the URL that are read, and the depth
  of the call stack.
\<close>

record url =
  url_pathname :: string
  url_hash :: string

record runtime =
  md5_text :: "string \<Rightarrow> string"
  md5_buffer :: "string \<Rightarrow> string"
  json_stringify :: "adf option \<Rightarrow> string"
  stringifyObject :: "error \<Rightarrow> string"
  parse_url :: "string \<Rightarrow> url option"
  stack_depth :: nat

record settings =
  confluenceBaseUrl :: string
  confluenceParentId :: string

section \<open>Link Resolver\<close>

text \<open>
  Modelled from the spec: \<^verbatim>\<open>Array.prototype.remove\<close>, which \<^verbatim>\<open>node.marks.remove(x)\<close>
  calls. It is not ECMAScript and not in Publisher.ts: the host application adds it to
  arrays. The spec has the link annotation stripped from the node: the element passed is
  deleted from the array.
\<close>

definition array_remove :: "'a \<Rightarrow> 'a list \<Rightarrow> 'a list" where
  "array_remove x xs = remove1 x xs"


text \<open>
  The \<^verbatim>\<open>text\<close> visitor of doPublish. It reads \<^verbatim>\<open>node.marks[0]\<close> only; on an empty
  array of marks that read is \<^verbatim>\<open>undefined\<close> and \<^verbatim>\<open>.type\<close> throws.
\<close>

definition wikilink_visitor :: "settings \<Rightarrow> runtime \<Rightarrow> (string \<rightharpoonup> AdfFile) \<Rightarrow> visitor" where
  "wikilink_visitor st rt fileToPageIdMap node =
     (case node_marks node of
        None \<Rightarrow> Inr VUndefined
      | Some [] \<Rightarrow> Inl (TypeError ''Cannot read properties of undefined (reading 'type')'')
      | Some (mark0 # marks) \<Rightarrow>
          (case mark_attrs mark0 of
             None \<Rightarrow> Inr VUndefined
           | Some mattrs \<Rightarrow>
               if mark_type mark0 \<noteq> ''link'' then Inr VUndefined
               else
                 (case map_of mattrs ''href'' of
                    Some (JStr href) \<Rightarrow>
                      if \<not> prefix ''wikilink'' href then Inr VUndefined
                      else
                        (case parse_url rt href of
                           None \<Rightarrow> Inl (TypeError ''Invalid URL'')
                         | Some wikilinkUrl \<Rightarrow>
                             (case fileToPageIdMap (url_pathname wikilinkUrl @ ''.md'') of
                                Some linkPage \<Rightarrow>
                                  (let confluenceUrl =
                                         confluenceBaseUrl st @ ''/wiki/spaces/''
                                         @ template (file_spaceKey linkPage) @ ''/pages/''
                                         @ template (file_pageId linkPage)
                                         @ url_hash wikilinkUrl
                                   in if node_text node = Some (url_pathname wikilinkUrl)
                                      then Inr (VNode (Node ''inlineCard''
                                             (Some [(''url'', JStr confluenceUrl)])
                                             (node_content node) None None))
                                      else Inr (VNode (Node (node_type node) (node_attrs node)
                                             (node_content node)
                                             (Some (Mark (mark_type mark0)
                                                (Some (AList.update ''href'' (JStr confluenceUrl)
                                                   mattrs)) # marks))
                                             (node_text node))))
                              | None \<Rightarrow>
                                  Inr (VNode (Node (node_type node) (node_attrs node)
                                         (node_content node)
                                         (Some (array_remove mark0 (mark0 # marks)))
                                         (node_text node)))))
                  | other \<Rightarrow> Inr VUndefined)))"

text \<open>The body of the second \<^verbatim>\<open>confluencePagesToPublish.forEach\<close>, for one document.\<close>

definition resolveLinks ::
  "settings \<Rightarrow> runtime \<Rightarrow> (string \<rightharpoonup> AdfFile) \<Rightarrow> adf \<Rightarrow> error + adf option" where
  "resolveLinks st rt fileToPageIdMap contents =
     traverse (stack_depth rt) contents [(''text'', wikilink_visitor st rt fileToPageIdMap)]"

section \<open>Media/Diagram Upload Pipeline\<close>

record UploadedImageData =
  img_filename :: "string option"
  img_id :: string
  img_collection :: string

text \<open>
  \<^verbatim>\<open>imageMap\<close>: a key is absent, or holds \<^verbatim>\<open>null\<close>, or holds the data of an upload.
  \<^verbatim>\<open>!imageMap[k]\<close> is true in the first two cases.
\<close>

type_synonym image_map = "string \<Rightarrow> UploadedImageData option option"

definition mapped :: "image_map \<Rightarrow> string \<Rightarrow> UploadedImageData option" where
  "mapped imageMap k = (case imageMap k of Some (Some d) \<Rightarrow> Some d | other \<Rightarrow> None)"

subsection \<open>getMermaidFileName\<close>

record mermaid_file =
  uploadFilename :: string
  mermaidText :: string

definition missing_chart :: string where
  "missing_chart = ''flowchart LR'' @ [CHR 0x0A] @ ''id1[Missing Chart]''"

definition getMermaidFileName :: "runtime \<Rightarrow> string option \<Rightarrow> mermaid_file" where
  "getMermaidFileName rt mermaidContent =
     (let text0 = (case mermaidContent of None \<Rightarrow> missing_chart | Some t \<Rightarrow> t);
          pathMd5 = md5_text rt text0
      in \<lparr> uploadFilename = ''RenderedMermaidChart-'' @ pathMd5 @ ''.png'',
           mermaidText = text0 \<rparr>)"

subsection \<open>The attachments of the page\<close>

record attachment_entry =
  filehash :: string
  attachmentId :: string
  collectionName :: string

type_synonym attachment_index = "string \<Rightarrow> attachment_entry option"

text \<open>The \<^verbatim>\<open>reduce\<close> over the attachment listing: a later title overrides.\<close>

definition currentAttachments_of :: "attachment list \<Rightarrow> attachment_index" where
  "currentAttachments_of results =
     foldl (\<lambda>prev curr. prev(att_title curr \<mapsto>
              \<lparr> filehash = att_comment curr,
                attachmentId = att_fileId curr,
                collectionName = att_collectionName curr \<rparr>))
       Map.empty results"

text \<open>
  The test both upload functions make: an attachment of that name is listed and its
  stored digest is the digest just computed.
\<close>

definition attached_unchanged :: "attachment_index \<Rightarrow> string \<Rightarrow> string \<Rightarrow> attachment_entry option" where
  "attached_unchanged currentAttachments uploadFilename0 currentFileMd5 =
     (case currentAttachments uploadFilename0 of
        None \<Rightarrow> None
      | Some e \<Rightarrow> if filehash e = currentFileMd5 then Some e else None)"

definition first_result :: "attachment_result list \<Rightarrow> error + attachment_result" where
  "first_result results =
     (case results of
        [] \<Rightarrow> Inl (TypeError ''Cannot read properties of undefined (reading 'extensions')'')
      | r # rs \<Rightarrow> Inr r)"

subsection \<open>uploadBuffer and uploadFile\<close>

definition uploadBuffer ::
  "env \<Rightarrow> runtime \<Rightarrow> string \<Rightarrow> string \<Rightarrow> string \<Rightarrow> attachment_index \<Rightarrow>
   UploadedImageData option io" where
  "uploadBuffer client rt pageId0 uploadFilename0 fileBuffer currentAttachments =
     (let currentFileMd5 = md5_buffer rt fileBuffer
      in case attached_unchanged currentAttachments uploadFilename0 currentFileMd5 of
           Some e \<Rightarrow>
             return (Some \<lparr> img_filename = Some uploadFilename0,
                            img_id = attachmentId e,
                            img_collection = collectionName e \<rparr>)
         | None \<Rightarrow>
             bind (perform
                     (CreateOrUpdateAttachments pageId0
                        \<lparr> au_file = fileBuffer, au_filename = uploadFilename0,
                          au_minorEdit = False, au_comment = currentFileMd5,
                          au_contentType = Some ''image/png'' \<rparr>)
                     (\<lambda>log. createOrUpdateAttachments client log pageId0
                        \<lparr> au_file = fileBuffer, au_filename = uploadFilename0,
                          au_minorEdit = False, au_comment = currentFileMd5,
                          au_contentType = Some ''image/png'' \<rparr>))
               (\<lambda>attachmentResponse.
                  bind (lift (first_result attachmentResponse))
                    (\<lambda>r. return (Some \<lparr> img_filename = Some uploadFilename0,
                                        img_id = ar_fileId r,
                                        img_collection = ''contentId-'' @ ar_containerId r \<rparr>))))"

definition uploadFile ::
  "env \<Rightarrow> runtime \<Rightarrow> string \<Rightarrow> string \<Rightarrow> string option \<Rightarrow> attachment_index \<Rightarrow>
   UploadedImageData option io" where
  "uploadFile client rt pageId0 pageFilePath fileNameToUpload currentAttachments =
     bind (perform (ReadBinary fileNameToUpload pageFilePath)
             (\<lambda>log. readBinary client log fileNameToUpload pageFilePath))
       (\<lambda>testing.
          case testing of
            None \<Rightarrow> return None
          | Some bin \<Rightarrow>
              (let currentFileMd5 = md5_buffer rt (bin_contents bin);
                   pathMd5 = md5_text rt (bin_filePath bin);
                   uploadFilename0 = pathMd5 @ ''-'' @ bin_filename bin
               in case attached_unchanged currentAttachments uploadFilename0 currentFileMd5 of
                    Some e \<Rightarrow>
                      return (Some \<lparr> img_filename = fileNameToUpload,
                                     img_id = attachmentId e,
                                     img_collection = collectionName e \<rparr>)
                  | None \<Rightarrow>
                      bind (perform
                              (CreateOrUpdateAttachments pageId0
                                 \<lparr> au_file = bin_contents bin, au_filename = uploadFilename0,
                                   au_minorEdit = False, au_comment = currentFileMd5,
                                   au_contentType = None \<rparr>)
                              (\<lambda>log. createOrUpdateAttachments client log pageId0
                                 \<lparr> au_file = bin_contents bin, au_filename = uploadFilename0,
                                   au_minorEdit = False, au_comment = currentFileMd5,
                                   au_contentType = None \<rparr>))
                        (\<lambda>attachmentResponse.
                           bind (lift (first_result attachmentResponse))
                             (\<lambda>r. return (Some \<lparr> img_filename = fileNameToUpload,
                                                 img_id = ar_fileId r,
                                                 img_collection =
                                                   ''contentId-'' @ ar_containerId r \<rparr>)))))"

subsection \<open>uploadFiles\<close>

text \<open>\<^verbatim>\<open>imageUrl.split("://")\<close>.\<close>

function split_scheme :: "string \<Rightarrow> string list" where
  "split_scheme s =
     (if take 3 s = ''://'' then [] # split_scheme (drop 3 s)
      else (case s of
              [] \<Rightarrow> [[]]
            | x # xs \<Rightarrow>
                (case split_scheme xs of
                   [] \<Rightarrow> [[x]]
                 | y # ys \<Rightarrow> (x # y) # ys)))"
  by pat_completeness auto
termination
proof (relation "measure length")
  show "wf (measure length)" by simp
next
  fix s :: string
  assume "take 3 s = ''://''"
  then have "s \<noteq> []" by auto
  then show "(drop 3 s, s) \<in> measure length" by simp
next
  fix s :: string and x xs
  assume "s = x # xs"
  then show "(xs, s) \<in> measure length" by simp
qed

declare split_scheme.simps [simp del]

text \<open>
  The values of \<^verbatim>\<open>new Set(xs)\<close> in iteration order: each value once, at the place
  of its first occurrence. Strings and \<^verbatim>\<open>undefined\<close> are compared by value.
\<close>

fun set_insert_all :: "'a list \<Rightarrow> 'a list \<Rightarrow> 'a list" where
  "set_insert_all seen [] = seen"
| "set_insert_all seen (x # xs) =
     set_insert_all (if x \<in> set seen then seen else seen @ [x]) xs"

definition set_values :: "'a list \<Rightarrow> 'a list" where
  "set_values xs = set_insert_all [] xs"

definition is_media :: "adf \<Rightarrow> bool" where
  "is_media node \<longleftrightarrow> node_type node = ''media'' \<and> attr node ''type'' = Some (JStr ''file'')"

definition is_mermaid :: "adf \<Rightarrow> bool" where
  "is_mermaid node \<longleftrightarrow>
     node_type node = ''codeBlock'' \<and> attr node ''language'' = Some (JStr ''mermaid'')"

text \<open>
  The array behind \<^verbatim>\<open>mermaidNodesToUpload\<close>. The Set is built from object literals
  created in the \<^verbatim>\<open>map\<close> callback; a Set compares objects by identity, and each
  literal is a new object, so the Set holds one entry for every mermaid node, in order.
\<close>

definition mermaidNodesToUpload :: "runtime \<Rightarrow> adf list \<Rightarrow> ChartData list" where
  "mermaidNodesToUpload rt mermaidNodes =
     map (\<lambda>node. let mermaidDetails = getMermaidFileName rt (first_text node)
                  in \<lparr> chart_name = uploadFilename mermaidDetails,
                       chart_data = mermaidText mermaidDetails \<rparr>)
       mermaidNodes"

text \<open>The loop over \<^verbatim>\<open>imagesToUpload\<close>; a value that is no string has no \<^verbatim>\<open>split\<close>.\<close>

fun uploadImages ::
  "env \<Rightarrow> runtime \<Rightarrow> string \<Rightarrow> string \<Rightarrow> attachment_index \<Rightarrow> jval option list \<Rightarrow>
   image_map \<Rightarrow> image_map io" where
  "uploadImages client rt pageId0 pageFilePath currentAttachments [] imageMap =
     return imageMap"
| "uploadImages client rt pageId0 pageFilePath currentAttachments (imageUrl # rest) imageMap =
     (case imageUrl of
        Some (JStr u) \<Rightarrow>
          bind (uploadFile client rt pageId0 pageFilePath (at_index (split_scheme u) 1)
                  currentAttachments)
            (\<lambda>uploadedContent.
               uploadImages client rt pageId0 pageFilePath currentAttachments rest
                 (imageMap(u := Some uploadedContent)))
      | other \<Rightarrow> throw (TypeError ''imageUrl.split is not a function''))"

text \<open>The loop over the pairs the renderer returned.\<close>

fun uploadCharts ::
  "env \<Rightarrow> runtime \<Rightarrow> string \<Rightarrow> attachment_index \<Rightarrow> (string \<times> string) list \<Rightarrow>
   image_map \<Rightarrow> image_map io" where
  "uploadCharts client rt pageId0 currentAttachments [] imageMap = return imageMap"
| "uploadCharts client rt pageId0 currentAttachments (mermaidImage # rest) imageMap =
     bind (uploadBuffer client rt pageId0 (fst mermaidImage) (snd mermaidImage)
             currentAttachments)
       (\<lambda>uploadedContent.
          uploadCharts client rt pageId0 currentAttachments rest
            (imageMap(fst mermaidImage := Some uploadedContent)))"

text \<open>The two visitors of the rewrite at the end of uploadFiles.\<close>

definition media_visitor :: "image_map \<Rightarrow> visitor" where
  "media_visitor imageMap node =
     (if attr node ''type'' = Some (JStr ''file'') then
        (case mapped imageMap (to_key (attr node ''url'')) of
           None \<Rightarrow> Inr VUndefined
         | Some mappedImage \<Rightarrow>
             Inr (VNode (Node (node_type node)
                    (map_option
                       (\<lambda>a. AList.delete ''url''
                          (AList.update ''id'' (JStr (img_id mappedImage))
                             (AList.update ''collection'' (JStr (img_collection mappedImage)) a)))
                       (node_attrs node))
                    (node_content node) (node_marks node) (node_text node))))
      else Inr VUndefined)"

definition codeBlock_visitor :: "runtime \<Rightarrow> image_map \<Rightarrow> visitor" where
  "codeBlock_visitor rt imageMap node =
     (if attr node ''language'' = Some (JStr ''mermaid'') then
        (let mermaidContent = first_text node
         in if \<not> truthy mermaidContent then Inr VUndefined
            else
              (let mermaidFilename = getMermaidFileName rt mermaidContent
               in case mapped imageMap (uploadFilename mermaidFilename) of
                    None \<Rightarrow> Inr VUndefined
                  | Some mappedImage \<Rightarrow>
                      Inr (VNode (Node ''mediaSingle''
                             (map_option
                                (\<lambda>a. AList.delete ''language''
                                   (AList.update ''layout'' (JStr ''center'') a))
                                (node_attrs node))
                             (case node_content node of
                                None \<Rightarrow> None
                              | Some cs \<Rightarrow>
                                  Some [Node ''media''
                                          (Some [(''type'', JStr ''file''),
                                                 (''collection'',
                                                    JStr (img_collection mappedImage)),
                                                 (''id'', JStr (img_id mappedImage))])
                                          None None None])
                             (node_marks node) (node_text node)))))
      else Inr VUndefined)"

definition rewrite_visitors :: "runtime \<Rightarrow> image_map \<Rightarrow> visitors" where
  "rewrite_visitors rt imageMap =
     [(''media'', media_visitor imageMap), (''codeBlock'', codeBlock_visitor rt imageMap)]"

text \<open>
  Two properties of a place in a document that the rewrite depends on. A node is plain
  when neither it nor any node below it is of type media or codeBlock: the rewrite has
  no visitor for any node of it. A place lies under a mermaid block when some node above
  it, on the path from the root, is a mermaid code block: when the rewrite converts
  that block it replaces the whole content of the block.
\<close>

fun plain :: "adf \<Rightarrow> bool" where
  "plain (Node t a c m x) =
     (t \<noteq> ''media'' \<and> t \<noteq> ''codeBlock''
      \<and> (case c of None \<Rightarrow> True | Some cs \<Rightarrow> list_all plain cs))"

definition plain_content :: "adf \<Rightarrow> bool" where
  "plain_content n = (case node_content n of None \<Rightarrow> True | Some cs \<Rightarrow> list_all plain cs)"

fun under_mermaid :: "adf \<Rightarrow> nat list \<Rightarrow> bool" where
  "under_mermaid n [] = False"
| "under_mermaid n (i # p) =
     (is_mermaid n
      \<or> (case node_content n of
            None \<Rightarrow> False
          | Some cs \<Rightarrow> i < length cs \<and> under_mermaid (cs ! i) p))"

text \<open>
  uploadFiles up to its last statement: the nodes are collected, the charts rendered,
  the attachments listed, the binaries and the images uploaded; the value is
  \<^verbatim>\<open>imageMap\<close> as it stands before the rewrite.
\<close>

definition uploadAssets :: "env \<Rightarrow> runtime \<Rightarrow> string \<Rightarrow> string \<Rightarrow> adf \<Rightarrow> image_map io" where
  "uploadAssets client rt pageId0 pageFilePath adr =
     bind (lift (filter_adf (stack_depth rt) adr is_media))
       (\<lambda>mediaNodes.
     bind (lift (filter_adf (stack_depth rt) adr is_mermaid))
       (\<lambda>mermaidNodes.
     bind (perform (CaptureMermaidCharts (mermaidNodesToUpload rt mermaidNodes))
             (\<lambda>log. captureMermaidCharts client log (mermaidNodesToUpload rt mermaidNodes)))
       (\<lambda>mermaidChartsAsImages.
     bind (perform (GetAttachments pageId0) (\<lambda>log. getAttachments client log pageId0))
       (\<lambda>currentUploadedAttachments.
     bind (uploadImages client rt pageId0 pageFilePath
             (currentAttachments_of currentUploadedAttachments)
             (set_values (map (\<lambda>node. attr node ''url'') mediaNodes))
             (\<lambda>k. None))
       (\<lambda>imageMap.
     uploadCharts client rt pageId0
       (currentAttachments_of currentUploadedAttachments)
       mermaidChartsAsImages imageMap)))))"

text \<open>uploadFiles: the assets, then the rewrite of the body with the final map.\<close>

definition uploadFiles :: "env \<Rightarrow> runtime \<Rightarrow> string \<Rightarrow> string \<Rightarrow> adf \<Rightarrow> adf option io" where
  "uploadFiles client rt pageId0 pageFilePath adr =
     bind (uploadAssets client rt pageId0 pageFilePath adr)
       (\<lambda>imageMap.
          lift (traverse (stack_depth rt) adr (rewrite_visitors rt imageMap)))"

section \<open>Page Content Synchronizer\<close>

text \<open>The loop over \<^verbatim>\<open>currentLabels.results\<close> of updatePageContent.\<close>

fun removeLabels :: "env \<Rightarrow> string \<Rightarrow> string list \<Rightarrow> remote_label list \<Rightarrow> unit io" where
  "removeLabels client pageId0 labels [] = return ()"
| "removeLabels client pageId0 labels (existingLabel # rest) =
     (if lbl_label existingLabel \<notin> set labels
      then bind (perform (RemoveLabelFromContent pageId0 (lbl_name existingLabel))
                   (\<lambda>log. removeLabelFromContent client log pageId0 (lbl_name existingLabel)))
             (\<lambda>u. removeLabels client pageId0 labels rest)
      else removeLabels client pageId0 labels rest)"

definition labelsToAdd :: "string list \<Rightarrow> remote_label list \<Rightarrow> new_label list" where
  "labelsToAdd labels results =
     map (\<lambda>newLabel. \<lparr> nl_prefix = ''global'', nl_name = newLabel \<rparr>)
       (filter (\<lambda>newLabel. \<not> list_ex (\<lambda>item. lbl_label item = newLabel) results) labels)"

text \<open>
  A version number is a JavaScript number: a double that holds an integer.
  \<^verbatim>\<open>pageVersionNumber + 1\<close> is the double nearest to the exact sum, the one with
  the even significand when two are equally near. Doubles of 53 significant bits are
  spaced \<open>double_unit\<close> apart; the sum is exact up to \<open>2^53\<close> and rounded beyond. The
  overflow to Infinity, beyond \<open>2^1024\<close>, is left out.
\<close>

function double_unit :: "nat \<Rightarrow> nat" where
  "double_unit n = (if n < 2 ^ 53 then 1 else 2 * double_unit (n div 2))"
  by pat_completeness auto
termination
  by (relation "measure id") auto

declare double_unit.simps [simp del]

definition double_round_nat :: "nat \<Rightarrow> nat" where
  "double_round_nat n =
     (let u = double_unit n; q = n div u; r = n mod u
      in if 2 * r < u then q * u
         else if u < 2 * r then (q + 1) * u
         else if even q then q * u else (q + 1) * u)"

definition double_round :: "int \<Rightarrow> int" where
  "double_round x =
     (if x < 0 then - int (double_round_nat (nat (- x))) else int (double_round_nat (nat x)))"

definition js_add :: "int \<Rightarrow> int \<Rightarrow> int" where
  "js_add a b = double_round (a + b)"

definition updateContentDetails ::
  "string \<Rightarrow> string \<Rightarrow> int \<Rightarrow> string \<Rightarrow> string \<Rightarrow> AdfFile \<Rightarrow> update_request" where
  "updateContentDetails pageId0 parentPageId pageVersionNumber pageTitle0 adr adfFile =
     \<lparr> up_id = pageId0,
       up_ancestors = (if file_dontChangeParentPageId adfFile then None
                       else Some [parentPageId]),
       up_version = js_add pageVersionNumber 1,
       up_title = pageTitle0,
       up_body = adr \<rparr>"

text \<open>
  updatePageContent returns \<^verbatim>\<open>true\<close> when the page is the same, and nothing after
  an update.
\<close>

definition updatePageContent ::
  "env \<Rightarrow> runtime \<Rightarrow> string \<Rightarrow> string \<Rightarrow> adf \<Rightarrow> string \<Rightarrow> int \<Rightarrow> string \<Rightarrow> string \<Rightarrow>
   string list \<Rightarrow> AdfFile \<Rightarrow> bool option io" where
  "updatePageContent client rt pageId0 originFileAbsoluteFilePath adf parentPageId
     pageVersionNumber pageTitle0 currentContents labels adfFile =
     bind (uploadFiles client rt pageId0 originFileAbsoluteFilePath adf)
       (\<lambda>updatedAdf.
          let adr = json_stringify rt updatedAdf
          in if currentContents = adr then return (Some True)
             else
               bind (perform
                       (UpdateContent (updateContentDetails pageId0 parentPageId
                          pageVersionNumber pageTitle0 adr adfFile))
                       (\<lambda>log. updateContent client log
                          (updateContentDetails pageId0 parentPageId
                             pageVersionNumber pageTitle0 adr adfFile)))
                 (\<lambda>u.
               bind (perform (GetLabelsForContent pageId0)
                       (\<lambda>log. getLabelsForContent client log pageId0))
                 (\<lambda>currentLabels.
               bind (removeLabels client pageId0 labels (la_results currentLabels))
                 (\<lambda>u'.
                    if length (labelsToAdd labels (la_results currentLabels)) > 0
                    then bind (perform
                                 (AddLabelsToContent pageId0
                                    (labelsToAdd labels (la_results currentLabels)))
                                 (\<lambda>log. addLabelsToContent client log pageId0
                                    (labelsToAdd labels (la_results currentLabels))))
                           (\<lambda>u''. return None)
                    else return None))))"

section \<open>Publishing the pages\<close>

record ConfluenceNode =
  cn_file :: AdfFile
  cn_version :: int
  cn_existingAdf :: string
  cn_parentPageId :: string

datatype ConfluenceTreeNode = ConfluenceTreeNode (ct_file: AdfFile) (ct_version: int)
  (ct_existingAdf: string) (ct_children: "ConfluenceTreeNode list")

record FilePublishResult =
  successfulUpload :: bool
  absoluteFilePath :: string
  reason :: "string option"

text \<open>The body of the \<^verbatim>\<open>try\<close> block of publishFile.\<close>

definition publishFile_try :: "env \<Rightarrow> runtime \<Rightarrow> ConfluenceNode \<Rightarrow> bool option io" where
  "publishFile_try client rt node =
     (case (if truthy (file_pageId (cn_file node)) then file_pageId (cn_file node) else None) of
        None \<Rightarrow> throw (Error ''Missing Page ID'')
      | Some pid \<Rightarrow>
          updatePageContent client rt pid (file_absoluteFilePath (cn_file node))
            (file_contents (cn_file node)) (cn_parentPageId node) (cn_version node)
            (file_pageTitle (cn_file node)) (cn_existingAdf node) (file_tags (cn_file node))
            (cn_file node))"

text \<open>publishFile: whatever the \<^verbatim>\<open>try\<close> block throws is caught.\<close>

definition publishFile :: "env \<Rightarrow> runtime \<Rightarrow> ConfluenceNode \<Rightarrow> FilePublishResult io" where
  "publishFile client rt node =
     (\<lambda>log. case publishFile_try client rt node log of
               (Inr r, log') \<Rightarrow>
                 (Inr \<lparr> successfulUpload = True,
                        absoluteFilePath = file_absoluteFilePath (cn_file node),
                        reason = None \<rparr>, log')
             | (Inl e, log') \<Rightarrow>
                 (Inr \<lparr> successfulUpload = False,
                        absoluteFilePath = file_absoluteFilePath (cn_file node),
                        reason = Some (stringifyObject rt e) \<rparr>, log'))"

text \<open>
  \<^verbatim>\<open>Promise.all(adrFileTasks)\<close>: one task for every page, each run to its end. The
  tasks are taken one after the other, in the order of the array.
\<close>

fun publishFiles :: "env \<Rightarrow> runtime \<Rightarrow> ConfluenceNode list \<Rightarrow> FilePublishResult list io" where
  "publishFiles client rt [] = return []"
| "publishFiles client rt (node # rest) =
     bind (publishFile client rt node)
       (\<lambda>element. bind (publishFiles client rt rest)
          (\<lambda>elements. return (element # elements)))"

record FailedFile =
  failed_fileName :: string
  failed_reason :: string

record UploadResults =
  successfulUploads :: nat
  errorMessage :: "string option"
  failedFiles :: "FailedFile list"

text \<open>The \<^verbatim>\<open>adrFiles.forEach\<close> that fills \<^verbatim>\<open>returnVal\<close>.\<close>

definition collectResults :: "FilePublishResult list \<Rightarrow> UploadResults" where
  "collectResults adrFiles =
     foldl (\<lambda>returnVal element.
              if successfulUpload element
              then returnVal \<lparr> successfulUploads := successfulUploads returnVal + 1 \<rparr>
              else returnVal \<lparr> failedFiles := failedFiles returnVal @
                     [\<lparr> failed_fileName = absoluteFilePath element,
                        failed_reason = (case reason element of
                                           None \<Rightarrow> ''No Reason Provided''
                                         | Some r \<Rightarrow> r) \<rparr>] \<rparr>)
       \<lparr> successfulUploads = 0, errorMessage = None, failedFiles = [] \<rparr>
       adrFiles"

subsection \<open>The page tree\<close>

fun flattenTree :: "ConfluenceTreeNode \<Rightarrow> string option \<Rightarrow> ConfluenceNode list" where
  "flattenTree (ConfluenceTreeNode f v e cs) parentPageId =
     (case (if truthy parentPageId then parentPageId else None) of
        None \<Rightarrow> []
      | Some p \<Rightarrow> [\<lparr> cn_file = f, cn_version = v, cn_existingAdf = e, cn_parentPageId = p \<rparr>])
     @ concat (map (\<lambda>child. flattenTree child (file_pageId f)) cs)"

text \<open>
  \<^verbatim>\<open>Promise.all\<close> over tasks that have all been started, as \<^verbatim>\<open>children.map\<close>
  starts one for every child before any is awaited: every task runs to its end, whether
  or not another one is rejected, and the calls of all of them are made. The value is
  the array of their values, or a rejection if a task was rejected. The tasks are taken
  in the order of the array, and of several rejections the first in the array is the one
  reported (JavaScript reports the earliest in time).
\<close>

definition all_cons :: "'a io \<Rightarrow> 'a list io \<Rightarrow> 'a list io" where
  "all_cons task tasks =
     (\<lambda>log. case task log of
               (r, log1) \<Rightarrow>
                 (case tasks log1 of
                    (rs, log2) \<Rightarrow>
                      ((case r of
                          Inl e \<Rightarrow> Inl e
                        | Inr x \<Rightarrow> (case rs of Inl e \<Rightarrow> Inl e | Inr xs \<Rightarrow> Inr (x # xs))),
                       log2)))"

text \<open>createFileStructureInConfluence, and the tasks of the children of a node.\<close>

fun createFileStructureInConfluence ::
    "env \<Rightarrow> string \<Rightarrow> TreeNode \<Rightarrow> string \<Rightarrow> string \<Rightarrow> string \<Rightarrow> bool \<Rightarrow> ConfluenceTreeNode io"
  and createChildStructures ::
    "env \<Rightarrow> string \<Rightarrow> TreeNode list \<Rightarrow> string \<Rightarrow> string \<Rightarrow> string \<Rightarrow>
     ConfluenceTreeNode list io" where
  "createFileStructureInConfluence client blankPageAdf (TreeNode nm kids fopt) spaceKey0
     parentPageId topPageId createPage =
     (case fopt of
        None \<Rightarrow> throw (Error ''Missing file on node'')
      | Some f \<Rightarrow>
          bind (if createPage
                then bind (ensurePageExists client blankPageAdf f spaceKey0 parentPageId
                             topPageId)
                       (\<lambda>pageDetails.
                          return (f \<lparr> file_pageId := Some (pd_id pageDetails),
                                      file_spaceKey := Some (pd_spaceKey pageDetails) \<rparr>,
                                  pd_version pageDetails, pd_existingAdf pageDetails))
                else return (f \<lparr> file_pageId := Some parentPageId,
                                 file_spaceKey := Some spaceKey0 \<rparr>, 0, Some []))
            (\<lambda>(f', version, existingAdf).
               case file_pageId f' of
                 None \<Rightarrow> throw (Error ''Missing myPageId'')
               | Some nonNullMyPageId \<Rightarrow>
                   bind (createChildStructures client blankPageAdf kids spaceKey0
                           nonNullMyPageId topPageId)
                     (\<lambda>childDetails.
                        return (ConfluenceTreeNode f' version
                                  (case existingAdf of None \<Rightarrow> [] | Some s \<Rightarrow> s)
                                  childDetails))))"
| "createChildStructures client blankPageAdf [] spaceKey0 parentPageId topPageId = return []"
| "createChildStructures client blankPageAdf (childNode # rest) spaceKey0 parentPageId
     topPageId =
     all_cons
       (createFileStructureInConfluence client blankPageAdf childNode spaceKey0
          parentPageId topPageId True)
       (createChildStructures client blankPageAdf rest spaceKey0 parentPageId topPageId)"

subsection \<open>doPublish\<close>

text \<open>The first \<^verbatim>\<open>confluencePagesToPublish.forEach\<close>.\<close>

fun fileToPageIdMap_of ::
  "ConfluenceNode list \<Rightarrow> (string \<rightharpoonup> AdfFile) \<Rightarrow> error + (string \<rightharpoonup> AdfFile)" where
  "fileToPageIdMap_of [] m = Inr m"
| "fileToPageIdMap_of (node # rest) m =
     (if \<not> truthy (file_pageId (cn_file node)) then Inl (Error ''Missing Page ID'')
      else fileToPageIdMap_of rest (m(file_fileName (cn_file node) \<mapsto> cn_file node)))"

text \<open>
  The second \<^verbatim>\<open>forEach\<close>: the contents of every page are replaced by their traversal.
  The text visitor never returns \<^verbatim>\<open>false\<close> and only text nodes are visited, so a
  document is never removed as a whole; the case is kept for totality.
\<close>

fun resolveAllLinks ::
  "settings \<Rightarrow> runtime \<Rightarrow> (string \<rightharpoonup> AdfFile) \<Rightarrow> ConfluenceNode list \<Rightarrow>
   error + ConfluenceNode list" where
  "resolveAllLinks st rt m [] = Inr []"
| "resolveAllLinks st rt m (node # rest) =
     (case resolveLinks st rt m (file_contents (cn_file node)) of
        Inl e \<Rightarrow> Inl e
      | Inr r \<Rightarrow>
          (case resolveAllLinks st rt m rest of
             Inl e \<Rightarrow> Inl e
           | Inr rest' \<Rightarrow>
               Inr (node \<lparr> cn_file := (cn_file node)
                      \<lparr> file_contents := (case r of None \<Rightarrow> file_contents (cn_file node)
                                            | Some c \<Rightarrow> c) \<rparr> \<rparr> # rest')))"

definition doPublish ::
  "env \<Rightarrow> path_module \<Rightarrow> (MarkdownFile \<Rightarrow> error + AdfFile) \<Rightarrow> adf \<Rightarrow> settings \<Rightarrow> runtime \<Rightarrow>
   string \<Rightarrow> string option \<Rightarrow> UploadResults io" where
  "doPublish client pm convert folderFile st rt blankPageAdf publishFilter =
     bind (perform (GetContentById (confluenceParentId st))
             (\<lambda>log. getContentById client log (confluenceParentId st)))
       (\<lambda>parentPage.
          case page_space parentPage of
            None \<Rightarrow> throw (Error ''Missing Space Key'')
          | Some spaceToPublishTo \<Rightarrow>
     bind (perform GetMarkdownFilesToUpload (\<lambda>log. getMarkdownFilesToUpload client log))
       (\<lambda>files.
     bind (lift (createFolderStructure pm convert folderFile files))
       (\<lambda>folderTree.
     bind (createFileStructureInConfluence client blankPageAdf folderTree spaceToPublishTo
             (page_id parentPage) (page_id parentPage) False)
       (\<lambda>confluencePageTree.
     bind (lift (fileToPageIdMap_of (flattenTree confluencePageTree None) Map.empty))
       (\<lambda>fileToPageIdMap.
     bind (lift (resolveAllLinks st rt fileToPageIdMap (flattenTree confluencePageTree None)))
       (\<lambda>confluencePagesToPublish.
     bind (publishFiles client rt
             (if truthy publishFilter
              then filter (\<lambda>n. Some (file_absoluteFilePath (cn_file n)) = publishFilter)
                     confluencePagesToPublish
              else confluencePagesToPublish))
       (\<lambda>adrFiles. return (collectResults adrFiles))))))))"

section \<open>Kinds of calls\<close>

text \<open>The calls of the upload pipeline, and the calls that synchronise a page.\<close>

fun is_upload_call :: "call \<Rightarrow> bool" where
  "is_upload_call (CaptureMermaidCharts cs) = True"
| "is_upload_call (GetAttachments i) = True"
| "is_upload_call (ReadBinary n p) = True"
| "is_upload_call (CreateOrUpdateAttachments i a) = True"
| "is_upload_call c = False"

fun is_update_call :: "call \<Rightarrow> bool" where
  "is_update_call (UpdateContent r) = True"
| "is_update_call c = False"

fun is_sync_call :: "call \<Rightarrow> bool" where
  "is_sync_call (UpdateContent r) = True"
| "is_sync_call (GetLabelsForContent i) = True"
| "is_sync_call (RemoveLabelFromContent i n) = True"
| "is_sync_call (AddLabelsToContent i ls) = True"
| "is_sync_call c = False"

text \<open>
  A page is unchanged when, whatever calls came before, the body the upload pipeline
  returns for it serialises to the remote body that was fetched for it.
\<close>

definition body_unchanged :: "env \<Rightarrow> runtime \<Rightarrow> ConfluenceNode \<Rightarrow> bool" where
  "body_unchanged client rt node \<longleftrightarrow>
     (\<forall>pid log updatedAdf.
        file_pageId (cn_file node) = Some pid \<longrightarrow>
        fst (uploadFiles client rt pid (file_absoluteFilePath (cn_file node))
               (file_contents (cn_file node)) log) = Inr updatedAdf \<longrightarrow>
        json_stringify rt updatedAdf = cn_existingAdf node)"


section \<open>Concrete inputs\<close>

text \<open>
  Closed inputs for the examples that follow the theorems: a POSIX path module cut down
  to what the examples call, a converter that always succeeds, and a source document
  given by its path and file name.
\<close>

definition example_doc :: adf where
  "example_doc = Node ''doc'' None (Some []) None None"

definition example_paths :: path_module where
  "example_paths =
     \<lparr> path_sep = CHR ''/'',
       path_relative = (\<lambda>from to. drop (Suc (length from)) to),
       path_join = (\<lambda>a b. a @ ''/'' @ b),
       path_parse_name = (\<lambda>p. takeWhile (\<lambda>c. c \<noteq> CHR ''.'') p) \<rparr>"

definition example_md :: "string \<Rightarrow> string \<Rightarrow> MarkdownFile" where
  "example_md p n =
     \<lparr> md_folderName = [], md_absoluteFilePath = p, md_fileName = n, md_contents = [],
       md_pageTitle = n, md_frontmatter = [] \<rparr>"

definition example_convert :: "MarkdownFile \<Rightarrow> error + AdfFile" where
  "example_convert m =
     Inr \<lparr> file_folderName = md_folderName m,
           file_absoluteFilePath = md_absoluteFilePath m,
           file_fileName = md_fileName m,
           file_contents = example_doc,
           file_pageTitle = md_pageTitle m,
           file_frontmatter = md_frontmatter m,
           file_tags = [],
           file_pageId = None,
           file_dontChangeParentPageId = False,
           file_spaceKey = None \<rparr>"

text \<open>
  A remote wiki, adaptor and renderer that answer every call: no title matches, every
  page is in space SP, nothing is attached or labelled, no binary is readable, and each
  chart renders to the bytes \<open>png\<close>.
\<close>

definition example_page :: "string \<Rightarrow> string list \<Rightarrow> content_page" where
  "example_page i ancestors =
     \<lparr> page_id = i, page_space = Some ''SP'', page_version = Some 1,
       page_body = None, page_ancestors = Some ancestors \<rparr>"

definition example_client :: env where
  "example_client =
     \<lparr> getContentById = (\<lambda>log i. Inr (example_page i [])),
       getContent = (\<lambda>log s t. Inr \<lparr> ca_size = 0, ca_results = [] \<rparr>),
       createContent = (\<lambda>log r. Inr (example_page ''100'' (cr_ancestors r))),
       updateContent = (\<lambda>log r. Inr ()),
       getLabelsForContent = (\<lambda>log i. Inr \<lparr> la_size = 0, la_results = [] \<rparr>),
       removeLabelFromContent = (\<lambda>log i n. Inr ()),
       addLabelsToContent = (\<lambda>log i ls. Inr ()),
       getAttachments = (\<lambda>log i. Inr []),
       createOrUpdateAttachments =
         (\<lambda>log i a. Inr [\<lparr> ar_fileId = ''file-'' @ au_filename a, ar_containerId = i \<rparr>]),
       updateMarkdownPageId = (\<lambda>log p i. Inr ()),
       readBinary = (\<lambda>log n p. Inr None),
       captureMermaidCharts = (\<lambda>log charts. Inr (map (\<lambda>c. (chart_name c, ''png'')) charts)),
       getMarkdownFilesToUpload = (\<lambda>log. Inr []) \<rparr>"

definition example_file :: "string \<Rightarrow> adf \<Rightarrow> AdfFile" where
  "example_file title body =
     \<lparr> file_folderName = [],
       file_absoluteFilePath = ''/v/'' @ title @ ''.md'',
       file_fileName = title @ ''.md'',
       file_contents = body,
       file_pageTitle = title,
       file_frontmatter = [],
       file_tags = [],
       file_pageId = None,
       file_dontChangeParentPageId = False,
       file_spaceKey = None \<rparr>"

text \<open>
  A runtime for the examples: digests and serialisations that only mark their argument,
  a URL parser for \<open>wikilink:path#fragment\<close>, and a stack of 100 calls.
\<close>

definition example_runtime :: runtime where
  "example_runtime =
     \<lparr> md5_text = (\<lambda>s. ''md5-'' @ s),
       md5_buffer = (\<lambda>s. ''md5-'' @ s),
       json_stringify = (\<lambda>d. case d of None \<Rightarrow> ''false'' | Some n \<Rightarrow> ''json-'' @ node_type n),
       stringifyObject = (\<lambda>e. case e of Error m \<Rightarrow> m | TypeError m \<Rightarrow> m
                                 | RangeError m \<Rightarrow> m | Thrown m \<Rightarrow> m),
       parse_url = (\<lambda>h. Some \<lparr> url_pathname = takeWhile (\<lambda>c. c \<noteq> CHR 0x23) (drop 9 h),
                                 url_hash = dropWhile (\<lambda>c. c \<noteq> CHR 0x23) (drop 9 h) \<rparr>),
       stack_depth = 100 \<rparr>"

definition example_settings :: settings where
  "example_settings = \<lparr> confluenceBaseUrl = ''https://wiki'', confluenceParentId = ''9'' \<rparr>"



text \<open>Document nodes for the examples of the upload pipeline.\<close>

definition example_media :: "string \<Rightarrow> adf" where
  "example_media u =
     Node ''media'' (Some [(''type'', JStr ''file''), (''url'', JStr u)]) None None None"

definition example_mermaid :: "adf list \<Rightarrow> adf" where
  "example_mermaid content =
     Node ''codeBlock'' (Some [(''language'', JStr ''mermaid'')]) (Some content) None None"

definition example_body :: "adf list \<Rightarrow> adf" where
  "example_body content = Node ''doc'' None (Some content) None None"


text \<open>
  A vault of three documents in the folder \<open>/v\<close>, and a remote wiki that gives every
  new page the identifier \<open>id-\<close> followed by its title, rejects the listing of the
  attachments of the page of \<open>b.md\<close>, and rejects the update of the page of \<open>c.md\<close>.
\<close>

definition example_files :: "MarkdownFile list" where
  "example_files =
     [example_md ''/v/a.md'' ''a.md'', example_md ''/v/b.md'' ''b.md'',
      example_md ''/v/c.md'' ''c.md'']"

definition example_failing_client :: env where
  "example_failing_client =
     example_client
       \<lparr> createContent := (\<lambda>log r. Inr (example_page (''id-'' @ cr_title r) (cr_ancestors r))),
         updateContent := (\<lambda>log r. if up_id r = ''id-c.md'' then Inl (Error ''conflict'')
                                      else Inr ()),
         getAttachments := (\<lambda>log i. if i = ''id-b.md''
                                       then Inl (Error ''attachments unavailable'')
                                       else Inr []),
         getMarkdownFilesToUpload := (\<lambda>log. Inr example_files) \<rparr>"

text \<open>The document that \<open>example_convert\<close> makes of \<open>example_md p n\<close>, with a page.\<close>

definition example_published :: "string \<Rightarrow> string \<Rightarrow> string \<Rightarrow> AdfFile" where
  "example_published p n i =
     \<lparr> file_folderName = [],
       file_absoluteFilePath = p,
       file_fileName = n,
       file_contents = example_doc,
       file_pageTitle = n,
       file_frontmatter = [],
       file_tags = [],
       file_pageId = Some i,
       file_dontChangeParentPageId = False,
       file_spaceKey = Some ''SP'' \<rparr>"

definition example_pages :: "ConfluenceNode list" where
  "example_pages =
     [\<lparr> cn_file = example_published ''/v/a.md'' ''a.md'' ''id-a.md'', cn_version = 1,
        cn_existingAdf = [], cn_parentPageId = ''9'' \<rparr>,
      \<lparr> cn_file = example_published ''/v/b.md'' ''b.md'' ''id-b.md'', cn_version = 1,
        cn_existingAdf = [], cn_parentPageId = ''9'' \<rparr>,
      \<lparr> cn_file = example_published ''/v/c.md'' ''c.md'' ''id-c.md'', cn_version = 1,
        cn_existingAdf = [], cn_parentPageId = ''9'' \<rparr>]"

section \<open>Theorems\<close>

subsection \<open>Awaited computations that return\<close>

lemma bind_InrE:
  assumes "bind m f log = (Inr y, log')"
  obtains x log1 where "m log = (Inr x, log1)" and "f x log1 = (Inr y, log')"
  using assms by (auto simp: bind_def split: prod.splits sum.splits)

lemma lift_InrD: "lift r log = (Inr x, log') \<Longrightarrow> r = Inr x \<and> log' = log"
  by (simp add: lift_def)

lemma perform_InrD:
  "perform c answer log = (Inr x, log') \<Longrightarrow> answer log = Inr x \<and> log' = log @ [c]"
  by (simp add: perform_def)

lemma return_InrD: "return v log = (Inr x, log') \<Longrightarrow> x = v \<and> log' = log"
  by (auto simp: return_def)
subsection \<open>The common path\<close>

lemma common_loop_lcp:
  "i \<le> length c \<Longrightarrow> take i c = take i p \<Longrightarrow> i \<le> length p \<Longrightarrow>
   common_loop c p i = take i c @ longest_common_prefix (drop i c) (drop i p)"
proof (induction c p i rule: common_loop.induct)
  case (1 c p i)
  show ?case
  proof (cases "i < length c")
    case False
    with "1.prems" show ?thesis by (subst common_loop.simps) simp
  next
    case True
    note ic = True
    show ?thesis
    proof (cases "at_index p i = Some (c ! i)")
      case False
      have "longest_common_prefix (drop i c) (drop i p) = []"
      proof (cases "i < length p")
        case True
        with False ic have "p ! i \<noteq> c ! i" by (auto simp: at_index_def)
        with True ic show ?thesis
          by (simp add: Cons_nth_drop_Suc [symmetric])
      next
        case False
        then show ?thesis by simp
      qed
      with False ic show ?thesis by (subst common_loop.simps) simp
    next
      case True
      then have ip: "i < length p" and eq: "p ! i = c ! i"
        by (auto simp: at_index_def split: if_splits)
      have tk: "take (Suc i) c = take (Suc i) p"
        using "1.prems" ic ip eq by (simp add: take_Suc_conv_app_nth)
      have "common_loop c p (Suc i) =
            take (Suc i) c @ longest_common_prefix (drop (Suc i) c) (drop (Suc i) p)"
        using "1.IH" [OF ic _ _ tk] True ic ip by simp
      moreover have "longest_common_prefix (drop i c) (drop i p) =
            c ! i # longest_common_prefix (drop (Suc i) c) (drop (Suc i) p)"
        using ic ip eq by (simp add: Cons_nth_drop_Suc [symmetric])
      ultimately show ?thesis
        using True ic by (subst common_loop.simps) (simp add: take_Suc_conv_app_nth)
    qed
  qed
qed

lemma common_loop_0: "common_loop c p 0 = longest_common_prefix c p"
  using common_loop_lcp [of 0 c p] by simp

lemma fold_lcp_prefix_acc:
  "prefix (foldl (\<lambda>common filePath. common_loop common (split_sep sep filePath) 0) acc rest) acc"
proof (induction rest arbitrary: acc)
  case Nil
  then show ?case by simp
next
  case (Cons p rest)
  have a: "prefix (longest_common_prefix acc (split_sep sep p)) acc"
    by (rule longest_common_prefix_prefix1)
  have b: "prefix (foldl (\<lambda>common filePath. common_loop common (split_sep sep filePath) 0)
             (longest_common_prefix acc (split_sep sep p)) rest)
             (longest_common_prefix acc (split_sep sep p))"
    by (rule Cons.IH)
  from b a have "prefix (foldl (\<lambda>common filePath. common_loop common (split_sep sep filePath) 0)
             (longest_common_prefix acc (split_sep sep p)) rest) acc"
    by (rule prefix_order.trans)
  then show ?case by (simp add: common_loop_0)
qed

lemma fold_lcp_prefix_each:
  "p \<in> set rest \<Longrightarrow>
   prefix (foldl (\<lambda>common filePath. common_loop common (split_sep sep filePath) 0) acc rest)
     (split_sep sep p)"
proof (induction rest arbitrary: acc)
  case Nil
  then show ?case by simp
next
  case (Cons r rest)
  show ?case
  proof (cases "p = r")
    case True
    have a: "prefix (foldl (\<lambda>common filePath. common_loop common (split_sep sep filePath) 0)
            (longest_common_prefix acc (split_sep sep r)) rest)
            (longest_common_prefix acc (split_sep sep r))"
      by (rule fold_lcp_prefix_acc)
    have b: "prefix (longest_common_prefix acc (split_sep sep r)) (split_sep sep r)"
      by (rule longest_common_prefix_prefix2)
    from a b have "prefix (foldl (\<lambda>common filePath. common_loop common (split_sep sep filePath) 0)
            (longest_common_prefix acc (split_sep sep r)) rest) (split_sep sep r)"
      by (rule prefix_order.trans)
    then show ?thesis
      using True by (simp add: common_loop_0)
  next
    case False
    with Cons.prems have "p \<in> set rest" by simp
    from Cons.IH [OF this] show ?thesis by (simp add: common_loop_0)
  qed
qed

lemma fold_lcp_greatest:
  "prefix q acc \<Longrightarrow> (\<And>p. p \<in> set rest \<Longrightarrow> prefix q (split_sep sep p)) \<Longrightarrow>
   prefix q (foldl (\<lambda>common filePath. common_loop common (split_sep sep filePath) 0) acc rest)"
proof (induction rest arbitrary: acc)
  case Nil
  then show ?case by simp
next
  case (Cons r rest)
  have "prefix q (longest_common_prefix acc (split_sep sep r))"
    using Cons.prems by (simp add: longest_common_prefix_max_prefix)
  from Cons.IH [OF this] Cons.prems(2) show ?case
    by (simp add: common_loop_0)
qed

text \<open>
  C3, as the code has it. For a first path and any further paths, findCommonPath returns
  the joined components \<open>commonPathParts\<close>; these are a prefix of the components of every
  path, and every component list that is a prefix of them all is a prefix of these: the
  longest path prefix shared by all paths under componentwise comparison. For a single
  document the result is that document's own path, all of its components, not its parent
  directory.
\<close>

theorem findCommonPath_longest_shared_prefix:
  "findCommonPath sep (firstPath # rest) =
     Inr (join_sep sep (commonPathParts sep firstPath rest))
   \<and> (\<forall>p \<in> set (firstPath # rest).
        prefix (commonPathParts sep firstPath rest) (split_sep sep p))
   \<and> (\<forall>q. (\<forall>p \<in> set (firstPath # rest). prefix q (split_sep sep p))
        \<longrightarrow> prefix q (commonPathParts sep firstPath rest))
   \<and> findCommonPath sep [firstPath] = Inr firstPath"
proof -
  have a1: "prefix (commonPathParts sep firstPath rest) (split_sep sep firstPath)"
    unfolding commonPathParts_def by (rule fold_lcp_prefix_acc)
  have a2: "\<And>p. p \<in> set rest \<Longrightarrow> prefix (commonPathParts sep firstPath rest) (split_sep sep p)"
    unfolding commonPathParts_def by (rule fold_lcp_prefix_each)
  have b: "\<And>q. (\<forall>p \<in> set (firstPath # rest). prefix q (split_sep sep p))
        \<Longrightarrow> prefix q (commonPathParts sep firstPath rest)"
    unfolding commonPathParts_def by (rule fold_lcp_greatest) simp_all
  have c: "findCommonPath sep [firstPath] = Inr firstPath"
    by (simp add: commonPathParts_def join_split_sep)
  from a1 a2 b c show ?thesis by simp
qed

theorem findCommonPath_longest_shared_prefix_witness:
  "findCommonPath CHR ''/'' [''/a/b/c.md'', ''/a/d.md''] = Inr ''/a''
   \<and> prefix [[], ''a''] (commonPathParts CHR ''/'' ''/a/b/c.md'' [''/a/d.md''])
   \<and> prefix (commonPathParts CHR ''/'' ''/a/b/c.md'' [''/a/d.md'']) (split_sep CHR ''/'' ''/a/d.md'')"
proof -
  have e: "commonPathParts CHR ''/'' ''/a/b/c.md'' [''/a/d.md''] = [[], ''a'']"
    by (simp add: commonPathParts_def common_loop_0)
  show ?thesis
    using findCommonPath_longest_shared_prefix [of "CHR ''/''" "''/a/b/c.md''" "[''/a/d.md'']"]
    by (simp add: e)
qed

theorem findCommonPath_single_counterexample:
  "findCommonPath CHR ''/'' [''/a/b/c.md''] = Inr ''/a/b/c.md''
   \<and> spec_parent_directory CHR ''/'' ''/a/b/c.md'' = ''/a/b''
   \<and> findCommonPath CHR ''/'' [''/a/b/c.md''] \<noteq>
       Inr (spec_parent_directory CHR ''/'' ''/a/b/c.md'')"
  by (simp add: commonPathParts_def spec_parent_directory_def join_split_sep)

subsection \<open>Unique file names\<close>

lemma addFileToTree_collision:
  "md_fileName f \<in> names \<Longrightarrow>
   addFileToTree sep conv node f rp names = Inl (Error (not_unique_message (md_fileName f)))"
proof (induction sep conv node f rp names rule: addFileToTree.induct)
  case (1 sep conv node f rp names)
  show ?case
    using 1 split_sep_not_Nil [of sep rp]
    by (subst addFileToTree.simps) (auto split: list.splits option.splits sum.splits)
qed

lemma addFileToTree_convert_fails:
  "md_fileName f \<notin> names \<Longrightarrow> conv f = Inl e \<Longrightarrow>
   addFileToTree sep conv node f rp names = Inl e"
proof (induction sep conv node f rp names rule: addFileToTree.induct)
  case (1 sep conv node f rp names)
  show ?case
    using 1 split_sep_not_Nil [of sep rp]
    by (subst addFileToTree.simps) (auto split: list.splits option.splits sum.splits)
qed

lemma addFileToTree_adds:
  "md_fileName f \<notin> names \<Longrightarrow> conv f = Inr a \<Longrightarrow>
   \<exists>t. addFileToTree sep conv node f rp names = Inr (t, insert (md_fileName f) names)"
proof (induction sep conv node f rp names rule: addFileToTree.induct)
  case (1 sep conv node f rp names)
  obtain folder remaining where sp: "split_sep sep rp = folder # remaining"
    using split_sep_not_Nil [of sep rp] by (cases "split_sep sep rp") auto
  show ?case
  proof (cases "remaining = []")
    case True
    with sp "1.prems" show ?thesis
      by (subst addFileToTree.simps) simp
  next
    case False
    note more = False
    show ?thesis
    proof (cases "find (\<lambda>n. name n = folder) (children node)")
      case None
      have "\<exists>t. addFileToTree sep conv (createTreeNode folder) f (join_sep sep remaining) names
              = Inr (t, insert (md_fileName f) names)"
        using "1.IH"(1) [OF sp _ None] more "1.prems" by simp
      then show ?thesis
        using sp more None by (subst addFileToTree.simps) auto
    next
      case (Some child)
      have "\<exists>t. addFileToTree sep conv child f (join_sep sep remaining) names
              = Inr (t, insert (md_fileName f) names)"
        using "1.IH"(2) [OF sp _ Some] more "1.prems" by simp
      then show ?thesis
        using sp more Some by (subst addFileToTree.simps) auto
    qed
  qed
qed

lemma addFiles_collision:
  "\<not> distinct (map md_fileName files) \<or> (\<exists>g \<in> set files. md_fileName g \<in> names) \<Longrightarrow>
   \<exists>e. addFiles pm conv cp files (root, names) = Inl e"
proof (induction files arbitrary: root names)
  case Nil
  then show ?case by simp
next
  case (Cons f rest)
  show ?case
  proof (cases "md_fileName f \<in> names")
    case True
    then show ?thesis by (simp add: addFileToTree_collision)
  next
    case False
    note fresh = False
    show ?thesis
    proof (cases "conv f")
      case (Inl e)
      with fresh show ?thesis by (simp add: addFileToTree_convert_fails)
    next
      case (Inr a)
      have "\<exists>t. addFileToTree (path_sep pm) conv root f
          (path_relative pm cp (md_absoluteFilePath f)) names
          = Inr (t, insert (md_fileName f) names)"
        using fresh Inr by (rule addFileToTree_adds)
      then obtain t where t: "addFileToTree (path_sep pm) conv root f
          (path_relative pm cp (md_absoluteFilePath f)) names
          = Inr (t, insert (md_fileName f) names)"
        by blast
      have "\<not> distinct (map md_fileName rest)
          \<or> (\<exists>g \<in> set rest. md_fileName g \<in> insert (md_fileName f) names)"
        using Cons.prems fresh by auto
      from Cons.IH [OF this] show ?thesis by (simp add: t)
    qed
  qed
qed

lemma addFiles_first_collision:
  "distinct (map md_fileName pre) \<Longrightarrow> \<forall>g \<in> set pre. md_fileName g \<notin> names \<Longrightarrow>
   \<forall>g \<in> set pre. \<exists>a. conv g = Inr a \<Longrightarrow>
   md_fileName f \<in> names \<union> set (map md_fileName pre) \<Longrightarrow>
   addFiles pm conv cp (pre @ f # post) (root, names)
     = Inl (Error (not_unique_message (md_fileName f)))"
proof (induction pre arbitrary: root names)
  case Nil
  then show ?case by (simp add: addFileToTree_collision)
next
  case (Cons g pre)
  from Cons.prems obtain a where a: "conv g = Inr a" by auto
  have fresh: "md_fileName g \<notin> names" using Cons.prems by simp
  have "\<exists>t. addFileToTree (path_sep pm) conv root g
      (path_relative pm cp (md_absoluteFilePath g)) names
      = Inr (t, insert (md_fileName g) names)"
    using fresh a by (rule addFileToTree_adds)
  then obtain t where t: "addFileToTree (path_sep pm) conv root g
      (path_relative pm cp (md_absoluteFilePath g)) names
      = Inr (t, insert (md_fileName g) names)"
    by blast
  have d: "distinct (map md_fileName pre)" using Cons.prems(1) by simp
  have g_new: "md_fileName g \<notin> set (map md_fileName pre)" using Cons.prems(1) by simp
  have n: "\<forall>h \<in> set pre. md_fileName h \<notin> insert (md_fileName g) names"
  proof
    fix h assume h: "h \<in> set pre"
    then have "md_fileName h \<in> set (map md_fileName pre)" by simp
    with g_new have "md_fileName h \<noteq> md_fileName g" by metis
    moreover have "md_fileName h \<notin> names" using Cons.prems(2) h by simp
    ultimately show "md_fileName h \<notin> insert (md_fileName g) names" by simp
  qed
  have c: "\<forall>h \<in> set pre. \<exists>a. conv h = Inr a" using Cons.prems(3) by simp
  have m: "md_fileName f \<in> insert (md_fileName g) names \<union> set (map md_fileName pre)"
    using Cons.prems(4) by auto
  have "addFiles pm conv cp (pre @ f # post) (t, insert (md_fileName g) names)
      = Inl (Error (not_unique_message (md_fileName f)))"
    using d n c m by (rule Cons.IH)
  then show ?case by (simp add: t)
qed

lemma addFiles_distinct:
  "distinct (map md_fileName files) \<Longrightarrow> \<forall>g \<in> set files. md_fileName g \<notin> names \<Longrightarrow>
   \<forall>g \<in> set files. \<exists>a. conv g = Inr a \<Longrightarrow>
   \<exists>t ns. addFiles pm conv cp files (root, names) = Inr (t, ns)"
proof (induction files arbitrary: root names)
  case Nil
  then show ?case by simp
next
  case (Cons g rest)
  from Cons.prems obtain a where a: "conv g = Inr a" by auto
  have fresh: "md_fileName g \<notin> names" using Cons.prems by simp
  have "\<exists>t. addFileToTree (path_sep pm) conv root g
      (path_relative pm cp (md_absoluteFilePath g)) names
      = Inr (t, insert (md_fileName g) names)"
    using fresh a by (rule addFileToTree_adds)
  then obtain t where t: "addFileToTree (path_sep pm) conv root g
      (path_relative pm cp (md_absoluteFilePath g)) names
      = Inr (t, insert (md_fileName g) names)"
    by blast
  have d: "distinct (map md_fileName rest)" using Cons.prems(1) by simp
  have g_new: "md_fileName g \<notin> set (map md_fileName rest)" using Cons.prems(1) by simp
  have n: "\<forall>h \<in> set rest. md_fileName h \<notin> insert (md_fileName g) names"
  proof
    fix h assume h: "h \<in> set rest"
    then have "md_fileName h \<in> set (map md_fileName rest)" by simp
    with g_new have "md_fileName h \<noteq> md_fileName g" by metis
    moreover have "md_fileName h \<notin> names" using Cons.prems(2) h by simp
    ultimately show "md_fileName h \<notin> insert (md_fileName g) names" by simp
  qed
  have c: "\<forall>h \<in> set rest. \<exists>a. conv h = Inr a" using Cons.prems(3) by simp
  have "\<exists>t' ns. addFiles pm conv cp rest (t, insert (md_fileName g) names) = Inr (t', ns)"
    using d n c by (rule Cons.IH)
  then show ?case by (simp add: t)
qed

text \<open>
  C9. A list of source documents in which two share a derived filename never builds a
  tree: createFolderStructure ends in an error. The set of names is the one set of the
  whole run, so the folders of the two documents play no part: when the documents
  before \<open>f\<close> have distinct names and convert, and one of them has the name of \<open>f\<close>, the
  error is the uniqueness error for \<open>f\<close>, raised when \<open>f\<close> is inserted. A non-empty list
  with distinct names whose documents convert does build a tree.
\<close>

theorem createFolderStructure_rejects_shared_fileName:
  "(\<not> distinct (map md_fileName files) \<longrightarrow>
      (\<exists>e. createFolderStructure pm conv folderFile files = Inl e))
   \<and> (distinct (map md_fileName pre) \<and> (\<forall>g \<in> set pre. \<exists>a. conv g = Inr a)
        \<and> md_fileName f \<in> set (map md_fileName pre) \<longrightarrow>
      createFolderStructure pm conv folderFile (pre @ f # post)
        = Inl (Error (not_unique_message (md_fileName f))))
   \<and> (files \<noteq> [] \<and> distinct (map md_fileName files)
        \<and> (\<forall>g \<in> set files. \<exists>a. conv g = Inr a) \<longrightarrow>
      (\<exists>t. createFolderStructure pm conv folderFile files = Inr t))"
proof (intro conjI impI)
  assume "\<not> distinct (map md_fileName files)"
  then have nd: "\<not> distinct (map md_fileName files)
      \<or> (\<exists>g \<in> set files. md_fileName g \<in> {})" by simp
  show "\<exists>e. createFolderStructure pm conv folderFile files = Inl e"
  proof (cases "findCommonPath (path_sep pm) (map md_absoluteFilePath files)")
    case (Inl e)
    then show ?thesis by (simp add: createFolderStructure_def)
  next
    case (Inr cp)
    from addFiles_collision [OF nd, of pm conv cp "createTreeNode cp"]
    show ?thesis by (auto simp: createFolderStructure_def Inr)
  qed
next
  assume h: "distinct (map md_fileName pre) \<and> (\<forall>g \<in> set pre. \<exists>a. conv g = Inr a)
        \<and> md_fileName f \<in> set (map md_fileName pre)"
  have ne: "pre @ f # post \<noteq> []" by simp
  then obtain p ps where ps: "map md_absoluteFilePath (pre @ f # post) = p # ps"
    by (cases "pre @ f # post") auto
  have "addFiles pm conv (join_sep (path_sep pm) (commonPathParts (path_sep pm) p ps))
          (pre @ f # post)
          (createTreeNode (join_sep (path_sep pm) (commonPathParts (path_sep pm) p ps)), {})
        = Inl (Error (not_unique_message (md_fileName f)))"
    using h by (intro addFiles_first_collision) auto
  then show "createFolderStructure pm conv folderFile (pre @ f # post)
        = Inl (Error (not_unique_message (md_fileName f)))"
    unfolding createFolderStructure_def ps by simp
next
  assume h: "files \<noteq> [] \<and> distinct (map md_fileName files)
        \<and> (\<forall>g \<in> set files. \<exists>a. conv g = Inr a)"
  then obtain p ps where ps: "map md_absoluteFilePath files = p # ps"
    by (cases files) auto
  have "\<exists>t ns. addFiles pm conv (join_sep (path_sep pm) (commonPathParts (path_sep pm) p ps))
          files
          (createTreeNode (join_sep (path_sep pm) (commonPathParts (path_sep pm) p ps)), {})
        = Inr (t, ns)"
    using h by (intro addFiles_distinct) auto
  then show "\<exists>t. createFolderStructure pm conv folderFile files = Inr t"
    unfolding createFolderStructure_def ps by auto
qed

theorem createFolderStructure_rejects_shared_fileName_witness:
  "\<not> distinct (map md_fileName
       [example_md ''/v/a/x.md'' ''x.md'', example_md ''/v/b/x.md'' ''x.md''])
   \<and> createFolderStructure example_paths example_convert example_doc
       [example_md ''/v/a/x.md'' ''x.md'', example_md ''/v/b/x.md'' ''x.md'']
     = Inl (Error (not_unique_message ''x.md''))
   \<and> (\<exists>t. createFolderStructure example_paths example_convert example_doc
       [example_md ''/v/a/x.md'' ''x.md'', example_md ''/v/b/y.md'' ''y.md''] = Inr t)"
  using createFolderStructure_rejects_shared_fileName
    [where pre = "[example_md ''/v/a/x.md'' ''x.md'']"
       and f = "example_md ''/v/b/x.md'' ''x.md''" and post = "[]"
       and conv = example_convert and pm = example_paths and folderFile = example_doc
       and files = "[example_md ''/v/a/x.md'' ''x.md'', example_md ''/v/b/y.md'' ''y.md'']"]
  by (simp add: example_md_def example_convert_def)

subsection \<open>Adopting a page found by title\<close>

lemma ancestors_include_iff:
  "ancestors_include p t \<longleftrightarrow> (\<exists>ancestors. page_ancestors p = Some ancestors \<and> t \<in> set ancestors)"
  by (auto simp: ancestors_include_def list_ex_iff split: option.splits)

text \<open>
  C1. The document carries no stored page identifier, and the search by title in the
  target space answers with at least one page, \<open>currentPage\<close> the first. If the ancestors
  of \<open>currentPage\<close> do not include the top page identifier (or it carries none),
  ensurePageExists throws the outside-the-page-tree error, and the search is the only
  call it has made: no page identifier is persisted, nothing is created or updated. If
  they do include it, ensurePageExists persists the identifier and returns the details
  of \<open>currentPage\<close>; it throws only what the adaptor's persist call itself rejects with.
  So, the persist call answering, it throws if and only if the ancestors exclude the top
  page.
\<close>

theorem ensurePageExists_title_match:
  assumes "\<not> truthy (file_pageId adfFile)"
    and "getContent client log spaceKey (file_pageTitle adfFile) = Inr found"
    and "ca_size found > 0"
    and "ca_results found = currentPage # others"
  shows
    "(\<not> ancestors_include currentPage topPageId \<longrightarrow>
        ensurePageExists client blankPageAdf adfFile spaceKey parentPageId topPageId log
          = (Inl (Error (outside_tree_message (file_pageTitle adfFile))),
             log @ [GetContent spaceKey (file_pageTitle adfFile)])
        \<and> filter is_write
            (snd (ensurePageExists client blankPageAdf adfFile spaceKey parentPageId topPageId log))
          = filter is_write log)
     \<and> (ancestors_include currentPage topPageId \<longrightarrow>
        ensurePageExists client blankPageAdf adfFile spaceKey parentPageId topPageId log
          = (case updateMarkdownPageId client (log @ [GetContent spaceKey (file_pageTitle adfFile)])
                    (file_absoluteFilePath adfFile) (page_id currentPage) of
               Inl e \<Rightarrow> Inl e
             | Inr u \<Rightarrow> Inr \<lparr> pd_id = page_id currentPage,
                              pd_title = file_pageTitle adfFile,
                              pd_version = version_or_1 currentPage,
                              pd_existingAdf = page_body currentPage,
                              pd_spaceKey = spaceKey \<rparr>,
             log @ [GetContent spaceKey (file_pageTitle adfFile),
                    UpdateMarkdownPageId (file_absoluteFilePath adfFile) (page_id currentPage)]))
     \<and> (updateMarkdownPageId client (log @ [GetContent spaceKey (file_pageTitle adfFile)])
            (file_absoluteFilePath adfFile) (page_id currentPage) = Inr () \<longrightarrow>
          (isl (fst (ensurePageExists client blankPageAdf adfFile spaceKey parentPageId topPageId log))
             \<longleftrightarrow> \<not> ancestors_include currentPage topPageId))"
proof -
  have search: "(if truthy (file_pageId adfFile) then file_pageId adfFile else None) = None"
    using assms(1) by simp
  show ?thesis
    using assms(2-4)
    by (auto simp: ensurePageExists_def search bind_def perform_def throw_def return_def
          split: sum.splits)
qed

theorem ensurePageExists_title_match_witness:
  "ensurePageExists
      (example_client \<lparr> getContent :=
         (\<lambda>log s t. Inr \<lparr> ca_size = 1, ca_results = [example_page ''77'' [''1'', ''2'']] \<rparr>) \<rparr>)
      ''blank'' (example_file ''A'' example_doc) ''SP'' ''9'' ''9'' []
     = (Inl (Error (outside_tree_message ''A'')), [GetContent ''SP'' ''A''])
   \<and> ensurePageExists
      (example_client \<lparr> getContent :=
         (\<lambda>log s t. Inr \<lparr> ca_size = 1, ca_results = [example_page ''77'' [''1'', ''9'']] \<rparr>) \<rparr>)
      ''blank'' (example_file ''A'' example_doc) ''SP'' ''9'' ''9'' []
     = (Inr \<lparr> pd_id = ''77'', pd_title = ''A'', pd_version = 1, pd_existingAdf = None,
              pd_spaceKey = ''SP'' \<rparr>,
        [GetContent ''SP'' ''A'', UpdateMarkdownPageId ''/v/A.md'' ''77''])"
proof -
  have a: "\<not> truthy (file_pageId (example_file ''A'' example_doc))"
    by (simp add: example_file_def truthy_def)
  have t: "file_pageTitle (example_file ''A'' example_doc) = ''A''"
    by (simp add: example_file_def)
  have out: "\<not> ancestors_include (example_page ''77'' [''1'', ''2'']) ''9''"
    by (simp add: ancestors_include_def example_page_def)
  have inn: "ancestors_include (example_page ''77'' [''1'', ''9'']) ''9''"
    by (simp add: ancestors_include_def example_page_def)
  have 1: "ensurePageExists
      (example_client \<lparr> getContent :=
         (\<lambda>log s t. Inr \<lparr> ca_size = 1, ca_results = [example_page ''77'' [''1'', ''2'']] \<rparr>) \<rparr>)
      ''blank'' (example_file ''A'' example_doc) ''SP'' ''9'' ''9'' []
     = (Inl (Error (outside_tree_message ''A'')), [GetContent ''SP'' ''A''])"
    using ensurePageExists_title_match
      [where adfFile = "example_file ''A'' example_doc" and log = "[]" and spaceKey = "''SP''"
         and client = "example_client \<lparr> getContent :=
           (\<lambda>log s t. Inr \<lparr> ca_size = 1, ca_results = [example_page ''77'' [''1'', ''2'']] \<rparr>) \<rparr>"
         and found = "\<lparr> ca_size = 1, ca_results = [example_page ''77'' [''1'', ''2'']] \<rparr>"
         and currentPage = "example_page ''77'' [''1'', ''2'']" and others = "[]"
         and topPageId = "''9''" and blankPageAdf = "''blank''" and parentPageId = "''9''"]
      a out
    by (simp add: t)
  have 2: "ensurePageExists
      (example_client \<lparr> getContent :=
         (\<lambda>log s t. Inr \<lparr> ca_size = 1, ca_results = [example_page ''77'' [''1'', ''9'']] \<rparr>) \<rparr>)
      ''blank'' (example_file ''A'' example_doc) ''SP'' ''9'' ''9'' []
     = (Inr \<lparr> pd_id = ''77'', pd_title = ''A'', pd_version = 1, pd_existingAdf = None,
              pd_spaceKey = ''SP'' \<rparr>,
        [GetContent ''SP'' ''A'', UpdateMarkdownPageId ''/v/A.md'' ''77''])"
    using ensurePageExists_title_match
      [where adfFile = "example_file ''A'' example_doc" and log = "[]" and spaceKey = "''SP''"
         and client = "example_client \<lparr> getContent :=
           (\<lambda>log s t. Inr \<lparr> ca_size = 1, ca_results = [example_page ''77'' [''1'', ''9'']] \<rparr>) \<rparr>"
         and found = "\<lparr> ca_size = 1, ca_results = [example_page ''77'' [''1'', ''9'']] \<rparr>"
         and currentPage = "example_page ''77'' [''1'', ''9'']" and others = "[]"
         and topPageId = "''9''" and blankPageAdf = "''blank''" and parentPageId = "''9''"]
      a inn
    by (simp add: t example_client_def example_page_def example_file_def version_or_1_def)
  from 1 2 show ?thesis by simp
qed

subsection \<open>Traversals and places\<close>

text \<open>
  What a traversal leaves at a place of the document. When no visitor returns
  \<^verbatim>\<open>false\<close> every content keeps its length and its order, and while the nodes above
  a place keep their content, the node at that place after the traversal is the
  traversal of the node that was there before.
\<close>

lemma never_false_not_removed:
  assumes "never_false vs"
  shows "traverseNode d vs n \<noteq> Inr None"
proof (cases d)
  case 0
  then show ?thesis by simp
next
  case (Suc k)
  show ?thesis
  proof (cases "visitor_for vs (node_type n)")
    case None
    then show ?thesis
      by (simp add: Suc Let_def split: option.splits sum.splits)
  next
    case (Some v)
    have "v n \<noteq> Inr VFalse" using assms Some unfolding never_false_def by blast
    then show ?thesis
      by (cases "v n") (auto simp: Suc Some Let_def
            split: option.splits sum.splits visit_result.splits)
  qed
qed

lemma traverseContent_nth:
  assumes "never_false vs"
  shows "traverseContent d vs cs = Inr cs' \<Longrightarrow>
     length cs' = length cs
     \<and> (\<forall>i<length cs. traverseNode d vs (cs ! i) = Inr (Some (cs' ! i)))"
proof (induction cs arbitrary: cs')
  case Nil
  then show ?case by simp
next
  case (Cons c cs)
  from Cons.prems obtain r rs where
    r: "traverseNode d vs c = Inr r"
    and rs: "traverseContent d vs cs = Inr rs"
    and cs': "cs' = (case r of None \<Rightarrow> rs | Some c' \<Rightarrow> c' # rs)"
    by (auto split: sum.splits)
  from r never_false_not_removed [OF assms, of d c] obtain c' where c': "r = Some c'"
    by (cases r) auto
  from Cons.IH [OF rs] have len: "length rs = length cs"
    and nth: "\<And>i. i < length cs \<Longrightarrow> traverseNode d vs (cs ! i) = Inr (Some (rs ! i))"
    by auto
  have "traverseNode d vs ((c # cs) ! i) = Inr (Some (cs' ! i))" if "i < length (c # cs)" for i
  proof (cases i)
    case 0
    then show ?thesis using r c' cs' by simp
  next
    case (Suc j)
    with that have "j < length cs" by simp
    from nth [OF this] show ?thesis using Suc c' cs' by simp
  qed
  then show ?case using len c' cs' by simp
qed

lemma traverseNode_SomeD:
  assumes "traverseNode d vs n = Inr (Some n')"
  shows "node_type n' = node_type (after_visit vs n)
     \<and> node_attrs n' = node_attrs (after_visit vs n)
     \<and> node_marks n' = node_marks (after_visit vs n)
     \<and> node_text n' = node_text (after_visit vs n)
     \<and> (case node_content (after_visit vs n) of
          None \<Rightarrow> n' = after_visit vs n
        | Some cs \<Rightarrow> \<exists>k cs'. traverseContent k vs cs = Inr cs' \<and> node_content n' = Some cs')"
proof (cases d)
  case 0
  with assms show ?thesis by simp
next
  case (Suc k)
  show ?thesis
  proof (cases "visitor_for vs (node_type n)")
    case None
    then have a: "after_visit vs n = n" by (simp add: after_visit_def)
    from assms None show ?thesis
      unfolding a Suc
      by (auto simp: Let_def split: option.splits sum.splits)
  next
    case (Some v)
    show ?thesis
    proof (cases "v n")
      case (Inl e)
      with assms Some show ?thesis by (simp add: Suc)
    next
      case (Inr r)
      show ?thesis
      proof (cases r)
        case VUndefined
        then have a: "after_visit vs n = n" using Some Inr by (simp add: after_visit_def)
        from assms Some Inr VUndefined show ?thesis
          unfolding a Suc
          by (auto simp: Let_def split: option.splits sum.splits)
      next
        case VFalse
        with assms Some Inr show ?thesis by (simp add: Suc)
      next
        case (VNode m)
        then have a: "after_visit vs n = m" using Some Inr by (simp add: after_visit_def)
        from assms Some Inr VNode show ?thesis
          unfolding a Suc
          by (auto simp: Let_def split: option.splits sum.splits)
      qed
    qed
  qed
qed

lemma traverse_at_path:
  assumes "never_false vs"
  shows "traverseNode d vs n = Inr (Some n') \<Longrightarrow> node_at n p = Some m \<Longrightarrow>
     content_kept_above vs n p \<Longrightarrow>
     \<exists>k m'. node_at n' p = Some m' \<and> traverseNode k vs m = Inr (Some m')"
proof (induction p arbitrary: d n n')
  case Nil
  then show ?case by auto
next
  case (Cons i p)
  from Cons.prems(3) obtain cs where
    keep: "node_content (after_visit vs n) = node_content n"
    and cs: "node_content n = Some cs" and i: "i < length cs"
    and below: "content_kept_above vs (cs ! i) p"
    by (auto split: option.splits)
  from traverseNode_SomeD [OF Cons.prems(1)] keep cs obtain k cs' where
    t: "traverseContent k vs cs = Inr cs'" and c': "node_content n' = Some cs'"
    by auto
  from traverseContent_nth [OF assms t] i have
    len: "length cs' = length cs"
    and ti: "traverseNode k vs (cs ! i) = Inr (Some (cs' ! i))"
    by auto
  from Cons.prems(2) cs i have m: "node_at (cs ! i) p = Some m" by simp
  from Cons.IH [OF ti m below] obtain k' m' where
    "node_at (cs' ! i) p = Some m'" "traverseNode k' vs m = Inr (Some m')"
    by blast
  then show ?case using c' len i by auto
qed

text \<open>\<open>filter\<close> finds every node that the callback accepts, wherever it is.\<close>

lemma filterContent_nth:
  "filterContent d P cs = Inr ns \<Longrightarrow> i < length cs \<Longrightarrow>
   \<exists>found. filterNode d P (cs ! i) = Inr found \<and> set found \<subseteq> set ns"
proof (induction cs arbitrary: ns i)
  case Nil
  then show ?case by simp
next
  case (Cons c cs)
  from Cons.prems(1) obtain a b where
    a: "filterNode d P c = Inr a" and b: "filterContent d P cs = Inr b" and ns: "ns = a @ b"
    by (auto split: sum.splits)
  show ?case
  proof (cases i)
    case 0
    then show ?thesis using a ns by simp
  next
    case (Suc j)
    with Cons.prems(2) have "j < length cs" by simp
    from Cons.IH [OF b this] show ?thesis using Suc ns by auto
  qed
qed

lemma filter_finds:
  "filterNode d P n = Inr ns \<Longrightarrow> node_at n p = Some m \<Longrightarrow> P m \<Longrightarrow> m \<in> set ns"
proof (induction p arbitrary: d n ns)
  case Nil
  then show ?case
    by (cases d) (auto split: option.splits sum.splits)
next
  case (Cons i p)
  from Cons.prems(2) obtain cs where cs: "node_content n = Some cs" and i: "i < length cs"
    and m: "node_at (cs ! i) p = Some m"
    by (auto split: option.splits if_splits)
  from Cons.prems(1) cs obtain k found where
    f: "filterContent k P cs = Inr found" and sub: "set found \<subseteq> set ns"
    by (cases d) (auto split: sum.splits)
  from filterContent_nth [OF f i] obtain found' where
    "filterNode k P (cs ! i) = Inr found'" "set found' \<subseteq> set found"
    by blast
  with Cons.IH [OF _ m Cons.prems(3)] sub show ?case by blast
qed

lemma foldr_max_le: "(\<And>x. x \<in> set xs \<Longrightarrow> x \<le> d) \<Longrightarrow> foldr max xs (0::nat) \<le> d"
  by (induction xs) auto

lemma filterContent_all:
  "filterContent d P cs = Inr ns \<Longrightarrow> c \<in> set cs \<Longrightarrow> \<exists>found. filterNode d P c = Inr found"
  by (induction cs arbitrary: ns) (auto split: sum.splits)

lemma filter_depth: "filterNode d P n = Inr ns \<Longrightarrow> adf_height n \<le> d"
proof (induction d arbitrary: n ns)
  case 0
  then show ?case by simp
next
  case (Suc d)
  show ?case
  proof (cases "node_content n")
    case None
    then show ?thesis by (cases n) simp
  next
    case (Some cs)
    with Suc.prems obtain found where f: "filterContent d P cs = Inr found"
      by (auto split: sum.splits)
    have "adf_height c \<le> d" if "c \<in> set cs" for c
      using filterContent_all [OF f that] Suc.IH by blast
    then have "foldr max (map adf_height cs) 0 \<le> d"
      by (intro foldr_max_le) auto
    with Some show ?thesis by (cases n) simp
  qed
qed

subsection \<open>Internal links\<close>


lemma wikilink_visitor_result:
  "case wikilink_visitor st rt m n of
     Inl e \<Rightarrow> True
   | Inr VUndefined \<Rightarrow> True
   | Inr VFalse \<Rightarrow> False
   | Inr (VNode k) \<Rightarrow> node_content k = node_content n"
  by (simp add: wikilink_visitor_def Let_def
        split: option.split list.split jval.split)

lemma wikilink_visitor_content:
  "wikilink_visitor st rt m n = Inr (VNode k) \<Longrightarrow> node_content k = node_content n"
  using wikilink_visitor_result [where st = st and rt = rt and m = m and n = n] by simp







subsection \<open>What a function adds to the log\<close>

lemma uploadFile_log:
  "\<exists>extra. snd (uploadFile client rt pid path fname idx log) = log @ extra
     \<and> list_all is_upload_call extra"
  by (auto simp: uploadFile_def bind_def perform_def return_def throw_def lift_def Let_def
        split: sum.splits option.splits prod.splits)

lemma uploadBuffer_log:
  "\<exists>extra. snd (uploadBuffer client rt pid fname buf idx log) = log @ extra
     \<and> list_all is_upload_call extra"
  by (auto simp: uploadBuffer_def bind_def perform_def return_def throw_def lift_def Let_def
        split: sum.splits option.splits prod.splits)

lemma bind_log:
  assumes "\<And>log. \<exists>extra. snd (m log) = log @ extra \<and> list_all P extra"
    and "\<And>x log. \<exists>extra. snd (f x log) = log @ extra \<and> list_all P extra"
  shows "\<exists>extra. snd (bind m f log) = log @ extra \<and> list_all P extra"
proof (cases "m log")
  case (Pair r log1)
  from assms(1) [of log] Pair obtain e1 where e1: "log1 = log @ e1" "list_all P e1" by auto
  show ?thesis
  proof (cases r)
    case (Inl e)
    with Pair e1 show ?thesis by (auto simp: bind_def)
  next
    case (Inr x)
    from assms(2) [of x log1] obtain e2 where e2: "snd (f x log1) = log1 @ e2" "list_all P e2"
      by auto
    with Pair Inr e1 show ?thesis by (auto simp: bind_def)
  qed
qed

lemma return_log: "\<exists>extra. snd (return x log) = log @ extra \<and> list_all P extra"
  by (simp add: return_def)

lemma throw_log: "\<exists>extra. snd (throw e log) = log @ extra \<and> list_all P extra"
  by (simp add: throw_def)

lemma lift_log: "\<exists>extra. snd (lift r log) = log @ extra \<and> list_all P extra"
  by (simp add: lift_def)

lemma perform_log: "P c \<Longrightarrow> \<exists>extra. snd (perform c a log) = log @ extra \<and> list_all P extra"
  by (simp add: perform_def)

lemma uploadImages_log:
  "\<exists>extra. snd (uploadImages client rt pid path idx urls m log) = log @ extra
     \<and> list_all is_upload_call extra"
proof (induction urls arbitrary: m log)
  case Nil
  show ?case by (simp add: return_def)
next
  case (Cons u urls)
  show ?case
  proof (cases u)
    case None
    then show ?thesis by (simp add: throw_def)
  next
    case (Some v)
    show ?thesis
    proof (cases v)
      case (JStr s)
      show ?thesis
        unfolding Some JStr uploadImages.simps option.case jval.case
        by (rule bind_log) (rule uploadFile_log, rule Cons.IH)
    next
      case (JOther s)
      with Some show ?thesis by (simp add: throw_def)
    qed
  qed
qed

lemma uploadCharts_log:
  "\<exists>extra. snd (uploadCharts client rt pid idx imgs m log) = log @ extra
     \<and> list_all is_upload_call extra"
proof (induction imgs arbitrary: m log)
  case Nil
  show ?case by (simp add: return_def)
next
  case (Cons i imgs)
  show ?case
    unfolding uploadCharts.simps
    by (rule bind_log) (rule uploadBuffer_log, rule Cons.IH)
qed

lemma uploadFiles_log:
  "\<exists>extra. snd (uploadFiles client rt pid path adr log) = log @ extra
     \<and> list_all is_upload_call extra"
  unfolding uploadFiles_def uploadAssets_def
  by (intro bind_log lift_log perform_log uploadImages_log uploadCharts_log) simp_all


lemma if_log:
  "(c \<Longrightarrow> \<exists>extra. snd (a log) = log @ extra \<and> list_all P extra) \<Longrightarrow>
   (\<not> c \<Longrightarrow> \<exists>extra. snd (b log) = log @ extra \<and> list_all P extra) \<Longrightarrow>
   \<exists>extra. snd ((if c then a else b) log) = log @ extra \<and> list_all P extra"
  by simp

lemma removeLabels_log:
  "\<exists>extra. snd (removeLabels client pid labels existing log) = log @ extra
     \<and> list_all (\<lambda>c. \<not> is_update_call c) extra"
proof (induction existing arbitrary: log)
  case Nil
  show ?case by (simp add: return_def)
next
  case (Cons l existing)
  show ?case
    unfolding removeLabels.simps
    by (intro if_log bind_log perform_log Cons.IH) simp
qed

lemma upload_calls_not_sync:
  "list_all is_upload_call extra \<Longrightarrow> filter is_sync_call extra = []"
proof (induction extra)
  case Nil
  then show ?case by simp
next
  case (Cons c extra)
  then show ?case by (cases c) auto
qed

lemma upload_calls_not_update:
  "list_all is_upload_call extra \<Longrightarrow> filter is_update_call extra = []"
proof (induction extra)
  case Nil
  then show ?case by simp
next
  case (Cons c extra)
  then show ?case by (cases c) auto
qed

lemma uploadFiles_keeps_sync_calls:
  "filter is_sync_call (snd (uploadFiles client rt pid path adr log)) = filter is_sync_call log"
  using uploadFiles_log [of client rt pid path adr log] upload_calls_not_sync by auto

lemma uploadFiles_keeps_update_calls:
  "filter is_update_call (snd (uploadFiles client rt pid path adr log))
     = filter is_update_call log"
  using uploadFiles_log [of client rt pid path adr log] upload_calls_not_update by auto

lemma double_unit_small: "n < 2 ^ 53 \<Longrightarrow> double_unit n = 1"
  by (subst double_unit.simps) simp

lemma double_unit_limit: "double_unit (2 ^ 53) = 2"
  by (subst double_unit.simps) (simp add: double_unit_small)

lemma double_round_nat_exact: "n \<le> 2 ^ 53 \<Longrightarrow> double_round_nat n = n"
proof (cases "n < 2 ^ 53")
  case True
  then show ?thesis by (simp add: double_round_nat_def double_unit_small)
next
  case False
  assume "n \<le> 2 ^ 53"
  with False have "n = 2 ^ 53" by simp
  then show ?thesis using double_unit_limit by (simp add: double_round_nat_def Let_def)
qed

lemma double_round_exact: "- (2 ^ 53) \<le> x \<Longrightarrow> x \<le> 2 ^ 53 \<Longrightarrow> double_round x = x"
proof -
  assume lo: "- (2 ^ 53) \<le> x" and hi: "x \<le> 2 ^ 53"
  show ?thesis
  proof (cases "x < 0")
    case True
    have "nat (- x) \<le> 2 ^ 53" using lo by (simp add: nat_le_iff)
    then show ?thesis using True by (simp add: double_round_def double_round_nat_exact)
  next
    case False
    have "nat x \<le> 2 ^ 53" using hi by (simp add: nat_le_iff)
    then show ?thesis using False by (simp add: double_round_def double_round_nat_exact)
  qed
qed

lemma js_add_exact: "- (2 ^ 53) \<le> v \<Longrightarrow> v < 2 ^ 53 \<Longrightarrow> js_add v 1 = v + 1"
  unfolding js_add_def by (rule double_round_exact) simp_all

text \<open>Beyond the exact range the sum is rounded: \<open>2^53 + 1\<close> is \<open>2^53\<close> again.\<close>

lemma js_add_rounds: "js_add (2 ^ 53) 1 = 2 ^ 53"
proof -
  have u: "double_unit (2 ^ 53 + 1) = 2"
    by (subst double_unit.simps) (simp add: double_unit_small)
  have "double_round_nat (2 ^ 53 + 1) = 2 ^ 53"
    using u by (simp add: double_round_nat_def Let_def)
  moreover have "nat (2 ^ 53 + 1) = 2 ^ 53 + 1"
    by (simp add: nat_add_distrib nat_power_eq)
  ultimately show ?thesis by (simp add: js_add_def double_round_def)
qed

text \<open>
  C8. The upload pipeline has returned the rewritten body \<open>updatedAdf\<close> and its
  serialisation differs from the stored remote body. Then updatePageContent issues,
  right after the calls of the pipeline, one updateContent call: for the page, with
  version number \<^verbatim>\<open>pageVersionNumber + 1\<close> as JavaScript computes it on doubles, the
  given title, the new serialisation as body, and the ancestors [parent page
  identifier], or no ancestors field when the document's dontChangeParentPageId is set.
  No other updateContent call follows, and the pipeline made none. For every version
  number from \<open>- 2^53\<close> up to, and not including, \<open>2^53\<close> the number sent is the old one
  plus one.
\<close>

theorem updatePageContent_changed_body:
  assumes "uploadFiles client rt pageId0 path adf log = (Inr updatedAdf, log1)"
    and "json_stringify rt updatedAdf \<noteq> currentContents"
  shows "(\<exists>r extra.
      updatePageContent client rt pageId0 path adf parentPageId pageVersionNumber pageTitle0
          currentContents labels adfFile log
        = (r, log1 @ UpdateContent
               \<lparr> up_id = pageId0,
                 up_ancestors = (if file_dontChangeParentPageId adfFile then None
                                 else Some [parentPageId]),
                 up_version = js_add pageVersionNumber 1,
                 up_title = pageTitle0,
                 up_body = json_stringify rt updatedAdf \<rparr> # extra)
      \<and> list_all (\<lambda>c. \<not> is_update_call c) extra
      \<and> filter is_update_call log1 = filter is_update_call log)
    \<and> (- (2 ^ 53) \<le> pageVersionNumber \<and> pageVersionNumber < 2 ^ 53
         \<longrightarrow> js_add pageVersionNumber 1 = pageVersionNumber + 1)"
proof -
  define details where "details = updateContentDetails pageId0 parentPageId pageVersionNumber
      pageTitle0 (json_stringify rt updatedAdf) adfFile"
  define reconcile :: "bool option io" where "reconcile =
     bind (perform (GetLabelsForContent pageId0)
             (\<lambda>log. getLabelsForContent client log pageId0))
       (\<lambda>currentLabels.
          bind (removeLabels client pageId0 labels (la_results currentLabels))
            (\<lambda>u'. if length (labelsToAdd labels (la_results currentLabels)) > 0
                   then bind (perform
                                (AddLabelsToContent pageId0
                                   (labelsToAdd labels (la_results currentLabels)))
                                (\<lambda>log. addLabelsToContent client log pageId0
                                   (labelsToAdd labels (la_results currentLabels))))
                          (\<lambda>u''. return None)
                   else return None))"
  have cont: "\<exists>extra. snd (reconcile l) = l @ extra \<and> list_all (\<lambda>c. \<not> is_update_call c) extra"
    for l
    unfolding reconcile_def
    by (intro bind_log perform_log removeLabels_log if_log return_log) simp_all
  have run: "updatePageContent client rt pageId0 path adf parentPageId pageVersionNumber
        pageTitle0 currentContents labels adfFile log
      = bind (perform (UpdateContent details) (\<lambda>log. updateContent client log details))
          (\<lambda>u. reconcile) log1"
    unfolding updatePageContent_def reconcile_def details_def
    using assms by (simp add: bind_def Let_def)
  have d: "details = \<lparr> up_id = pageId0,
                 up_ancestors = (if file_dontChangeParentPageId adfFile then None
                                 else Some [parentPageId]),
                 up_version = js_add pageVersionNumber 1,
                 up_title = pageTitle0,
                 up_body = json_stringify rt updatedAdf \<rparr>"
    by (simp add: details_def updateContentDetails_def)
  have "\<exists>r extra. bind (perform (UpdateContent details)
            (\<lambda>log. updateContent client log details)) (\<lambda>u. reconcile) log1
          = (r, log1 @ UpdateContent details # extra)
        \<and> list_all (\<lambda>c. \<not> is_update_call c) extra"
  proof (cases "updateContent client log1 details")
    case (Inl e)
    then show ?thesis by (simp add: bind_def perform_def)
  next
    case (Inr u)
    from cont [of "log1 @ [UpdateContent details]"] obtain extra where
      e: "snd (reconcile (log1 @ [UpdateContent details]))
            = (log1 @ [UpdateContent details]) @ extra"
        "list_all (\<lambda>c. \<not> is_update_call c) extra"
      by blast
    have "bind (perform (UpdateContent details)
            (\<lambda>log. updateContent client log details)) (\<lambda>u. reconcile) log1
          = reconcile (log1 @ [UpdateContent details])"
      using Inr by (simp add: bind_def perform_def)
    moreover have "reconcile (log1 @ [UpdateContent details])
        = (fst (reconcile (log1 @ [UpdateContent details])),
           log1 @ UpdateContent details # extra)"
      using e(1) by (simp add: prod_eq_iff)
    ultimately show ?thesis using e(2) by auto
  qed
  moreover have "filter is_update_call log1 = filter is_update_call log"
    using uploadFiles_keeps_update_calls [of client rt pageId0 path adf log] assms(1) by simp
  moreover have "- (2 ^ 53) \<le> pageVersionNumber \<and> pageVersionNumber < 2 ^ 53
         \<longrightarrow> js_add pageVersionNumber 1 = pageVersionNumber + 1"
    by (simp add: js_add_exact)
  ultimately show ?thesis unfolding run d by blast
qed

lemma updatePageContent_same:
  assumes "uploadFiles client rt pageId0 path adf log = (Inr updatedAdf, log1)"
    and "json_stringify rt updatedAdf = currentContents"
  shows "updatePageContent client rt pageId0 path adf parentPageId pageVersionNumber pageTitle0
          currentContents labels adfFile log = (Inr (Some True), log1)"
  using assms by (simp add: updatePageContent_def bind_def Let_def return_def)

lemma updatePageContent_upload_fails:
  assumes "uploadFiles client rt pageId0 path adf log = (Inl e, log1)"
  shows "updatePageContent client rt pageId0 path adf parentPageId pageVersionNumber pageTitle0
          currentContents labels adfFile log = (Inl e, log1)"
  using assms by (simp add: updatePageContent_def bind_def)

lemma publishFile_unchanged:
  assumes "body_unchanged client rt node"
  shows "filter is_sync_call (snd (publishFile client rt node log)) = filter is_sync_call log"
proof -
  have log_eq: "snd (publishFile client rt node log) = snd (publishFile_try client rt node log)"
    by (simp add: publishFile_def split: prod.splits sum.splits)
  show ?thesis
  proof (cases "truthy (file_pageId (cn_file node))")
    case False
    then show ?thesis by (simp add: log_eq publishFile_try_def throw_def)
  next
    case True
    then obtain pid where pid: "file_pageId (cn_file node) = Some pid"
      by (auto simp: truthy_def split: option.splits)
    obtain r log1 where up: "uploadFiles client rt pid (file_absoluteFilePath (cn_file node))
               (file_contents (cn_file node)) log = (r, log1)"
      by (cases "uploadFiles client rt pid (file_absoluteFilePath (cn_file node))
               (file_contents (cn_file node)) log") auto
    have keep: "filter is_sync_call log1 = filter is_sync_call log"
      using uploadFiles_keeps_sync_calls [of client rt pid "file_absoluteFilePath (cn_file node)"
          "file_contents (cn_file node)" log] up by simp
    show ?thesis
    proof (cases r)
      case (Inl e)
      with up True pid keep show ?thesis
        by (simp add: log_eq publishFile_try_def updatePageContent_upload_fails)
    next
      case (Inr u)
      have "fst (uploadFiles client rt pid (file_absoluteFilePath (cn_file node))
               (file_contents (cn_file node)) log) = Inr u"
        using up Inr by simp
      with assms pid have "json_stringify rt u = cn_existingAdf node"
        unfolding body_unchanged_def by blast
      with up Inr True pid keep show ?thesis
        by (simp add: log_eq publishFile_try_def updatePageContent_same)
    qed
  qed
qed

lemma publishFile_returns:
  "\<exists>r log'. publishFile client rt node log = (Inr r, log')"
  by (auto simp: publishFile_def split: prod.splits sum.splits)

lemma publishFiles_unchanged:
  "(\<And>node. node \<in> set nodes \<Longrightarrow> body_unchanged client rt node) \<Longrightarrow>
   filter is_sync_call (snd (publishFiles client rt nodes log)) = filter is_sync_call log"
proof (induction nodes arbitrary: log)
  case Nil
  show ?case by (simp add: return_def)
next
  case (Cons node nodes)
  obtain r log1 where r: "publishFile client rt node log = (Inr r, log1)"
    using publishFile_returns by blast
  have 1: "filter is_sync_call log1 = filter is_sync_call log"
    using publishFile_unchanged [of client rt node log] Cons.prems r by simp
  have 2: "filter is_sync_call (snd (publishFiles client rt nodes log1))
      = filter is_sync_call log1"
    using Cons.prems by (intro Cons.IH) simp
  have "snd (publishFiles client rt (node # nodes) log) = snd (publishFiles client rt nodes log1)"
    using r by (simp add: bind_def return_def split: prod.splits sum.splits)
  with 1 2 show ?case by simp
qed

text \<open>
  C2. When the serialisation of the rewritten body equals the stored remote body,
  updatePageContent returns \<^verbatim>\<open>true\<close> with the log as the upload pipeline left it,
  and the pipeline calls neither updateContent nor any label operation: no update, no
  version increment, no label fetched, added or removed. So a run over pages that all
  are unchanged in this sense adds no such call to the log.
\<close>

theorem updatePageContent_unchanged_body:
  "(uploadFiles client rt pageId0 path adf log = (Inr updatedAdf, log1)
      \<and> json_stringify rt updatedAdf = currentContents \<longrightarrow>
      updatePageContent client rt pageId0 path adf parentPageId pageVersionNumber pageTitle0
          currentContents labels adfFile log = (Inr (Some True), log1)
      \<and> filter is_sync_call log1 = filter is_sync_call log)
   \<and> ((\<forall>node \<in> set nodes. body_unchanged client rt node) \<longrightarrow>
      filter is_sync_call (snd (publishFiles client rt nodes log)) = filter is_sync_call log)"
proof (intro conjI impI)
  assume a: "uploadFiles client rt pageId0 path adf log = (Inr updatedAdf, log1)
      \<and> json_stringify rt updatedAdf = currentContents"
  then show "updatePageContent client rt pageId0 path adf parentPageId pageVersionNumber
      pageTitle0 currentContents labels adfFile log = (Inr (Some True), log1)"
    by (simp add: updatePageContent_same)
  show "filter is_sync_call log1 = filter is_sync_call log"
    using uploadFiles_keeps_sync_calls [of client rt pageId0 path adf log] a by simp
next
  assume "\<forall>node \<in> set nodes. body_unchanged client rt node"
  then show "filter is_sync_call (snd (publishFiles client rt nodes log))
      = filter is_sync_call log"
    by (intro publishFiles_unchanged) simp
qed


subsection \<open>Synchronising and publishing: examples and the outcome\<close>

lemma example_upload:
  "uploadFiles example_client example_runtime ''42'' p example_doc log
     = (Inr (Some example_doc), log @ [CaptureMermaidCharts [], GetAttachments ''42''])"
  by (simp add: uploadFiles_def uploadAssets_def bind_def lift_def perform_def return_def filter_adf_def
        traverse_def example_runtime_def example_client_def example_doc_def
        filterNode_numeral traverseNode_numeral mermaidNodesToUpload_def set_values_def
        rewrite_visitors_def visitor_for_def is_media_def is_mermaid_def attr_def
        currentAttachments_of_def)

theorem updatePageContent_changed_body_witness:
  "(\<exists>r extra.
      updatePageContent example_client example_runtime ''42'' ''/v/A.md'' example_doc ''9'' 1
          ''A'' ''old'' [] (example_file ''A'' example_doc) []
        = (r, [CaptureMermaidCharts [], GetAttachments ''42'']
             @ UpdateContent
               \<lparr> up_id = ''42'', up_ancestors = Some [''9''], up_version = 2,
                 up_title = ''A'', up_body = ''json-doc'' \<rparr> # extra)
      \<and> list_all (\<lambda>c. \<not> is_update_call c) extra)
   \<and> js_add 1 1 = 2"
proof -
  have up: "uploadFiles example_client example_runtime ''42'' ''/v/A.md'' example_doc []
     = (Inr (Some example_doc), [CaptureMermaidCharts [], GetAttachments ''42''])"
    using example_upload [of "''/v/A.md''" "[]"] by simp
  have diff: "json_stringify example_runtime (Some example_doc) \<noteq> ''old''"
    by (simp add: example_runtime_def example_doc_def)
  have j: "json_stringify example_runtime (Some example_doc) = ''json-doc''"
    by (simp add: example_runtime_def example_doc_def)
  have f: "\<not> file_dontChangeParentPageId (example_file ''A'' example_doc)"
    by (simp add: example_file_def)
  have v: "js_add 1 1 = 2"
    by (simp add: js_add_def double_round_def double_round_nat_def double_unit_small)
  show ?thesis
    using updatePageContent_changed_body [OF up diff, of "''9''" 1 "''A''" "[]"
        "example_file ''A'' example_doc"]
    by (simp add: j f v)
qed

theorem updatePageContent_unchanged_body_witness:
  "updatePageContent example_client example_runtime ''42'' ''/v/A.md'' example_doc ''9'' 1
          ''A'' ''json-doc'' [''tag''] (example_file ''A'' example_doc) []
     = (Inr (Some True), [CaptureMermaidCharts [], GetAttachments ''42''])
   \<and> filter is_sync_call (snd (publishFiles example_client example_runtime
        [\<lparr> cn_file = (example_file ''A'' example_doc) \<lparr> file_pageId := Some ''42'' \<rparr>,
           cn_version = 1, cn_existingAdf = ''json-doc'', cn_parentPageId = ''9'' \<rparr>] [])) = []"
proof -
  have up: "uploadFiles example_client example_runtime ''42'' ''/v/A.md'' example_doc []
     = (Inr (Some example_doc), [CaptureMermaidCharts [], GetAttachments ''42''])"
    using example_upload [of "''/v/A.md''" "[]"] by simp
  have j: "json_stringify example_runtime (Some example_doc) = ''json-doc''"
    by (simp add: example_runtime_def example_doc_def)
  have b: "body_unchanged example_client example_runtime
      \<lparr> cn_file = (example_file ''A'' example_doc) \<lparr> file_pageId := Some ''42'' \<rparr>,
        cn_version = 1, cn_existingAdf = ''json-doc'', cn_parentPageId = ''9'' \<rparr>"
    by (simp add: body_unchanged_def example_file_def example_upload j)
  show ?thesis
    using updatePageContent_unchanged_body
      [of example_client example_runtime "''42''" "''/v/A.md''" example_doc "[]"
         "Some example_doc" "[CaptureMermaidCharts [], GetAttachments ''42'']" "''json-doc''"
         "''9''" 1 "''A''" "[''tag'']" "example_file ''A'' example_doc"
         "[\<lparr> cn_file = (example_file ''A'' example_doc) \<lparr> file_pageId := Some ''42'' \<rparr>,
           cn_version = 1, cn_existingAdf = ''json-doc'', cn_parentPageId = ''9'' \<rparr>]"]
      up j b
    by simp
qed

lemma collectResults_fold:
  "foldl (\<lambda>returnVal element.
              if successfulUpload element
              then returnVal \<lparr> successfulUploads := successfulUploads returnVal + 1 \<rparr>
              else returnVal \<lparr> failedFiles := failedFiles returnVal @
                     [\<lparr> failed_fileName = absoluteFilePath element,
                        failed_reason = (case reason element of
                                           None \<Rightarrow> ''No Reason Provided''
                                         | Some r \<Rightarrow> r) \<rparr>] \<rparr>) acc rs
   = \<lparr> successfulUploads = successfulUploads acc + length (filter successfulUpload rs),
       errorMessage = errorMessage acc,
       failedFiles = failedFiles acc @
         map (\<lambda>element. \<lparr> failed_fileName = absoluteFilePath element,
                            failed_reason = (case reason element of
                                               None \<Rightarrow> ''No Reason Provided''
                                             | Some r \<Rightarrow> r) \<rparr>)
           (filter (\<lambda>element. \<not> successfulUpload element) rs) \<rparr>"
  by (induction rs arbitrary: acc) auto

lemma errorMessage_collectResults: "errorMessage (collectResults rs) = None"
  unfolding collectResults_def collectResults_fold by simp

lemma publishFile_path:
  "publishFile client rt node log = (Inr r, log') \<Longrightarrow>
   absoluteFilePath r = file_absoluteFilePath (cn_file node)"
  by (auto simp: publishFile_def split: prod.splits sum.splits)

text \<open>
  The tasks of the pages, one after the other: the record of every page is the one its
  own task returns, at the log as the tasks before it have left it.
\<close>

lemma publishFiles_run:
  "\<exists>rs logs. publishFiles client rt nodes log = (Inr rs, last logs)
     \<and> length rs = length nodes \<and> length logs = Suc (length nodes) \<and> hd logs = log
     \<and> (\<forall>i<length nodes.
           publishFile client rt (nodes ! i) (logs ! i) = (Inr (rs ! i), logs ! Suc i))"
proof (induction nodes arbitrary: log)
  case Nil
  have "publishFiles client rt [] log = (Inr [], last [log]) \<and> length [log] = Suc 0
      \<and> hd [log] = log"
    by (simp add: return_def)
  then show ?case by (intro exI [of _ "[]"] exI [of _ "[log]"]) simp
next
  case (Cons node nodes)
  obtain r log1 where r: "publishFile client rt node log = (Inr r, log1)"
    using publishFile_returns by blast
  from Cons.IH [of log1] obtain rs logs where
    run: "publishFiles client rt nodes log1 = (Inr rs, last logs)"
    and len: "length rs = length nodes" "length logs = Suc (length nodes)"
    and hd: "hd logs = log1"
    and each: "\<And>i. i < length nodes \<Longrightarrow>
        publishFile client rt (nodes ! i) (logs ! i) = (Inr (rs ! i), logs ! Suc i)"
    by blast
  from len(2) have ne: "logs \<noteq> []" by auto
  with hd have first: "logs ! 0 = log1" by (simp add: hd_conv_nth)
  have all: "publishFiles client rt (node # nodes) log = (Inr (r # rs), last (log # logs))"
    using r run ne by (simp add: bind_def return_def)
  have step: "publishFile client rt ((node # nodes) ! i) ((log # logs) ! i)
      = (Inr ((r # rs) ! i), (log # logs) ! Suc i)"
    if "i < length (node # nodes)" for i
  proof (cases i)
    case 0
    then show ?thesis using r first by simp
  next
    case (Suc j)
    with that have "j < length nodes" by simp
    from each [OF this] show ?thesis using Suc by simp
  qed
  show ?case
    apply (rule exI [of _ "r # rs"], rule exI [of _ "log # logs"])
    apply (intro conjI allI impI)
        apply (rule all)
       apply (simp add: len)
      apply (simp add: len)
     apply simp
    apply (erule step)
    done
qed

text \<open>
  doPublish once the pages are known: it returns, with the outcome collected from the
  records of the pages it publishes.
\<close>

lemma doPublish_run:
  assumes "getContentById client log (confluenceParentId st) = Inr parentPage"
    and "page_space parentPage = Some spaceToPublishTo"
    and "getMarkdownFilesToUpload client (log @ [GetContentById (confluenceParentId st)])
        = Inr files"
    and "createFolderStructure pm convert folderFile files = Inr folderTree"
    and "createFileStructureInConfluence client blankPageAdf folderTree spaceToPublishTo
          (page_id parentPage) (page_id parentPage) False
          (log @ [GetContentById (confluenceParentId st), GetMarkdownFilesToUpload])
        = (Inr confluencePageTree, log1)"
    and "fileToPageIdMap_of (flattenTree confluencePageTree None) Map.empty
        = Inr fileToPageIdMap"
    and "resolveAllLinks st rt fileToPageIdMap (flattenTree confluencePageTree None)
        = Inr confluencePagesToPublish"
    and "publishFiles client rt
          (if truthy publishFilter
           then filter (\<lambda>n. Some (file_absoluteFilePath (cn_file n)) = publishFilter)
                  confluencePagesToPublish
           else confluencePagesToPublish) log1 = (Inr rs, log')"
  shows "doPublish client pm convert folderFile st rt blankPageAdf publishFilter log
      = (Inr (collectResults rs), log')"
  unfolding doPublish_def using assms
  by (simp add: bind_def perform_def lift_def return_def)

text \<open>
  C6. publishFile never throws: whatever its \<^verbatim>\<open>try\<close> block throws (a missing page
  identifier, the upload of assets, the serialisation, the update of the remote page,
  the label calls) becomes a record that is not successful and holds the document's
  absolute path and the stringified error; a block that returns gives a successful
  record with the same path. The tasks of all pages end, and the record of every page
  is the one its own task returns, whatever the tasks of the other pages return: the
  records are in the order of the pages, and the outcome counts the successful records
  and lists path and reason of every other one, with no error message of its own. Once
  the remote pages of the documents are known and their links resolved, doPublish
  returns, and its outcome is the one collected from the records of the pages it
  publishes.
\<close>

theorem publishFile_never_throws:
  "(\<exists>r log'. publishFile client rt node log = (Inr r, log')
       \<and> log' = snd (publishFile_try client rt node log)
       \<and> absoluteFilePath r = file_absoluteFilePath (cn_file node)
       \<and> (case fst (publishFile_try client rt node log) of
             Inl e \<Rightarrow> \<not> successfulUpload r \<and> reason r = Some (stringifyObject rt e)
           | Inr v \<Rightarrow> successfulUpload r \<and> reason r = None))
   \<and> (\<exists>rs logs. publishFiles client rt nodes log = (Inr rs, last logs)
       \<and> length rs = length nodes \<and> length logs = Suc (length nodes) \<and> hd logs = log
       \<and> (\<forall>i<length nodes.
             publishFile client rt (nodes ! i) (logs ! i) = (Inr (rs ! i), logs ! Suc i))
       \<and> map absoluteFilePath rs = map (\<lambda>n. file_absoluteFilePath (cn_file n)) nodes
       \<and> successfulUploads (collectResults rs) = length (filter successfulUpload rs)
       \<and> errorMessage (collectResults rs) = None
       \<and> failedFiles (collectResults rs)
           = map (\<lambda>element. \<lparr> failed_fileName = absoluteFilePath element,
                              failed_reason = (case reason element of
                                                 None \<Rightarrow> ''No Reason Provided''
                                               | Some r \<Rightarrow> r) \<rparr>)
               (filter (\<lambda>element. \<not> successfulUpload element) rs))
   \<and> (getContentById client log (confluenceParentId st) = Inr parentPage
       \<and> page_space parentPage = Some spaceToPublishTo
       \<and> getMarkdownFilesToUpload client (log @ [GetContentById (confluenceParentId st)])
           = Inr files
       \<and> createFolderStructure pm convert folderFile files = Inr folderTree
       \<and> createFileStructureInConfluence client blankPageAdf folderTree spaceToPublishTo
             (page_id parentPage) (page_id parentPage) False
             (log @ [GetContentById (confluenceParentId st), GetMarkdownFilesToUpload])
           = (Inr confluencePageTree, log1)
       \<and> fileToPageIdMap_of (flattenTree confluencePageTree None) Map.empty
           = Inr fileToPageIdMap
       \<and> resolveAllLinks st rt fileToPageIdMap (flattenTree confluencePageTree None)
           = Inr confluencePagesToPublish \<longrightarrow>
       (\<exists>adrFiles log'.
          publishFiles client rt
            (if truthy publishFilter
             then filter (\<lambda>n. Some (file_absoluteFilePath (cn_file n)) = publishFilter)
                    confluencePagesToPublish
             else confluencePagesToPublish) log1 = (Inr adrFiles, log')
          \<and> doPublish client pm convert folderFile st rt blankPageAdf publishFilter log
              = (Inr (collectResults adrFiles), log')))"
proof -
  have 1: "\<exists>r log'. publishFile client rt node log = (Inr r, log')
       \<and> log' = snd (publishFile_try client rt node log)
       \<and> absoluteFilePath r = file_absoluteFilePath (cn_file node)
       \<and> (case fst (publishFile_try client rt node log) of
             Inl e \<Rightarrow> \<not> successfulUpload r \<and> reason r = Some (stringifyObject rt e)
           | Inr v \<Rightarrow> successfulUpload r \<and> reason r = None)"
    by (cases "publishFile_try client rt node log"; cases "fst (publishFile_try client rt node log)")
       (auto simp: publishFile_def)
  have c: "successfulUploads (collectResults rs) = length (filter successfulUpload rs)
       \<and> errorMessage (collectResults rs) = None
       \<and> failedFiles (collectResults rs)
           = map (\<lambda>element. \<lparr> failed_fileName = absoluteFilePath element,
                              failed_reason = (case reason element of
                                                 None \<Rightarrow> ''No Reason Provided''
                                               | Some r \<Rightarrow> r) \<rparr>)
               (filter (\<lambda>element. \<not> successfulUpload element) rs)" for rs
    unfolding collectResults_def collectResults_fold by simp
  from publishFiles_run [of client rt nodes log] obtain rs logs where
    run: "publishFiles client rt nodes log = (Inr rs, last logs)"
    and len: "length rs = length nodes" "length logs = Suc (length nodes)" "hd logs = log"
    and each: "\<forall>i<length nodes.
             publishFile client rt (nodes ! i) (logs ! i) = (Inr (rs ! i), logs ! Suc i)"
    by blast
  have paths: "map absoluteFilePath rs = map (\<lambda>n. file_absoluteFilePath (cn_file n)) nodes"
  proof (rule nth_equalityI)
    show "length (map absoluteFilePath rs)
        = length (map (\<lambda>n. file_absoluteFilePath (cn_file n)) nodes)"
      using len(1) by simp
  next
    fix i
    assume "i < length (map absoluteFilePath rs)"
    then have i: "i < length nodes" using len(1) by simp
    with each have "publishFile client rt (nodes ! i) (logs ! i)
        = (Inr (rs ! i), logs ! Suc i)" by blast
    then have "absoluteFilePath (rs ! i) = file_absoluteFilePath (cn_file (nodes ! i))"
      by (rule publishFile_path)
    with i len(1) show "map absoluteFilePath rs ! i
        = map (\<lambda>n. file_absoluteFilePath (cn_file n)) nodes ! i"
      by simp
  qed
  have 2: "\<exists>rs logs. publishFiles client rt nodes log = (Inr rs, last logs)
       \<and> length rs = length nodes \<and> length logs = Suc (length nodes) \<and> hd logs = log
       \<and> (\<forall>i<length nodes.
             publishFile client rt (nodes ! i) (logs ! i) = (Inr (rs ! i), logs ! Suc i))
       \<and> map absoluteFilePath rs = map (\<lambda>n. file_absoluteFilePath (cn_file n)) nodes
       \<and> successfulUploads (collectResults rs) = length (filter successfulUpload rs)
       \<and> errorMessage (collectResults rs) = None
       \<and> failedFiles (collectResults rs)
           = map (\<lambda>element. \<lparr> failed_fileName = absoluteFilePath element,
                              failed_reason = (case reason element of
                                                 None \<Rightarrow> ''No Reason Provided''
                                               | Some r \<Rightarrow> r) \<rparr>)
               (filter (\<lambda>element. \<not> successfulUpload element) rs)"
    apply (rule exI [of _ rs], rule exI [of _ logs])
    apply (intro conjI)
           apply (rule run)
          apply (rule len(1))
         apply (rule len(2))
        apply (rule len(3))
       apply (rule each)
      apply (rule paths)
     apply (rule c [THEN conjunct1])
    apply (rule c [THEN conjunct2, THEN conjunct1])
    apply (rule c [THEN conjunct2, THEN conjunct2])
    done
  have 3: "\<exists>adrFiles log'.
          publishFiles client rt
            (if truthy publishFilter
             then filter (\<lambda>n. Some (file_absoluteFilePath (cn_file n)) = publishFilter)
                    confluencePagesToPublish
             else confluencePagesToPublish) log1 = (Inr adrFiles, log')
          \<and> doPublish client pm convert folderFile st rt blankPageAdf publishFilter log
              = (Inr (collectResults adrFiles), log')"
    if h: "getContentById client log (confluenceParentId st) = Inr parentPage"
      "page_space parentPage = Some spaceToPublishTo"
      "getMarkdownFilesToUpload client (log @ [GetContentById (confluenceParentId st)])
           = Inr files"
      "createFolderStructure pm convert folderFile files = Inr folderTree"
      "createFileStructureInConfluence client blankPageAdf folderTree spaceToPublishTo
             (page_id parentPage) (page_id parentPage) False
             (log @ [GetContentById (confluenceParentId st), GetMarkdownFilesToUpload])
           = (Inr confluencePageTree, log1)"
      "fileToPageIdMap_of (flattenTree confluencePageTree None) Map.empty
           = Inr fileToPageIdMap"
      "resolveAllLinks st rt fileToPageIdMap (flattenTree confluencePageTree None)
           = Inr confluencePagesToPublish"
  proof -
    define pages where "pages =
      (if truthy publishFilter
       then filter (\<lambda>n. Some (file_absoluteFilePath (cn_file n)) = publishFilter)
              confluencePagesToPublish
       else confluencePagesToPublish)"
    from publishFiles_run [of client rt pages log1] obtain adrFiles logs where
      p: "publishFiles client rt pages log1 = (Inr adrFiles, last logs)"
      by blast
    from doPublish_run [OF h p [unfolded pages_def]] p [unfolded pages_def]
    show ?thesis by blast
  qed
  show ?thesis
    apply (rule conjI, rule 1)
    apply (rule conjI, rule 2)
    apply (rule impI, elim conjE, rule 3)
          apply assumption+
    done
qed
lemma js_add_one: "js_add 1 1 = 2"
  by (simp add: js_add_def double_round_def double_round_nat_def double_unit_small)

lemma example_tree:
  "createFolderStructure example_paths example_convert example_doc example_files
     = Inr (TreeNode ''/v''
         [TreeNode ''a.md'' [] (Some ((example_published ''/v/a.md'' ''a.md'' [])
             \<lparr> file_pageId := None, file_spaceKey := None \<rparr>)),
          TreeNode ''b.md'' [] (Some ((example_published ''/v/b.md'' ''b.md'' [])
             \<lparr> file_pageId := None, file_spaceKey := None \<rparr>)),
          TreeNode ''c.md'' [] (Some ((example_published ''/v/c.md'' ''c.md'' [])
             \<lparr> file_pageId := None, file_spaceKey := None \<rparr>))]
         (Some \<lparr> file_folderName = ''/v'', file_absoluteFilePath = ''/v//v'',
                  file_fileName = ''/v.md'', file_contents = example_doc,
                  file_pageTitle = ''/v'', file_frontmatter = [], file_tags = [],
                  file_pageId = None, file_dontChangeParentPageId = False,
                  file_spaceKey = None \<rparr>))"
  by code_simp

lemma example_page_tree:
  "createFileStructureInConfluence example_failing_client ''blank''
     (TreeNode ''/v''
         [TreeNode ''a.md'' [] (Some ((example_published ''/v/a.md'' ''a.md'' [])
             \<lparr> file_pageId := None, file_spaceKey := None \<rparr>)),
          TreeNode ''b.md'' [] (Some ((example_published ''/v/b.md'' ''b.md'' [])
             \<lparr> file_pageId := None, file_spaceKey := None \<rparr>)),
          TreeNode ''c.md'' [] (Some ((example_published ''/v/c.md'' ''c.md'' [])
             \<lparr> file_pageId := None, file_spaceKey := None \<rparr>))]
         (Some \<lparr> file_folderName = ''/v'', file_absoluteFilePath = ''/v//v'',
                  file_fileName = ''/v.md'', file_contents = example_doc,
                  file_pageTitle = ''/v'', file_frontmatter = [], file_tags = [],
                  file_pageId = None, file_dontChangeParentPageId = False,
                  file_spaceKey = None \<rparr>))
     ''SP'' ''9'' ''9'' False [GetContentById ''9'', GetMarkdownFilesToUpload]
   = (Inr (ConfluenceTreeNode
             \<lparr> file_folderName = ''/v'', file_absoluteFilePath = ''/v//v'',
               file_fileName = ''/v.md'', file_contents = example_doc,
               file_pageTitle = ''/v'', file_frontmatter = [], file_tags = [],
               file_pageId = Some ''9'', file_dontChangeParentPageId = False,
               file_spaceKey = Some ''SP'' \<rparr> 0 []
             [ConfluenceTreeNode (example_published ''/v/a.md'' ''a.md'' ''id-a.md'') 1 [] [],
              ConfluenceTreeNode (example_published ''/v/b.md'' ''b.md'' ''id-b.md'') 1 [] [],
              ConfluenceTreeNode (example_published ''/v/c.md'' ''c.md'' ''id-c.md'') 1 [] []]),
      [GetContentById ''9'', GetMarkdownFilesToUpload,
       GetContent ''SP'' ''a.md'',
       CreateContent \<lparr> cr_spaceKey = ''SP'', cr_ancestors = [''9''], cr_title = ''a.md'',
                       cr_body = ''blank'' \<rparr>,
       UpdateMarkdownPageId ''/v/a.md'' ''id-a.md'',
       GetContent ''SP'' ''b.md'',
       CreateContent \<lparr> cr_spaceKey = ''SP'', cr_ancestors = [''9''], cr_title = ''b.md'',
                       cr_body = ''blank'' \<rparr>,
       UpdateMarkdownPageId ''/v/b.md'' ''id-b.md'',
       GetContent ''SP'' ''c.md'',
       CreateContent \<lparr> cr_spaceKey = ''SP'', cr_ancestors = [''9''], cr_title = ''c.md'',
                       cr_body = ''blank'' \<rparr>,
       UpdateMarkdownPageId ''/v/c.md'' ''id-c.md''])"
  by (simp add: all_cons_def ensurePageExists_def bind_def perform_def return_def throw_def
        truthy_def example_failing_client_def example_client_def example_page_def
        example_published_def version_or_1_def)

lemma example_flat:
  "flattenTree (ConfluenceTreeNode
             \<lparr> file_folderName = ''/v'', file_absoluteFilePath = ''/v//v'',
               file_fileName = ''/v.md'', file_contents = example_doc,
               file_pageTitle = ''/v'', file_frontmatter = [], file_tags = [],
               file_pageId = Some ''9'', file_dontChangeParentPageId = False,
               file_spaceKey = Some ''SP'' \<rparr> 0 []
             [ConfluenceTreeNode (example_published ''/v/a.md'' ''a.md'' ''id-a.md'') 1 [] [],
              ConfluenceTreeNode (example_published ''/v/b.md'' ''b.md'' ''id-b.md'') 1 [] [],
              ConfluenceTreeNode (example_published ''/v/c.md'' ''c.md'' ''id-c.md'') 1 [] []])
     None = example_pages"
  by (simp add: example_pages_def truthy_def)

lemma example_map:
  "fileToPageIdMap_of example_pages Map.empty
     = Inr [''a.md'' \<mapsto> example_published ''/v/a.md'' ''a.md'' ''id-a.md'',
            ''b.md'' \<mapsto> example_published ''/v/b.md'' ''b.md'' ''id-b.md'',
            ''c.md'' \<mapsto> example_published ''/v/c.md'' ''c.md'' ''id-c.md'']"
  by (simp add: example_pages_def example_published_def truthy_def)

lemma example_links: "resolveAllLinks example_settings example_runtime m example_pages
     = Inr example_pages"
  by (simp add: example_pages_def example_published_def resolveLinks_def traverse_def
        example_runtime_def example_doc_def traverseNode_numeral visitor_for_def)

lemma example_publish:
  "publishFiles example_failing_client example_runtime example_pages log
     = (Inr [\<lparr> successfulUpload = True, absoluteFilePath = ''/v/a.md'', reason = None \<rparr>,
             \<lparr> successfulUpload = False, absoluteFilePath = ''/v/b.md'',
               reason = Some ''attachments unavailable'' \<rparr>,
             \<lparr> successfulUpload = False, absoluteFilePath = ''/v/c.md'',
               reason = Some ''conflict'' \<rparr>],
        log @ [CaptureMermaidCharts [], GetAttachments ''id-a.md'',
               UpdateContent \<lparr> up_id = ''id-a.md'', up_ancestors = Some [''9''],
                 up_version = 2, up_title = ''a.md'', up_body = ''json-doc'' \<rparr>,
               GetLabelsForContent ''id-a.md'',
               CaptureMermaidCharts [], GetAttachments ''id-b.md'',
               CaptureMermaidCharts [], GetAttachments ''id-c.md'',
               UpdateContent \<lparr> up_id = ''id-c.md'', up_ancestors = Some [''9''],
                 up_version = 2, up_title = ''c.md'', up_body = ''json-doc'' \<rparr>])"
  by (simp add: example_pages_def example_published_def publishFile_def publishFile_try_def
        updatePageContent_def updateContentDetails_def js_add_one
        uploadFiles_def uploadAssets_def bind_def lift_def perform_def return_def throw_def
        filter_adf_def traverse_def example_runtime_def example_failing_client_def
        example_client_def example_doc_def
        filterNode_numeral traverseNode_numeral mermaidNodesToUpload_def set_values_def
        rewrite_visitors_def visitor_for_def is_media_def is_mermaid_def attr_def
        currentAttachments_of_def truthy_def Let_def labelsToAdd_def)

theorem publishFile_never_throws_witness:
  "\<exists>log'. doPublish example_failing_client example_paths example_convert example_doc
       example_settings example_runtime ''blank'' None []
     = (Inr \<lparr> successfulUploads = 1, errorMessage = None,
              failedFiles = [\<lparr> failed_fileName = ''/v/b.md'',
                                failed_reason = ''attachments unavailable'' \<rparr>,
                             \<lparr> failed_fileName = ''/v/c.md'',
                                failed_reason = ''conflict'' \<rparr>] \<rparr>, log')"
proof -
  define folderTree where "folderTree = TreeNode ''/v''
         [TreeNode ''a.md'' [] (Some ((example_published ''/v/a.md'' ''a.md'' [])
             \<lparr> file_pageId := None, file_spaceKey := None \<rparr>)),
          TreeNode ''b.md'' [] (Some ((example_published ''/v/b.md'' ''b.md'' [])
             \<lparr> file_pageId := None, file_spaceKey := None \<rparr>)),
          TreeNode ''c.md'' [] (Some ((example_published ''/v/c.md'' ''c.md'' [])
             \<lparr> file_pageId := None, file_spaceKey := None \<rparr>))]
         (Some \<lparr> file_folderName = ''/v'', file_absoluteFilePath = ''/v//v'',
                  file_fileName = ''/v.md'', file_contents = example_doc,
                  file_pageTitle = ''/v'', file_frontmatter = [], file_tags = [],
                  file_pageId = None, file_dontChangeParentPageId = False,
                  file_spaceKey = None \<rparr>)"
  define pageTree where "pageTree = ConfluenceTreeNode
             \<lparr> file_folderName = ''/v'', file_absoluteFilePath = ''/v//v'',
               file_fileName = ''/v.md'', file_contents = example_doc,
               file_pageTitle = ''/v'', file_frontmatter = [], file_tags = [],
               file_pageId = Some ''9'', file_dontChangeParentPageId = False,
               file_spaceKey = Some ''SP'' \<rparr> 0 []
             [ConfluenceTreeNode (example_published ''/v/a.md'' ''a.md'' ''id-a.md'') 1 [] [],
              ConfluenceTreeNode (example_published ''/v/b.md'' ''b.md'' ''id-b.md'') 1 [] [],
              ConfluenceTreeNode (example_published ''/v/c.md'' ''c.md'' ''id-c.md'') 1 [] []]"
  define log1 where "log1 = [GetContentById ''9'', GetMarkdownFilesToUpload,
       GetContent ''SP'' ''a.md'',
       CreateContent \<lparr> cr_spaceKey = ''SP'', cr_ancestors = [''9''], cr_title = ''a.md'',
                       cr_body = ''blank'' \<rparr>,
       UpdateMarkdownPageId ''/v/a.md'' ''id-a.md'',
       GetContent ''SP'' ''b.md'',
       CreateContent \<lparr> cr_spaceKey = ''SP'', cr_ancestors = [''9''], cr_title = ''b.md'',
                       cr_body = ''blank'' \<rparr>,
       UpdateMarkdownPageId ''/v/b.md'' ''id-b.md'',
       GetContent ''SP'' ''c.md'',
       CreateContent \<lparr> cr_spaceKey = ''SP'', cr_ancestors = [''9''], cr_title = ''c.md'',
                       cr_body = ''blank'' \<rparr>,
       UpdateMarkdownPageId ''/v/c.md'' ''id-c.md'']"
  have h1: "getContentById example_failing_client [] (confluenceParentId example_settings)
      = Inr (example_page ''9'' [])"
    by (simp add: example_failing_client_def example_client_def example_settings_def)
  have h2: "page_space (example_page ''9'' []) = Some ''SP''"
    by (simp add: example_page_def)
  have h3: "getMarkdownFilesToUpload example_failing_client
      ([] @ [GetContentById (confluenceParentId example_settings)]) = Inr example_files"
    by (simp add: example_failing_client_def)
  have h4: "createFolderStructure example_paths example_convert example_doc example_files
      = Inr folderTree"
    unfolding folderTree_def by (rule example_tree)
  have h5: "createFileStructureInConfluence example_failing_client ''blank'' folderTree ''SP''
      (page_id (example_page ''9'' [])) (page_id (example_page ''9'' [])) False
      ([] @ [GetContentById (confluenceParentId example_settings), GetMarkdownFilesToUpload])
      = (Inr pageTree, log1)"
    unfolding folderTree_def pageTree_def log1_def
    using example_page_tree by (simp add: example_page_def example_settings_def)
  have flat: "flattenTree pageTree None = example_pages"
    unfolding pageTree_def by (rule example_flat)
  have h6: "fileToPageIdMap_of (flattenTree pageTree None) Map.empty
      = Inr [''a.md'' \<mapsto> example_published ''/v/a.md'' ''a.md'' ''id-a.md'',
             ''b.md'' \<mapsto> example_published ''/v/b.md'' ''b.md'' ''id-b.md'',
             ''c.md'' \<mapsto> example_published ''/v/c.md'' ''c.md'' ''id-c.md'']"
    unfolding flat by (rule example_map)
  have h7: "resolveAllLinks example_settings example_runtime
      [''a.md'' \<mapsto> example_published ''/v/a.md'' ''a.md'' ''id-a.md'',
       ''b.md'' \<mapsto> example_published ''/v/b.md'' ''b.md'' ''id-b.md'',
       ''c.md'' \<mapsto> example_published ''/v/c.md'' ''c.md'' ''id-c.md'']
      (flattenTree pageTree None) = Inr example_pages"
    unfolding flat by (rule example_links)
  note pre = conjI [OF h1 conjI [OF h2 conjI [OF h3 conjI [OF h4 conjI [OF h5
    conjI [OF h6 h7]]]]]]
  from publishFile_never_throws
    [where rt = example_runtime and publishFilter = None,
     THEN conjunct2, THEN conjunct2, THEN mp, OF pre]
  obtain adrFiles log' where
    p: "publishFiles example_failing_client example_runtime example_pages log1
        = (Inr adrFiles, log')"
    and d: "doPublish example_failing_client example_paths example_convert example_doc
       example_settings example_runtime ''blank'' None [] = (Inr (collectResults adrFiles), log')"
    by (auto simp: truthy_def)
  from p have "adrFiles
      = [\<lparr> successfulUpload = True, absoluteFilePath = ''/v/a.md'', reason = None \<rparr>,
         \<lparr> successfulUpload = False, absoluteFilePath = ''/v/b.md'',
           reason = Some ''attachments unavailable'' \<rparr>,
         \<lparr> successfulUpload = False, absoluteFilePath = ''/v/c.md'',
           reason = Some ''conflict'' \<rparr>]"
    by (simp add: example_publish)
  then have "collectResults adrFiles
      = \<lparr> successfulUploads = 1, errorMessage = None,
          failedFiles = [\<lparr> failed_fileName = ''/v/b.md'',
                            failed_reason = ''attachments unavailable'' \<rparr>,
                         \<lparr> failed_fileName = ''/v/c.md'',
                            failed_reason = ''conflict'' \<rparr>] \<rparr>"
    by (simp add: collectResults_def)
  with d show ?thesis by auto
qed

subsection \<open>The two visitors of the rewrite\<close>

lemma media_visitor_not_false: "media_visitor m n \<noteq> Inr VFalse"
  by (simp add: media_visitor_def split: option.splits)

lemma codeBlock_visitor_not_false: "codeBlock_visitor rt m n \<noteq> Inr VFalse"
  by (simp add: codeBlock_visitor_def Let_def split: option.splits)

lemma rewrite_visitor_not_false:
  "visitor_for (rewrite_visitors rt m) t = Some v \<Longrightarrow> v n \<noteq> Inr VFalse"
  by (auto simp: visitor_for_def rewrite_visitors_def media_visitor_not_false
        codeBlock_visitor_not_false split: if_splits)

lemma rewrite_never_removes: "traverseNode d (rewrite_visitors rt m) n \<noteq> Inr None"
proof (cases d)
  case 0
  then show ?thesis by simp
next
  case (Suc k)
  show ?thesis
  proof (cases "visitor_for (rewrite_visitors rt m) (node_type n)")
    case None
    then show ?thesis
      by (simp add: Suc Let_def split: option.splits sum.splits)
  next
    case (Some v)
    have "v n \<noteq> Inr VFalse" using Some by (rule rewrite_visitor_not_false)
    then show ?thesis
      by (cases "v n") (auto simp: Suc Some Let_def
            split: option.splits sum.splits visit_result.splits)
  qed
qed

lemma rewrite_keeps_length:
  "traverseContent d (rewrite_visitors rt m) cs = Inr cs' \<Longrightarrow> length cs' = length cs"
proof (induction cs arbitrary: cs')
  case Nil
  then show ?case by simp
next
  case (Cons c cs)
  from Cons.prems obtain r rs where
    r: "traverseNode d (rewrite_visitors rt m) c = Inr r"
    and rs: "traverseContent d (rewrite_visitors rt m) cs = Inr rs"
    and cs': "cs' = (case r of None \<Rightarrow> rs | Some c' \<Rightarrow> c' # rs)"
    by (auto split: sum.splits)
  from r rewrite_never_removes [of d rt m c] obtain c' where "r = Some c'"
    by (cases r) auto
  with cs' Cons.IH [OF rs] show ?case by simp
qed


subsection \<open>Depth of the call stack\<close>

text \<open>
  A traversal returns when the stack holds as many nested calls as the document is deep:
  \<open>filter\<close> always, and \<open>traverse\<close> with the two visitors of the rewrite, which are tame.
\<close>

lemma foldr_max_ge: "x \<in> set xs \<Longrightarrow> x \<le> foldr max xs (0::nat)"
  by (induction xs) auto

lemma child_height:
  "node_content n = Some cs \<Longrightarrow> c \<in> set cs \<Longrightarrow> Suc (adf_height c) \<le> adf_height n"
proof -
  assume a: "node_content n = Some cs" and b: "c \<in> set cs"
  from b have "adf_height c \<in> set (map adf_height cs)" by simp
  then have "adf_height c \<le> foldr max (map adf_height cs) 0" by (rule foldr_max_ge)
  with a show ?thesis by (cases n) auto
qed

lemma height_pos: "0 < adf_height n"
  by (cases n) (auto split: option.splits)

lemma height_content_eq:
  "node_content m = node_content n \<Longrightarrow> adf_height m = adf_height n"
  by (cases m; cases n) auto

lemma traverse_enough_depth:
  assumes "tame vs"
  shows "adf_height n \<le> d \<Longrightarrow> \<exists>n'. traverseNode d vs n = Inr (Some n')"
proof (induction d arbitrary: n)
  case 0
  with height_pos [of n] show ?case by simp
next
  case (Suc d)
  have kids: "\<exists>cs'. traverseContent d vs cs = Inr cs'"
    if "\<And>c. c \<in> set cs \<Longrightarrow> adf_height c \<le> d" for cs
    using that
  proof (induction cs)
    case Nil
    show ?case by simp
  next
    case (Cons c cs)
    from Suc.IH [of c] Cons.prems obtain c' where "traverseNode d vs c = Inr (Some c')"
      by auto
    moreover from Cons obtain cs' where "traverseContent d vs cs = Inr cs'" by auto
    ultimately show ?case by simp
  qed
  have step: "\<exists>n'. (case node_content newNode of
                None \<Rightarrow> Inr (Some newNode)
              | Some cs \<Rightarrow>
                  (case traverseContent d vs cs of
                     Inl e \<Rightarrow> Inl e
                   | Inr cs' \<Rightarrow>
                       Inr (Some (Node (node_type newNode) (node_attrs newNode) (Some cs')
                                    (node_marks newNode) (node_text newNode))))) = Inr (Some n')"
    if h: "adf_height newNode \<le> Suc d" for newNode
  proof (cases "node_content newNode")
    case None
    then show ?thesis by simp
  next
    case (Some cs)
    have "\<And>c. c \<in> set cs \<Longrightarrow> adf_height c \<le> d"
      using child_height [OF Some] h by fastforce
    from kids [OF this] obtain cs' where "traverseContent d vs cs = Inr cs'" by blast
    with Some show ?thesis by simp
  qed
  show ?case
  proof (cases "visitor_for vs (node_type n)")
    case None
    with step [of n] Suc.prems show ?thesis by (simp add: Let_def)
  next
    case (Some v)
    with assms obtain r where r: "v n = Inr r" "r \<noteq> VFalse"
      "\<And>m. r = VNode m \<Longrightarrow> adf_height m \<le> adf_height n"
      unfolding tame_def by blast
    show ?thesis
    proof (cases r)
      case VUndefined
      with step [of n] Suc.prems Some r(1) show ?thesis by (simp add: Let_def)
    next
      case VFalse
      with r(2) show ?thesis by simp
    next
      case (VNode m)
      with r(3) Suc.prems have "adf_height m \<le> Suc d" by fastforce
      from step [OF this] Some r(1) VNode show ?thesis by (simp add: Let_def)
    qed
  qed
qed

lemma filter_enough_depth:
  "adf_height n \<le> d \<Longrightarrow> \<exists>ns. filterNode d P n = Inr ns"
proof (induction d arbitrary: n)
  case 0
  with height_pos [of n] show ?case by simp
next
  case (Suc d)
  have kids: "\<exists>ns. filterContent d P cs = Inr ns"
    if "\<And>c. c \<in> set cs \<Longrightarrow> adf_height c \<le> d" for cs
    using that
  proof (induction cs)
    case Nil
    show ?case by simp
  next
    case (Cons c cs)
    from Suc.IH [of c] Cons.prems obtain a where "filterNode d P c = Inr a" by auto
    moreover from Cons obtain b where "filterContent d P cs = Inr b" by auto
    ultimately show ?case by simp
  qed
  show ?case
  proof (cases "node_content n")
    case None
    then show ?thesis by simp
  next
    case (Some cs)
    have "\<And>c. c \<in> set cs \<Longrightarrow> adf_height c \<le> d"
      using child_height [OF Some] Suc.prems by fastforce
    from kids [OF this] obtain ns where "filterContent d P cs = Inr ns" by blast
    with Some show ?thesis by simp
  qed
qed

lemma media_visitor_height:
  "media_visitor m n = Inr (VNode k) \<Longrightarrow> adf_height k = adf_height n"
  by (auto simp: media_visitor_def split: if_splits option.splits intro: height_content_eq)

lemma codeBlock_visitor_height:
  "codeBlock_visitor rt m n = Inr (VNode k) \<Longrightarrow> adf_height k \<le> adf_height n"
proof -
  assume a: "codeBlock_visitor rt m n = Inr (VNode k)"
  then have t: "truthy (first_text n)"
    by (auto simp: codeBlock_visitor_def Let_def split: if_splits)
  then obtain c cs where c: "node_content n = Some (c # cs)"
    by (cases n) (auto simp: first_text_def truthy_def split: option.splits list.splits)
  have "2 \<le> adf_height n"
    using child_height [OF c, of c] height_pos [of c] by simp
  moreover have "adf_height k = 2"
    using a c by (auto simp: codeBlock_visitor_def Let_def split: if_splits option.splits)
  ultimately show ?thesis by simp
qed

lemma rewrite_visitors_tame: "tame (rewrite_visitors rt m)"
  unfolding tame_def
proof (intro allI impI)
  fix t v n
  assume "visitor_for (rewrite_visitors rt m) t = Some v"
  then consider "v = media_visitor m" | "v = codeBlock_visitor rt m"
    by (auto simp: visitor_for_def rewrite_visitors_def split: if_splits)
  then show "\<exists>r. v n = Inr r \<and> r \<noteq> VFalse \<and> (\<forall>k. r = VNode k \<longrightarrow> adf_height k \<le> adf_height n)"
  proof cases
    case 1
    have "\<exists>r. media_visitor m n = Inr r"
      by (simp add: media_visitor_def split: option.splits)
    then obtain r where r: "media_visitor m n = Inr r" by blast
    with media_visitor_not_false [of m n] media_visitor_height [of m n] 1 show ?thesis
      by auto
  next
    case 2
    have "\<exists>r. codeBlock_visitor rt m n = Inr r"
      by (simp add: codeBlock_visitor_def Let_def split: option.splits)
    then obtain r where r: "codeBlock_visitor rt m n = Inr r" by blast
    with codeBlock_visitor_not_false [of rt m n] codeBlock_visitor_height [of rt m n] 2
    show ?thesis by auto
  qed
qed

lemma rewrite_enough_depth:
  "adf_height adr \<le> depth \<Longrightarrow>
   \<exists>afterAdf. traverse depth adr (rewrite_visitors rt imageMap) = Inr (Some afterAdf)"
  unfolding traverse_def by (rule traverse_enough_depth [OF rewrite_visitors_tame])


subsection \<open>The rewrite at a place of the body\<close>

lemma rewrite_never_false: "never_false (rewrite_visitors rt m)"
  unfolding never_false_def using rewrite_visitor_not_false by blast

lemma media_visitor_result:
  "case media_visitor m n of
     Inl e \<Rightarrow> False
   | Inr VUndefined \<Rightarrow> True
   | Inr VFalse \<Rightarrow> False
   | Inr (VNode k) \<Rightarrow> node_content k = node_content n"
  by (simp add: media_visitor_def split: option.split)

lemma rewrite_after_visit_content:
  assumes "\<not> is_mermaid n"
  shows "node_content (after_visit (rewrite_visitors rt m) n) = node_content n"
proof -
  consider (media) "node_type n = ''media''"
    | (code) "node_type n = ''codeBlock''" | (other) "node_type n \<noteq> ''media''"
      "node_type n \<noteq> ''codeBlock''"
    by blast
  then show ?thesis
  proof cases
    case media
    then have a: "after_visit (rewrite_visitors rt m) n
        = (case media_visitor m n of Inr (VNode k) \<Rightarrow> k | other \<Rightarrow> n)"
      by (simp add: after_visit_def visitor_for_def rewrite_visitors_def)
    show ?thesis
      unfolding a using media_visitor_result [where m = m and n = n]
      by (cases "media_visitor m n") (auto split: visit_result.splits)
  next
    case code
    with assms have "attr n ''language'' \<noteq> Some (JStr ''mermaid'')"
      by (simp add: is_mermaid_def)
    then have "codeBlock_visitor rt m n = Inr VUndefined"
      by (simp add: codeBlock_visitor_def)
    with code show ?thesis
      by (simp add: after_visit_def visitor_for_def rewrite_visitors_def)
  next
    case other
    then show ?thesis
      by (simp add: after_visit_def visitor_for_def rewrite_visitors_def)
  qed
qed

lemma rewrite_content_kept:
  "node_at n p = Some k \<Longrightarrow> \<not> under_mermaid n p \<Longrightarrow>
   content_kept_above (rewrite_visitors rt m) n p"
proof (induction p arbitrary: n)
  case Nil
  show ?case by simp
next
  case (Cons i p)
  from Cons.prems(1) obtain cs where cs: "node_content n = Some cs" "i < length cs"
    "node_at (cs ! i) p = Some k"
    by (auto split: option.splits if_splits)
  from Cons.prems(2) cs have nm: "\<not> is_mermaid n" and below: "\<not> under_mermaid (cs ! i) p"
    by auto
  from Cons.IH [OF cs(3) below] cs rewrite_after_visit_content [OF nm, of rt m]
  show ?case by simp
qed

text \<open>The rewrite leaves a plain node as it is.\<close>

lemma plain_type: "plain n \<Longrightarrow> node_type n \<noteq> ''media'' \<and> node_type n \<noteq> ''codeBlock''"
  by (cases n) simp

lemma plain_children: "plain n \<Longrightarrow> node_content n = Some cs \<Longrightarrow> list_all plain cs"
  by (cases n) simp

lemma plain_unchanged:
  "plain n \<Longrightarrow> traverseNode d (rewrite_visitors rt m) n = Inr r \<Longrightarrow> r = Some n"
proof (induction d arbitrary: n r)
  case 0
  then show ?case by simp
next
  case (Suc d)
  have kids: "cs' = cs"
    if "list_all plain cs" and "traverseContent d (rewrite_visitors rt m) cs = Inr cs'"
    for cs cs'
    using that
  proof (induction cs arbitrary: cs')
    case Nil
    then show ?case by simp
  next
    case (Cons c cs)
    from Cons.prems(2) obtain r rs where
      r: "traverseNode d (rewrite_visitors rt m) c = Inr r"
      and rs: "traverseContent d (rewrite_visitors rt m) cs = Inr rs"
      and cs': "cs' = (case r of None \<Rightarrow> rs | Some c' \<Rightarrow> c' # rs)"
      by (auto split: sum.splits)
    from Cons.prems(1) have "plain c" "list_all plain cs" by simp_all
    with Suc.IH [OF _ r] Cons.IH [OF _ rs] cs' show ?case by simp
  qed
  from plain_type [OF Suc.prems(1)] have
    nv: "visitor_for (rewrite_visitors rt m) (node_type n) = None"
    by (simp add: visitor_for_def rewrite_visitors_def)
  show ?case
  proof (cases "node_content n")
    case None
    with Suc.prems(2) nv show ?thesis by simp
  next
    case (Some cs)
    with Suc.prems(2) nv obtain cs' where
      t: "traverseContent d (rewrite_visitors rt m) cs = Inr cs'"
      and r: "r = Some (Node (node_type n) (node_attrs n) (Some cs') (node_marks n)
                 (node_text n))"
      by (auto split: sum.splits)
    from kids [OF plain_children [OF Suc.prems(1) Some] t] have "cs' = cs" .
    with r Some show ?thesis by (cases n) simp
  qed
qed

lemma plain_content_unchanged:
  "list_all plain cs \<Longrightarrow> traverseContent d (rewrite_visitors rt m) cs = Inr cs' \<Longrightarrow> cs' = cs"
proof (induction cs arbitrary: cs')
  case Nil
  then show ?case by simp
next
  case (Cons c cs)
  from Cons.prems(2) obtain r rs where
    r: "traverseNode d (rewrite_visitors rt m) c = Inr r"
    and rs: "traverseContent d (rewrite_visitors rt m) cs = Inr rs"
    and cs': "cs' = (case r of None \<Rightarrow> rs | Some c' \<Rightarrow> c' # rs)"
    by (auto split: sum.splits)
  from Cons.prems(1) have "plain c" "list_all plain cs" by simp_all
  with plain_unchanged [OF _ r] Cons.IH [OF _ rs] cs' show ?case by simp
qed

text \<open>
  A node that its visitor leaves alone, at a place that is not under a mermaid block,
  stands at that place after the rewrite: with its type, attributes, marks and text, and
  unchanged altogether when its content is plain.
\<close>

lemma rewrite_at_path:
  assumes "traverse d adr (rewrite_visitors rt m) = Inr r"
    and "node_at adr p = Some n"
    and "\<not> under_mermaid adr p"
    and "after_visit (rewrite_visitors rt m) n = n"
  shows "\<exists>afterAdf n'. r = Some afterAdf \<and> node_at afterAdf p = Some n'
     \<and> node_type n' = node_type n \<and> node_attrs n' = node_attrs n
     \<and> node_marks n' = node_marks n \<and> node_text n' = node_text n
     \<and> (plain_content n \<longrightarrow> n' = n)"
proof -
  define vs where "vs = rewrite_visitors rt m"
  have nf: "never_false vs" unfolding vs_def by (rule rewrite_never_false)
  from assms(1) have t: "traverseNode d vs adr = Inr r" by (simp add: traverse_def vs_def)
  with never_false_not_removed [OF nf, of d adr] obtain afterAdf where
    a: "r = Some afterAdf" by (cases r) auto
  have kept: "content_kept_above vs adr p"
    unfolding vs_def using assms(2,3) by (rule rewrite_content_kept)
  from traverse_at_path [OF nf t [unfolded a] assms(2) kept] obtain k n' where
    n': "node_at afterAdf p = Some n'" and tn: "traverseNode k vs n = Inr (Some n')"
    by blast
  have av: "after_visit vs n = n" using assms(4) by (simp add: vs_def)
  note d = traverseNode_SomeD [OF tn, unfolded av]
  from d have fields: "node_type n' = node_type n" "node_attrs n' = node_attrs n"
    "node_marks n' = node_marks n" "node_text n' = node_text n"
    by simp_all
  have same: "n' = n" if pc: "plain_content n"
  proof (cases "node_content n")
    case None
    with d show ?thesis by simp
  next
    case (Some cs)
    with d obtain j cs' where c: "traverseContent j vs cs = Inr cs'"
      and c': "node_content n' = Some cs'"
      by auto
    from pc Some have "list_all plain cs" by (simp add: plain_content_def)
    from plain_content_unchanged [OF this c [unfolded vs_def]] have "cs' = cs" .
    with c' Some fields show ?thesis by (intro adf.expand) simp
  qed
  from a n' fields same show ?thesis by simp
qed

subsection \<open>The phases of uploadFiles\<close>

text \<open>
  When the assets of a page have been uploaded the rewrite returns: \<open>filter\<close> has walked
  the whole document within the call stack, and the rewrite goes no deeper.
\<close>

lemma uploadFiles_after_assets:
  assumes "uploadAssets client rt pid path adr log = (Inr im, log1)"
  shows "\<exists>afterAdf. traverse (stack_depth rt) adr (rewrite_visitors rt im) = Inr (Some afterAdf)
     \<and> uploadFiles client rt pid path adr log = (Inr (Some afterAdf), log1)"
proof -
  from assms obtain mediaNodes l where
    "lift (filter_adf (stack_depth rt) adr is_media) log = (Inr mediaNodes, l)"
    unfolding uploadAssets_def by (elim bind_InrE)
  then have "filterNode (stack_depth rt) is_media adr = Inr mediaNodes"
    by (simp add: lift_def filter_adf_def)
  then have "adf_height adr \<le> stack_depth rt" by (rule filter_depth)
  from rewrite_enough_depth [OF this] obtain afterAdf where
    t: "traverse (stack_depth rt) adr (rewrite_visitors rt im) = Inr (Some afterAdf)"
    by blast
  with assms have "uploadFiles client rt pid path adr log = (Inr (Some afterAdf), log1)"
    by (simp add: uploadFiles_def bind_def lift_def)
  with t show ?thesis by blast
qed


lemma uploadAssets_InrD:
  assumes "uploadAssets client rt pid path adr log = (Inr im, log')"
  shows "\<exists>mediaNodes mermaidNodes imgs atts im1 l3.
      filter_adf (stack_depth rt) adr is_media = Inr mediaNodes
    \<and> filter_adf (stack_depth rt) adr is_mermaid = Inr mermaidNodes
    \<and> captureMermaidCharts client log (mermaidNodesToUpload rt mermaidNodes) = Inr imgs
    \<and> getAttachments client
        (log @ [CaptureMermaidCharts (mermaidNodesToUpload rt mermaidNodes)]) pid = Inr atts
    \<and> uploadImages client rt pid path (currentAttachments_of atts)
        (set_values (map (\<lambda>node. attr node ''url'') mediaNodes)) (\<lambda>k. None)
        (log @ [CaptureMermaidCharts (mermaidNodesToUpload rt mermaidNodes),
                GetAttachments pid]) = (Inr im1, l3)
    \<and> uploadCharts client rt pid (currentAttachments_of atts) imgs im1 l3 = (Inr im, log')"
  using assms unfolding uploadAssets_def
  apply (elim bind_InrE)
  apply (drule lift_InrD)
  apply (drule lift_InrD)
  apply (drule perform_InrD)
  apply (drule perform_InrD)
  apply (elim conjE)
  apply simp
  done

subsection \<open>The entries of the image map\<close>

lemma set_insert_all_set: "set (set_insert_all seen xs) = set seen \<union> set xs"
  by (induction xs arbitrary: seen) auto

lemma set_values_set: "set (set_values xs) = set xs"
  by (simp add: set_values_def set_insert_all_set)

lemma uploadFile_unreadable:
  "readBinary client log f path = Inr None \<Longrightarrow>
   uploadFile client rt pid path f cur log = (Inr None, log @ [ReadBinary f path])"
  by (simp add: uploadFile_def bind_def perform_def return_def)

lemma uploadImages_other:
  "uploadImages client rt pid path cur urls im l = (Inr im', l') \<Longrightarrow>
   Some (JStr u) \<notin> set urls \<Longrightarrow> im' u = im u"
proof (induction urls arbitrary: im l)
  case Nil
  then show ?case by (simp add: return_def)
next
  case (Cons x urls)
  from Cons.prems(1) obtain v where x: "x = Some (JStr v)"
    by (cases x; cases "the x") (auto simp: throw_def)
  from Cons.prems(1) [unfolded x uploadImages.simps option.case jval.case]
  obtain c l1 where
    rest: "uploadImages client rt pid path cur urls (im(v := Some c)) l1 = (Inr im', l')"
    by (elim bind_InrE)
  from Cons.prems(2) x have "v \<noteq> u" "Some (JStr u) \<notin> set urls" by auto
  with Cons.IH [OF rest] show ?case by simp
qed

lemma uploadImages_unreadable:
  assumes "\<And>l. readBinary client l (at_index (split_scheme u) 1) path = Inr None"
  shows "uploadImages client rt pid path cur urls im l = (Inr im', l') \<Longrightarrow>
     Some (JStr u) \<in> set urls \<Longrightarrow> im' u = Some None"
proof (induction urls arbitrary: im l)
  case Nil
  then show ?case by simp
next
  case (Cons x urls)
  from Cons.prems(1) obtain v where x: "x = Some (JStr v)"
    by (cases x; cases "the x") (auto simp: throw_def)
  from Cons.prems(1) [unfolded x uploadImages.simps option.case jval.case]
  obtain c l1 where
    first: "uploadFile client rt pid path (at_index (split_scheme v) 1) cur l = (Inr c, l1)"
    and rest: "uploadImages client rt pid path cur urls (im(v := Some c)) l1 = (Inr im', l')"
    by (elim bind_InrE)
  show ?case
  proof (cases "Some (JStr u) \<in> set urls")
    case True
    from Cons.IH [OF rest True] show ?thesis .
  next
    case False
    with Cons.prems(2) x have v: "v = u" by simp
    from first uploadFile_unreadable [OF assms] have "c = None"
      by (simp add: v)
    with uploadImages_other [OF rest False] show ?thesis by (simp add: v)
  qed
qed

lemma uploadCharts_other:
  "uploadCharts client rt pid cur imgs im l = (Inr im', l') \<Longrightarrow>
   u \<notin> fst ` set imgs \<Longrightarrow> im' u = im u"
proof (induction imgs arbitrary: im l)
  case Nil
  then show ?case by (simp add: return_def)
next
  case (Cons i imgs)
  from Cons.prems(1) [unfolded uploadCharts.simps] obtain c l1 where
    rest: "uploadCharts client rt pid cur imgs (im(fst i := Some c)) l1 = (Inr im', l')"
    by (elim bind_InrE)
  from Cons.prems(2) have "fst i \<noteq> u" "u \<notin> fst ` set imgs" by auto
  with Cons.IH [OF rest] show ?case by simp
qed



subsection \<open>The rewrite of the body\<close>

lemma split_scheme_example: "split_scheme ''file://x.png'' = [''file'', ''x.png'']"
  by (simp add: split_scheme.simps)

text \<open>
  A page with one file media node whose binary the adaptor cannot read. The node is
  still in the body that uploadFiles returns, with its type and its url as before.
\<close>

theorem unresolved_media_counterexample:
  "uploadFiles example_client example_runtime ''42'' ''/v/A.md''
      (example_body [example_media ''file://x.png'']) []
     = (Inr (Some (example_body [example_media ''file://x.png''])),
        [CaptureMermaidCharts [], GetAttachments ''42'', ReadBinary (Some ''x.png'') ''/v/A.md''])"
  by (simp add: uploadFiles_def uploadAssets_def bind_def lift_def perform_def return_def filter_adf_def
        traverse_def example_runtime_def example_client_def example_body_def example_media_def
        filterNode_numeral traverseNode_numeral mermaidNodesToUpload_def set_values_def
        rewrite_visitors_def visitor_for_def is_media_def is_mermaid_def attr_def
        currentAttachments_of_def uploadFile_def split_scheme_example at_index_def
        media_visitor_def mapped_def)

text \<open>
  C5, as the code has it. The assets of a page have been uploaded, with \<^verbatim>\<open>imageMap\<close>
  as the result, and \<open>node\<close> is a file media node at the place \<open>p\<close> of the body, not
  under a mermaid code block. If its reference is not resolved (its key holds no upload
  in \<^verbatim>\<open>imageMap\<close>: the entry is \<^verbatim>\<open>null\<close> or absent) the media visitor returns
  nothing for it, uploadFiles returns a body, and in that body the node stands at the
  place \<open>p\<close>: with its type, its attributes (the url with them), marks and text, and
  unchanged altogether when its content is plain, as that of a node without content is.
  A reference whose binary the adaptor cannot read is not resolved, unless the renderer
  returns for the page an image under the very name of the url: its entry is
  \<^verbatim>\<open>null\<close>. And the
  unreadable binary is no error: uploadFile returns \<^verbatim>\<open>null\<close> after the one read.
\<close>

theorem unresolved_media_left_in_place:
  assumes "uploadAssets client rt pageId0 pageFilePath adr log = (Inr imageMap, log1)"
    and "node_at adr p = Some node"
    and "node_type node = ''media''"
    and "attr node ''type'' = Some (JStr ''file'')"
    and "\<not> under_mermaid adr p"
  shows "(mapped imageMap (to_key (attr node ''url'')) = None \<longrightarrow>
          media_visitor imageMap node = Inr VUndefined
          \<and> (\<exists>afterAdf node'.
                uploadFiles client rt pageId0 pageFilePath adr log = (Inr (Some afterAdf), log1)
                \<and> node_at afterAdf p = Some node'
                \<and> node_type node' = ''media'' \<and> node_attrs node' = node_attrs node
                \<and> node_marks node' = node_marks node \<and> node_text node' = node_text node
                \<and> (plain_content node \<longrightarrow> node' = node)))
     \<and> (attr node ''url'' = Some (JStr u)
          \<and> (\<forall>l. readBinary client l (at_index (split_scheme u) 1) pageFilePath = Inr None)
          \<and> (\<forall>mermaidNodes imgs.
                filter_adf (stack_depth rt) adr is_mermaid = Inr mermaidNodes
                \<and> captureMermaidCharts client log (mermaidNodesToUpload rt mermaidNodes)
                    = Inr imgs \<longrightarrow>
                u \<notin> fst ` set imgs) \<longrightarrow>
          imageMap u = Some None \<and> mapped imageMap (to_key (attr node ''url'')) = None)
     \<and> (readBinary client l fileNameToUpload pageFilePath = Inr None \<longrightarrow>
          uploadFile client rt pageId0 pageFilePath fileNameToUpload currentAttachments l
            = (Inr None, l @ [ReadBinary fileNameToUpload pageFilePath]))"
proof -
  have kept: "media_visitor imageMap node = Inr VUndefined
          \<and> (\<exists>afterAdf node'.
                uploadFiles client rt pageId0 pageFilePath adr log = (Inr (Some afterAdf), log1)
                \<and> node_at afterAdf p = Some node'
                \<and> node_type node' = ''media'' \<and> node_attrs node' = node_attrs node
                \<and> node_marks node' = node_marks node \<and> node_text node' = node_text node
                \<and> (plain_content node \<longrightarrow> node' = node))"
    if un: "mapped imageMap (to_key (attr node ''url'')) = None"
  proof -
    have v: "media_visitor imageMap node = Inr VUndefined"
      using assms(4) un by (simp add: media_visitor_def)
    have av: "after_visit (rewrite_visitors rt imageMap) node = node"
      using assms(3) v by (simp add: after_visit_def visitor_for_def rewrite_visitors_def)
    from uploadFiles_after_assets [OF assms(1)] obtain afterAdf where
      t: "traverse (stack_depth rt) adr (rewrite_visitors rt imageMap) = Inr (Some afterAdf)"
      and u: "uploadFiles client rt pageId0 pageFilePath adr log = (Inr (Some afterAdf), log1)"
      by blast
    from rewrite_at_path [OF t assms(2) assms(5) av] obtain node' where
      "node_at afterAdf p = Some node'" "node_type node' = node_type node"
      "node_attrs node' = node_attrs node" "node_marks node' = node_marks node"
      "node_text node' = node_text node" "plain_content node \<longrightarrow> node' = node"
      by auto
    with v u assms(3) show ?thesis by auto
  qed
  have null: "imageMap u = Some None \<and> mapped imageMap (to_key (attr node ''url'')) = None"
    if url: "attr node ''url'' = Some (JStr u)"
      and unreadable: "\<forall>l. readBinary client l (at_index (split_scheme u) 1) pageFilePath
          = Inr None"
      and nochart: "\<forall>mermaidNodes imgs.
          filter_adf (stack_depth rt) adr is_mermaid = Inr mermaidNodes
          \<and> captureMermaidCharts client log (mermaidNodesToUpload rt mermaidNodes) = Inr imgs
          \<longrightarrow> u \<notin> fst ` set imgs"
  proof -
    from uploadAssets_InrD [OF assms(1)] obtain mediaNodes mermaidNodes imgs atts im1 l3 where
      f: "filter_adf (stack_depth rt) adr is_media = Inr mediaNodes"
      and fm: "filter_adf (stack_depth rt) adr is_mermaid = Inr mermaidNodes"
      and c: "captureMermaidCharts client log (mermaidNodesToUpload rt mermaidNodes) = Inr imgs"
      and i: "uploadImages client rt pageId0 pageFilePath (currentAttachments_of atts)
          (set_values (map (\<lambda>node. attr node ''url'') mediaNodes)) (\<lambda>k. None)
          (log @ [CaptureMermaidCharts (mermaidNodesToUpload rt mermaidNodes),
                  GetAttachments pageId0]) = (Inr im1, l3)"
      and ch: "uploadCharts client rt pageId0 (currentAttachments_of atts) imgs im1 l3
          = (Inr imageMap, log1)"
      by blast
    have "is_media node" using assms(3,4) by (simp add: is_media_def)
    with f assms(2) have "node \<in> set mediaNodes"
      unfolding filter_adf_def by (rule filter_finds)
    then have "attr node ''url'' \<in> set (map (\<lambda>node. attr node ''url'') mediaNodes)"
      by simp
    then have m: "Some (JStr u) \<in> set (set_values (map (\<lambda>node. attr node ''url'') mediaNodes))"
      by (simp only: set_values_set url)
    from unreadable have "\<And>l. readBinary client l (at_index (split_scheme u) 1) pageFilePath
          = Inr None" by blast
    from uploadImages_unreadable [OF this i m] have "im1 u = Some None" .
    moreover from nochart fm c have "u \<notin> fst ` set imgs" by blast
    from uploadCharts_other [OF ch this] have "imageMap u = im1 u" .
    ultimately have "imageMap u = Some None" by simp
    then show ?thesis by (simp add: mapped_def url)
  qed
  have rd: "uploadFile client rt pageId0 pageFilePath fileNameToUpload currentAttachments l
            = (Inr None, l @ [ReadBinary fileNameToUpload pageFilePath])"
    if "readBinary client l fileNameToUpload pageFilePath = Inr None"
    using that by (rule uploadFile_unreadable)
  show ?thesis
    apply (rule conjI, rule impI, erule kept)
    apply (rule conjI, rule impI, elim conjE, erule (2) null)
    apply (rule impI, erule rd)
    done
qed

theorem unresolved_media_left_in_place_witness:
  "\<exists>afterAdf log1.
     uploadFiles example_client example_runtime ''42'' ''/v/A.md''
       (example_body [Node ''mediaSingle'' None (Some [example_media ''file://x.png'']) None None])
       [] = (Inr (Some afterAdf), log1)
     \<and> node_at afterAdf [0, 0] = Some (example_media ''file://x.png'')"
proof -
  have a: "uploadAssets example_client example_runtime ''42'' ''/v/A.md''
       (example_body [Node ''mediaSingle'' None (Some [example_media ''file://x.png'']) None None])
       [] = (Inr ((\<lambda>k. None)(''file://x.png'' := Some None)),
             [CaptureMermaidCharts [], GetAttachments ''42'',
              ReadBinary (Some ''x.png'') ''/v/A.md''])"
    by (simp add: uploadAssets_def bind_def lift_def perform_def return_def filter_adf_def
        example_runtime_def example_client_def example_body_def example_media_def
        filterNode_numeral mermaidNodesToUpload_def set_values_def
        is_media_def is_mermaid_def attr_def
        currentAttachments_of_def uploadFile_def split_scheme_example at_index_def)
  have n: "node_at
       (example_body [Node ''mediaSingle'' None (Some [example_media ''file://x.png'']) None None])
       [0, 0] = Some (example_media ''file://x.png'')"
    by (simp add: example_body_def)
  have t: "node_type (example_media ''file://x.png'') = ''media''"
    by (simp add: example_media_def)
  have f: "attr (example_media ''file://x.png'') ''type'' = Some (JStr ''file'')"
    by (simp add: example_media_def attr_def)
  have m: "\<not> under_mermaid
       (example_body [Node ''mediaSingle'' None (Some [example_media ''file://x.png'']) None None])
       [0, 0]"
    by (simp add: example_body_def is_mermaid_def)
  have u: "attr (example_media ''file://x.png'') ''url'' = Some (JStr ''file://x.png'')"
    by (simp add: example_media_def attr_def)
  have r: "\<forall>l. readBinary example_client l (at_index (split_scheme ''file://x.png'') 1)
       ''/v/A.md'' = Inr None"
    by (simp add: example_client_def)
  have c: "\<forall>mermaidNodes imgs.
       filter_adf (stack_depth example_runtime)
         (example_body [Node ''mediaSingle'' None (Some [example_media ''file://x.png''])
            None None]) is_mermaid = Inr mermaidNodes
       \<and> captureMermaidCharts example_client []
           (mermaidNodesToUpload example_runtime mermaidNodes) = Inr imgs \<longrightarrow>
       ''file://x.png'' \<notin> fst ` set imgs"
    by (auto simp: filter_adf_def example_runtime_def example_client_def example_body_def
          example_media_def filterNode_numeral mermaidNodesToUpload_def is_mermaid_def
          attr_def)
  have pc: "plain_content (example_media ''file://x.png'')"
    by (simp add: plain_content_def example_media_def)
  note inst = unresolved_media_left_in_place [OF a n t f m, where u = "''file://x.png''"]
  from inst [THEN conjunct2, THEN conjunct1] u r c have
    "mapped ((\<lambda>k. None)(''file://x.png'' := Some None))
       (to_key (attr (example_media ''file://x.png'') ''url'')) = None"
    by blast
  with inst [THEN conjunct1] pc show ?thesis by blast
qed

subsection \<open>Diagram blocks\<close>

lemma mermaidNodesToUpload_length:
  "length (mermaidNodesToUpload rt mermaidNodes) = length mermaidNodes"
  by (simp add: mermaidNodesToUpload_def)

text \<open>
  C4 at a page with two mermaid code blocks of the same source text. The renderer is
  called with two entries of the same name and text, not one; with a renderer that
  answers every entry, the same image is then uploaded twice under the one filename.
  Both blocks come to reference that file.
\<close>

theorem duplicate_charts_not_deduplicated:
  "uploadFiles example_client example_runtime ''42'' ''/v/A.md''
      (example_body [example_mermaid [Node ''text'' None None None (Some ''graph TD'')],
                     example_mermaid [Node ''text'' None None None (Some ''graph TD'')]]) []
     = (Inr (Some (example_body
          [Node ''mediaSingle'' (Some [(''layout'', JStr ''center'')])
             (Some [Node ''media''
                (Some [(''type'', JStr ''file''), (''collection'', JStr ''contentId-42''),
                       (''id'', JStr ''file-RenderedMermaidChart-md5-graph TD.png'')])
                None None None]) None None,
           Node ''mediaSingle'' (Some [(''layout'', JStr ''center'')])
             (Some [Node ''media''
                (Some [(''type'', JStr ''file''), (''collection'', JStr ''contentId-42''),
                       (''id'', JStr ''file-RenderedMermaidChart-md5-graph TD.png'')])
                None None None]) None None])),
        [CaptureMermaidCharts
           [\<lparr> chart_name = ''RenderedMermaidChart-md5-graph TD.png'', chart_data = ''graph TD'' \<rparr>,
            \<lparr> chart_name = ''RenderedMermaidChart-md5-graph TD.png'', chart_data = ''graph TD'' \<rparr>],
         GetAttachments ''42'',
         CreateOrUpdateAttachments ''42''
           \<lparr> au_file = ''png'', au_filename = ''RenderedMermaidChart-md5-graph TD.png'',
             au_minorEdit = False, au_comment = ''md5-png'', au_contentType = Some ''image/png'' \<rparr>,
         CreateOrUpdateAttachments ''42''
           \<lparr> au_file = ''png'', au_filename = ''RenderedMermaidChart-md5-graph TD.png'',
             au_minorEdit = False, au_comment = ''md5-png'', au_contentType = Some ''image/png'' \<rparr>])"
  by (simp add: uploadFiles_def uploadAssets_def bind_def lift_def perform_def return_def filter_adf_def
        traverse_def example_runtime_def example_client_def example_body_def example_mermaid_def
        filterNode_numeral traverseNode_numeral mermaidNodesToUpload_def set_values_def
        rewrite_visitors_def visitor_for_def is_media_def is_mermaid_def attr_def
        currentAttachments_of_def uploadBuffer_def attached_unchanged_def first_result_def
        media_visitor_def codeBlock_visitor_def mapped_def getMermaidFileName_def first_text_def
        truthy_def Let_def)




end
